(* ===== verification/Pascal_Prelude.thy ===== *)
theory Pascal_Prelude
  imports Main "HOL-Library.Word" "HOL-Library.Monad_Syntax"
begin

text \<open>
  Types, collections and generic lemmas shared by the component theories.

  The compiler flags of Makefile.inc fix the C dialect: \<open>-fwrapv\<close> (signed overflow
  wraps), \<open>-funsigned-char\<close> (plain char is unsigned), 32-bit ARM (int, long and
  pointers have 32 bits). A C integer is a word of its width; \<open>sint\<close> reads it as
  a signed value, \<open>uint\<close> or \<open>unat\<close> as an unsigned one. A computation that may
  fail to return, or that leaves the semantics of C (an access outside an array, a
  NULL function pointer), has an option result and is written in do-notation:
  \<open>None\<close> says that the call does not come back with a defined result.
\<close>

unbundle bit_operations_syntax

type_synonym u8 = "8 word"
type_synonym u16 = "16 word"
type_synonym u32 = "32 word"
type_synonym u64 = "64 word"

text \<open>A C int or long: 32 bits in two's complement.\<close>

type_synonym cint = "32 word"

named_theorems frame_simps \<open>fields an operation leaves alone\<close>
named_theorems wf_intros \<open>preservation of the well-formedness invariants\<close>

section \<open>Signed comparison and division of C\<close>

definition cless :: "cint \<Rightarrow> cint \<Rightarrow> bool" where
  "cless a b \<longleftrightarrow> sint a < sint b"

text \<open>C divides towards zero, and the remainder has the sign of the dividend.\<close>

definition cdiv :: "int \<Rightarrow> int \<Rightarrow> int" where
  "cdiv a b = sgn a * sgn b * (\<bar>a\<bar> div \<bar>b\<bar>)"

definition cmod :: "int \<Rightarrow> int \<Rightarrow> int" where
  "cmod a b = a - b * cdiv a b"

lemma cdiv_nonneg: "0 \<le> a \<Longrightarrow> 0 < b \<Longrightarrow> cdiv a b = a div b"
  by (cases "a = 0") (auto simp: cdiv_def)

lemma cmod_nonneg: "0 \<le> a \<Longrightarrow> 0 < b \<Longrightarrow> cmod a b = a mod b"
  by (simp add: cmod_def cdiv_nonneg minus_mult_div_eq_mod)

section \<open>Lists\<close>

lemma nth_list_update_if:
  "i < length xs \<Longrightarrow> xs[i := x] ! j = (if i = j then x else xs ! j)"
  by (auto simp: nth_list_update)

lemma length_pos_conv: "length xs = Suc n \<longleftrightarrow> (\<exists>y ys. xs = y # ys \<and> length ys = n)"
  by (cases xs) auto

section \<open>Ring indices\<close>

lemma Suc_wrap: "i < n \<Longrightarrow> (if Suc i = n then 0 else Suc i) = Suc i mod n"
  by auto

lemma ring_Suc:
  "e = (s + r) mod n \<Longrightarrow> 0 < n \<Longrightarrow> (if Suc e = n then 0 else Suc e) = (s + Suc r) mod (n::nat)"
  by (auto simp: mod_Suc)

lemma ring_idx_inj:
  assumes "i < n" "j < n" "(s + i) mod n = (s + j) mod (n :: nat)"
  shows "i = j"
  using assms
proof (induction i j rule: linorder_wlog)
  case (le a b)
  then have "n dvd (s + b) - (s + a)"
    by (metis mod_eq_dvd_iff_nat nat_add_left_cancel_le)
  then have "n dvd b - a" by simp
  then have "b - a = 0" using le
    by (metis diff_le_self dvd_imp_le le_less_trans linorder_not_less neq0_conv)
  then show ?case using le by simp
qed auto

section \<open>Words\<close>

lemma unat_lt_cases: "unat (x :: 'a::len word) < unat y \<longleftrightarrow> x < y"
  by (simp add: word_less_nat_alt)

lemma unat_Suc_less: "(x :: 'a::len word) < y \<Longrightarrow> unat (x + 1) = Suc (unat x)"
proof -
  assume "x < y"
  then have "unat x < unat y" by (simp add: word_less_nat_alt)
  moreover have "unat y < 2 ^ LENGTH('a)" by (rule unsigned_less)
  ultimately have "unat x + unat (1 :: 'a word) < 2 ^ LENGTH('a)"
    by (simp only: unsigned_1)
  then have "unat (x + 1) = unat x + unat (1 :: 'a word)"
    by (rule unat_add_lem [THEN iffD1])
  then show ?thesis by simp
qed

lemma unat_ucast_up:
  "LENGTH('a) \<le> LENGTH('b) \<Longrightarrow> unat (ucast (x :: 'a::len word) :: 'b::len word) = unat x"
proof -
  assume le: "LENGTH('a) \<le> LENGTH('b)"
  have "unat x < 2 ^ LENGTH('a)" by (rule unsigned_less)
  also have "(2::nat) ^ LENGTH('a) \<le> 2 ^ LENGTH('b)" using le by simp
  finally show ?thesis
    by (simp add: unsigned_ucast_eq take_bit_nat_eq_self)
qed

lemma sint_add_no_overflow:
  assumes "- (2 ^ 31) \<le> sint (a :: 32 word) + sint (b :: 32 word)" "sint a + sint b < 2 ^ 31"
  shows "sint (a + b) = sint a + sint b"
proof -
  have "sint (a + b) = signed_take_bit 31 (sint a + sint b)"
    by (simp add: signed_take_bit_eq_if_positive sint_word_ariths)
  then show ?thesis
    using assms by (simp add: signed_take_bit_int_eq_self)
qed

text \<open>Signed reading of a 32-bit word, and counting down to zero.\<close>

lemma bit_sign_unat: "bit (x :: cint) 31 \<longleftrightarrow> 2 ^ 31 \<le> unat x"
proof -
  have "bit (unat x) 31 \<longleftrightarrow> bit x 31" by (simp add: bit_unsigned_iff)
  then have "bit x 31 \<longleftrightarrow> odd (unat x div 2 ^ 31)" by (simp add: bit_iff_odd [of "unat x"])
  moreover have "unat x < 2 ^ LENGTH(32)" by (rule unsigned_less)
  then have "unat x div 2 ^ 31 < 2" by (simp add: less_mult_imp_div_less)
  ultimately show ?thesis by (cases "unat x div 2 ^ 31 = 0") (auto simp: div_eq_0_iff less_2_cases_iff)
qed

lemma sint_unat: "sint (x :: cint) = (if unat x < 2 ^ 31 then int (unat x) else int (unat x) - 2 ^ 32)"
proof -
  have "sint x = signed_take_bit 31 (uint x)" by (simp add: sint_uint)
  also have "\<dots> = take_bit 32 (uint x) - 2 ^ 32 * of_bool (bit (uint x) 31)"
    by (simp add: signed_take_bit_eq_take_bit_minus)
  also have "take_bit 32 (uint x) = uint x"
    by (rule take_bit_int_eq_self) (use unsigned_less [of x] in \<open>simp_all\<close>)
  finally show ?thesis by (simp add: bit_sign_unat bit_unsigned_iff)
qed

lemma cless_0: "cless 0 x \<longleftrightarrow> 0 < unat x \<and> unat x < 2 ^ 31"
proof -
  have "unat x < 2 ^ LENGTH(32)" by (rule unsigned_less)
  then have "int (unat x) < 2 ^ 32" by (simp del: of_nat_unat)
  then show ?thesis
    unfolding cless_def sint_unat by (simp del: of_nat_unat)
qed

lemma cless_0_step:
  "cless 0 (x :: cint) \<Longrightarrow> unat x = Suc (unat (x - 1)) \<and> unat (x - 1) < 2 ^ 31"
proof -
  assume a: "cless 0 x"
  then have "x \<noteq> 0" by (auto simp: cless_0)
  from unat_minus_one [OF this] a show ?thesis by (auto simp: cless_0)
qed

lemma sint_cint: "- (2 ^ 31) \<le> sint (x :: cint)" "sint (x :: cint) < 2 ^ 31"
  using sint_greater_eq [of x] sint_less [of x] by simp_all

lemma ucast_byte_up_down [simp]:
  "ucast (ucast (b :: u8) :: u16) = b" "ucast (ucast (b :: u8) :: u32) = b"
  by (rule bit_word_eqI; simp add: bit_ucast_iff)+

end
