(* ===== verification/Heap_Sbrk.thy ===== *)
theory Heap_Sbrk
  imports Pascal_Prelude
begin

text \<open>
  The allocator \<open>sys_sbrk\<close> of src/src/syscall.c and the error numbers of
  src/src/lib/libc/include/errno.h. The static variables \<open>heap_top\<close>, \<open>heap_end\<close>
  and \<open>c\<close> and the global \<open>errno\<close> are the fields of the state.
\<close>

datatype errno_e =
    EPERM | ENOENT | ESRCH | EINTR | EIO | ENXIO | E2BIG | ENOEXEC | EBADF | ECHILD
  | EAGAIN | ENOMEM | EACCES | EFAULT | EBUSY | EEXIST | EXDEV | ENODEV | ENOTDIR | EISDIR
  | EINVAL | ENFILE | EMFILE | ENOTTY | ETXTBSY | EFBIG | ENOSPC | ESPIPE | EROFS | EMLINK
  | EPIPE | EDOM | ERANGE | ENOMSG | EIDRM | EDEADLK | ENOLCK

record heap =
  heap_top :: u32
  heap_end :: u32
  sbrk_c :: cint
  errno :: errno_e

text \<open>The comparison is one of pointers, hence unsigned; \<open>heap_top + nbytes\<close> wraps.\<close>

definition sys_sbrk :: "cint \<Rightarrow> heap \<Rightarrow> u32 \<times> heap" where
  "sys_sbrk nbytes h =
     (if heap_end h < heap_top h + nbytes
      then (- 1, h\<lparr>errno := ENOMEM\<rparr>)
      else (heap_top h, h\<lparr>sbrk_c := sbrk_c h + 1, heap_top := heap_top h + nbytes\<rparr>))"

text \<open>A run of requests: the blocks granted, as pairs of base address and size.\<close>

fun sbrk_run :: "cint list \<Rightarrow> heap \<Rightarrow> (u32 \<times> u32) list \<times> heap" where
  "sbrk_run [] h = ([], h)"
| "sbrk_run (n # ns) h =
     (let (p, h1) = sys_sbrk n h; (bs, h2) = sbrk_run ns h1
      in (if p = - 1 then bs else (p, n) # bs, h2))"

text \<open>
  A heap is in order when its top is at most its end and no request of at most
  \<open>2 ^ 31 - 1\<close> bytes wraps around the address space (the RAM of the device ends at
  0x20004000).
\<close>

definition heap_ok :: "heap \<Rightarrow> bool" where
  "heap_ok h \<longleftrightarrow> heap_top h \<le> heap_end h \<and> unat (heap_end h) < 2 ^ 31"

definition request_ok :: "cint \<Rightarrow> bool" where
  "request_ok n \<longleftrightarrow> unat n < 2 ^ 31"

text \<open>The bytes of a block, as natural numbers.\<close>

definition block_bytes :: "u32 \<times> u32 \<Rightarrow> nat set" where
  "block_bytes b = {unat (fst b) ..< unat (fst b) + unat (snd b)}"

lemma unat_top_add:
  assumes "heap_ok h" "request_ok n"
  shows "unat (heap_top h + n) = unat (heap_top h) + unat n"
proof -
  have "unat (heap_top h) \<le> unat (heap_end h)"
    using assms(1) by (simp add: heap_ok_def word_le_nat_alt)
  then have "unat (heap_top h) + unat n < 2 ^ LENGTH(32)"
    using assms by (simp add: heap_ok_def request_ok_def)
  then show ?thesis by (rule unat_add_lem [THEN iffD1])
qed

lemma sys_sbrk_cases:
  assumes "heap_ok h" "request_ok n"
  shows "sys_sbrk n h =
    (if unat (heap_top h) + unat n \<le> unat (heap_end h)
     then (heap_top h, h\<lparr>sbrk_c := sbrk_c h + 1, heap_top := heap_top h + n\<rparr>)
     else (- 1, h\<lparr>errno := ENOMEM\<rparr>))"
  using unat_top_add [OF assms] by (simp add: sys_sbrk_def word_less_nat_alt)

lemma heap_ok_sbrk [wf_intros]:
  assumes "heap_ok h" "request_ok n"
  shows "heap_ok (snd (sys_sbrk n h))"
  using assms unat_top_add [OF assms]
  by (auto simp: sys_sbrk_cases heap_ok_def word_le_nat_alt)

lemma heap_ok_top_not_minus_one: "heap_ok h \<Longrightarrow> heap_top h \<noteq> - 1"
proof
  assume "heap_ok h" "heap_top h = - 1"
  then have "unat (- 1 :: u32) \<le> unat (heap_end h)" "unat (heap_end h) < 2 ^ 31"
    by (auto simp: heap_ok_def word_le_nat_alt)
  moreover have "unat (- 1 :: u32) = 2 ^ 32 - 1"
    by (simp add: unsigned_minus_1_eq_mask mask_eq_exp_minus_1)
  ultimately show False by simp
qed

lemma sbrk_grows:
  assumes "heap_ok h" "request_ok n"
  shows "unat (heap_top h) \<le> unat (heap_top (snd (sys_sbrk n h)))"
    and "heap_end (snd (sys_sbrk n h)) = heap_end h"
  using assms unat_top_add [OF assms] by (auto simp: sys_sbrk_cases)

lemma sbrk_run_above:
  assumes "heap_ok h" "\<forall>n \<in> set ns. request_ok n" "b \<in> set (fst (sbrk_run ns h))"
  shows "block_bytes b \<subseteq> {unat (heap_top h) ..< unat (heap_end h)}"
  using assms
proof (induction ns arbitrary: h)
  case Nil
  then show ?case by simp
next
  case (Cons n ns)
  let ?h1 = "snd (sys_sbrk n h)"
  have ok: "heap_ok h" "request_ok n" using Cons.prems by auto
  have later: "block_bytes b \<subseteq> {unat (heap_top h) ..< unat (heap_end h)}"
    if "b \<in> set (fst (sbrk_run ns ?h1))"
  proof -
    have "block_bytes b \<subseteq> {unat (heap_top ?h1) ..< unat (heap_end ?h1)}"
      using Cons.IH [of ?h1] that Cons.prems heap_ok_sbrk [OF ok] by simp
    then show ?thesis using sbrk_grows [OF ok] by auto
  qed
  show ?case
  proof (cases "b \<in> set (fst (sbrk_run ns ?h1))")
    case True
    then show ?thesis by (rule later)
  next
    case False
    then have "b = (heap_top h, n)" "unat (heap_top h) + unat n \<le> unat (heap_end h)"
      using Cons.prems(3) ok
      by (auto simp: sys_sbrk_cases Let_def split_beta split: if_splits)
    then show ?thesis by (auto simp: block_bytes_def)
  qed
qed

section \<open>Properties\<close>

text \<open>
  C33: the allocator is safe. For any sequence of requests of less than 2 GB each, every block that
  \<open>sys_sbrk\<close> grants lies between the top of the heap at the start and its end, and no two of
  them share a byte, whatever requests are refused in between.
\<close>

theorem sbrk_blocks_disjoint:
  assumes "heap_ok h" "\<forall>n \<in> set ns. request_ok n"
  shows "(\<forall>b \<in> set (fst (sbrk_run ns h)). block_bytes b \<subseteq> {unat (heap_top h) ..< unat (heap_end h)}) \<and>
    sorted_wrt (\<lambda>a b. block_bytes a \<inter> block_bytes b = {}) (fst (sbrk_run ns h))"
proof
  show "\<forall>b \<in> set (fst (sbrk_run ns h)). block_bytes b \<subseteq> {unat (heap_top h) ..< unat (heap_end h)}"
    using sbrk_run_above [OF assms] by blast
  show "sorted_wrt (\<lambda>a b. block_bytes a \<inter> block_bytes b = {}) (fst (sbrk_run ns h))"
    using assms
  proof (induction ns arbitrary: h)
    case (Cons n ns)
    let ?h1 = "snd (sys_sbrk n h)"
    have ok: "heap_ok h" "request_ok n" "heap_ok ?h1" using Cons.prems heap_ok_sbrk by auto
    have later: "sorted_wrt (\<lambda>a b. block_bytes a \<inter> block_bytes b = {}) (fst (sbrk_run ns ?h1))"
      using Cons.IH [OF ok(3)] Cons.prems(2) by simp
    show ?case
    proof (cases "unat (heap_top h) + unat n \<le> unat (heap_end h)")
      case True
      then have "unat (heap_top ?h1) = unat (heap_top h) + unat n"
        using unat_top_add [OF ok(1,2)] by (simp add: sys_sbrk_cases [OF ok(1,2)])
      then have "block_bytes (heap_top h, n) \<inter> block_bytes b = {}"
        if "b \<in> set (fst (sbrk_run ns ?h1))" for b
        using sbrk_run_above [OF ok(3) _ that] Cons.prems(2) by (fastforce simp: block_bytes_def)
      then show ?thesis
        using later True by (auto simp: sys_sbrk_cases [OF ok(1,2)] split_beta Let_def)
    next
      case False
      then show ?thesis
        using later by (simp add: sys_sbrk_cases [OF ok(1,2)] split_beta Let_def)
    qed
  qed simp
qed

theorem sbrk_blocks_disjoint_witness:
  "sorted_wrt (\<lambda>a b. block_bytes a \<inter> block_bytes b = {})
     (fst (sbrk_run [64, 8192, 32]
       \<lparr>heap_top = 0x20001000, heap_end = 0x20002000, sbrk_c = 0, errno = EPERM\<rparr>))"
  by (rule sbrk_blocks_disjoint [THEN conjunct2]) (simp_all add: heap_ok_def request_ok_def)

end
