(* ===== verification/Circular_Buffer.thy ===== *)
theory Circular_Buffer
  imports Heap_Sbrk
begin

text \<open>
  The ring buffer of src/src/circular_buffer.c and src/src/include/circular_buffer.h.
  The fields of the struct are a record; the elements live in the memory that
  \<open>sys_sbrk\<close> hands out, a function from the byte address of a cell to its four bytes.
\<close>

section \<open>The data structure and its operations\<close>

text \<open>
  \<open>union cb_element\<close> is four bytes wide: an int, the bit pattern of a float, or a char
  in the lowest byte (little endian).
\<close>

type_synonym cb_element = u32

type_synonym cb_memory = "u32 \<Rightarrow> cb_element"

record circular_buffer =
  cb_buffer :: u32
  cb_writes :: u32
  cb_reads :: u32
  cb_overflows :: u32
  cb_start_valid :: u16
  cb_end_valid :: u16
  cb_size :: u16

record cb_read =
  cb_value :: cb_element
  cb_error :: cint

definition cb_readable :: "circular_buffer \<Rightarrow> u32" where
  "cb_readable cb = cb_writes cb - cb_reads cb - cb_overflows cb"

text \<open>The cell \<open>cb->buffer[i]\<close>.\<close>

definition cb_cell :: "circular_buffer \<Rightarrow> u16 \<Rightarrow> u32" where
  "cb_cell cb i = cb_buffer cb + 4 * ucast i"

definition cbuff_init :: "u16 \<Rightarrow> heap \<Rightarrow> circular_buffer \<times> heap" where
  "cbuff_init sz h =
     (let (p, h') = sys_sbrk (ucast sz * 4) h
      in (\<lparr>cb_buffer = p, cb_writes = 0, cb_reads = 0, cb_overflows = 0,
           cb_start_valid = 0, cb_end_valid = 0, cb_size = sz\<rparr>, h'))"

definition cbuff_is_full :: "circular_buffer \<Rightarrow> bool" where
  "cbuff_is_full cb \<longleftrightarrow> cb_readable cb = ucast (cb_size cb)"

definition cbuff_is_overflowed :: "circular_buffer \<Rightarrow> cint" where
  "cbuff_is_overflowed cb = cb_overflows cb"

definition cbuff_read :: "cb_memory \<Rightarrow> circular_buffer \<Rightarrow> cb_read \<times> circular_buffer" where
  "cbuff_read m cb =
     (if cb_readable cb = 0 then (\<lparr>cb_value = 0, cb_error = 1\<rparr>, cb)
      else
        let v = m (cb_cell cb (cb_start_valid cb));
            cb1 = cb\<lparr>cb_start_valid := cb_start_valid cb + 1, cb_reads := cb_reads cb + 1\<rparr>;
            cb2 = (if cb_start_valid cb1 = cb_size cb1 then cb1\<lparr>cb_start_valid := 0\<rparr> else cb1)
        in (\<lparr>cb_value = v, cb_error = 0\<rparr>, cb2))"

definition cbuff_write ::
    "cb_element \<Rightarrow> cb_memory \<times> circular_buffer \<Rightarrow> cb_memory \<times> circular_buffer" where
  "cbuff_write el mc =
     (let (m, cb) = mc;
          cb1 = (if cb_readable cb = ucast (cb_size cb)
                 then cb\<lparr>cb_overflows := cb_overflows cb + 1\<rparr> else cb);
          m1 = m(cb_cell cb1 (cb_end_valid cb1) := el);
          cb2 = cb1\<lparr>cb_writes := cb_writes cb1 + 1, cb_end_valid := cb_end_valid cb1 + 1\<rparr>;
          cb3 = (if cb_end_valid cb2 = cb_size cb2 then cb2\<lparr>cb_end_valid := 0\<rparr> else cb2)
      in (m1, cb3))"

definition cb_element_int :: "cint \<Rightarrow> cb_element" where
  "cb_element_int t = t"

definition cb_element_float :: "u32 \<Rightarrow> cb_element" where
  "cb_element_float t = t"

text \<open>Only the lowest byte is set: the other three are those of the uninitialised union.\<close>

definition cb_element_char :: "u32 \<Rightarrow> u8 \<Rightarrow> cb_element" where
  "cb_element_char garbage t = (garbage AND NOT 0xFF) OR ucast t"

section \<open>The queue contract\<close>

text \<open>
  What a client of a bounded queue relies on: while the queue is not full, \<open>put\<close> adds at
  the end; \<open>get\<close> takes from the front and reports an empty queue.
\<close>

datatype 'a queue_op = Put 'a | Get

fun spec_fits :: "nat \<Rightarrow> 'a list \<Rightarrow> 'a queue_op list \<Rightarrow> bool" where
  "spec_fits n q [] = True"
| "spec_fits n q (Put x # ops) = (length q < n \<and> spec_fits n (q @ [x]) ops)"
| "spec_fits n q (Get # ops) = spec_fits n (tl q) ops"

fun spec_run :: "'a list \<Rightarrow> 'a queue_op list \<Rightarrow> 'a option list" where
  "spec_run q [] = []"
| "spec_run q (Put x # ops) = spec_run (q @ [x]) ops"
| "spec_run [] (Get # ops) = None # spec_run [] ops"
| "spec_run (x # q) (Get # ops) = Some x # spec_run q ops"

text \<open>A run of operations on an implementation, with the answers of the \<open>Get\<close>s.\<close>

fun queue_run ::
    "('a \<Rightarrow> 's \<Rightarrow> 's) \<Rightarrow> ('s \<Rightarrow> 'a option \<times> 's) \<Rightarrow> 's \<Rightarrow> 'a queue_op list
      \<Rightarrow> 'a option list \<times> 's" where
  "queue_run put get s [] = ([], s)"
| "queue_run put get s (Put x # ops) = queue_run put get (put x s) ops"
| "queue_run put get s (Get # ops) =
     (let (v, s1) = get s; (vs, s2) = queue_run put get s1 ops in (v # vs, s2))"

locale bounded_queue =
  fixes put :: "'a \<Rightarrow> 's \<Rightarrow> 's"
    and get :: "'s \<Rightarrow> 'a option \<times> 's"
    and contents :: "'s \<Rightarrow> 'a list"
    and capacity :: "'s \<Rightarrow> nat"
    and invar :: "'s \<Rightarrow> bool"
  assumes put_invar: "invar s \<Longrightarrow> length (contents s) < capacity s \<Longrightarrow> invar (put x s)"
    and put_contents:
      "invar s \<Longrightarrow> length (contents s) < capacity s \<Longrightarrow> contents (put x s) = contents s @ [x]"
    and put_capacity: "capacity (put x s) = capacity s"
    and get_invar: "invar s \<Longrightarrow> invar (snd (get s))"
    and get_value:
      "invar s \<Longrightarrow> fst (get s) = (case contents s of [] \<Rightarrow> None | y # ys \<Rightarrow> Some y)"
    and get_contents: "invar s \<Longrightarrow> contents (snd (get s)) = tl (contents s)"
    and get_capacity: "capacity (snd (get s)) = capacity s"
begin

text \<open>Every run that respects the capacity returns what the list queue returns.\<close>

lemma run_spec:
  assumes "invar s" "spec_fits (capacity s) (contents s) ops"
  shows "fst (queue_run put get s ops) = spec_run (contents s) ops \<and>
    invar (snd (queue_run put get s ops))"
  using assms
proof (induction ops arbitrary: s)
  case Nil
  then show ?case by simp
next
  case (Cons x ops)
  show ?case
  proof (cases x)
    case (Put a)
    with Cons show ?thesis by (simp add: put_invar put_contents put_capacity)
  next
    case Get
    with Cons show ?thesis
      by (cases "contents s") (simp_all add: split_beta get_invar get_value get_contents get_capacity)
  qed
qed

end

section \<open>The buffer as a bounded queue\<close>

definition cb_contents :: "cb_memory \<times> circular_buffer \<Rightarrow> cb_element list" where
  "cb_contents mc =
     (let (m, cb) = mc
      in map (\<lambda>i. m (cb_cell cb (of_nat ((unat (cb_start_valid cb) + i) mod unat (cb_size cb)))))
           [0 ..< unat (cb_readable cb)])"

definition cb_capacity :: "cb_memory \<times> circular_buffer \<Rightarrow> nat" where
  "cb_capacity mc = unat (cb_size (snd mc))"

text \<open>
  The write index is the read index advanced by the number of readable elements. A write
  to a full buffer moves the write index only, and breaks exactly this.
\<close>

definition cb_invar :: "cb_memory \<times> circular_buffer \<Rightarrow> bool" where
  "cb_invar mc =
     (let (m, cb) = mc
      in 0 < unat (cb_size cb)
       \<and> unat (cb_start_valid cb) < unat (cb_size cb)
       \<and> unat (cb_readable cb) \<le> unat (cb_size cb)
       \<and> unat (cb_end_valid cb)
           = (unat (cb_start_valid cb) + unat (cb_readable cb)) mod unat (cb_size cb))"

text \<open>
  What every operation keeps, overflowing writes included: the indices lie in the ring, and no
  more elements are readable than there are cells.
\<close>

definition cb_ring :: "cb_memory \<times> circular_buffer \<Rightarrow> bool" where
  "cb_ring mc =
     (let (m, cb) = mc
      in unat (cb_start_valid cb) < unat (cb_size cb)
       \<and> unat (cb_end_valid cb) < unat (cb_size cb)
       \<and> unat (cb_readable cb) \<le> unat (cb_size cb))"

text \<open>How far the write index is ahead of the read index, around the ring.\<close>

definition cb_lead :: "circular_buffer \<Rightarrow> nat" where
  "cb_lead cb =
     (unat (cb_end_valid cb) + unat (cb_size cb) - unat (cb_start_valid cb)) mod unat (cb_size cb)"

definition cb_get :: "cb_memory \<times> circular_buffer \<Rightarrow> cb_element option \<times> (cb_memory \<times> circular_buffer)" where
  "cb_get mc =
     (let (r, cb') = cbuff_read (fst mc) (snd mc)
      in (if cb_error r = 0 then Some (cb_value r) else None, (fst mc, cb')))"

lemma unat_times4: "unat (4 * ucast k :: u32) = 4 * unat (k :: u16)"
proof -
  have "unat k < 2 ^ 16" using unsigned_less [of k] by simp
  then have "unat (4 :: u32) * unat (ucast k :: u32) < 2 ^ LENGTH(32)"
    by (simp add: unat_ucast_up)
  then have "unat (4 * ucast k :: u32) = unat (4 :: u32) * unat (ucast k :: u32)"
    by (rule unat_mult_lem [THEN iffD1])
  then show ?thesis by (simp add: unat_ucast_up)
qed

lemma unat_times4': "unat (ucast k * 4 :: u32) = 4 * unat (k :: u16)"
  using unat_times4 [of k] by (simp add: mult.commute)

lemma cb_cell_inj: "cb_cell cb i = cb_cell cb j \<longleftrightarrow> i = j"
proof
  assume "cb_cell cb i = cb_cell cb j"
  then have "(4 * ucast i :: u32) = 4 * ucast j" by (simp add: cb_cell_def)
  then have "unat (4 * ucast i :: u32) = unat (4 * ucast j :: u32)" by simp
  then show "i = j" by (simp add: unat_times4 word_unat_eq_iff)
qed simp

text \<open>The step of a 16-bit index around the ring.\<close>

lemma unat_index_step:
  assumes "unat (i :: u16) < unat n"
  shows "unat (if i + 1 = n then 0 else i + 1) = (if Suc (unat i) = unat n then 0 else Suc (unat i))"
proof -
  have "unat (i + 1) = Suc (unat i)"
    using assms by (auto intro: unat_Suc_less simp: word_less_nat_alt)
  then show ?thesis by (simp add: word_unat_eq_iff)
qed


definition cb_next :: "u16 \<Rightarrow> u16 \<Rightarrow> u16" where
  "cb_next n i = (if i + 1 = n then 0 else i + 1)"

text \<open>A write to a buffer that is not full, field by field.\<close>

lemma cbuff_write_not_full:
  assumes "\<not> cbuff_is_full cb"
  shows "cbuff_write el (m, cb) =
    (m(cb_cell cb (cb_end_valid cb) := el),
     cb\<lparr>cb_writes := cb_writes cb + 1, cb_end_valid := cb_next (cb_size cb) (cb_end_valid cb)\<rparr>)"
  using assms by (simp add: cbuff_write_def cbuff_is_full_def cb_next_def Let_def cb_cell_def)

lemma cbuff_write_full:
  assumes "cbuff_is_full cb"
  shows "cbuff_write el (m, cb) =
    (m(cb_cell cb (cb_end_valid cb) := el),
     cb\<lparr>cb_writes := cb_writes cb + 1, cb_overflows := cb_overflows cb + 1,
        cb_end_valid := cb_next (cb_size cb) (cb_end_valid cb)\<rparr>)"
  using assms by (simp add: cbuff_write_def cbuff_is_full_def cb_next_def Let_def cb_cell_def)

lemma cbuff_read_nonempty:
  assumes "cb_readable cb \<noteq> 0"
  shows "cbuff_read m cb =
    (\<lparr>cb_value = m (cb_cell cb (cb_start_valid cb)), cb_error = 0\<rparr>,
     cb\<lparr>cb_reads := cb_reads cb + 1, cb_start_valid := cb_next (cb_size cb) (cb_start_valid cb)\<rparr>)"
  using assms by (simp add: cbuff_read_def cb_next_def Let_def)

lemma cb_readable_simps [simp]:
  "cb_readable (cb\<lparr>cb_writes := w\<rparr>) = w - cb_reads cb - cb_overflows cb"
  "cb_readable (cb\<lparr>cb_reads := r\<rparr>) = cb_writes cb - r - cb_overflows cb"
  "cb_readable (cb\<lparr>cb_overflows := ov\<rparr>) = cb_writes cb - cb_reads cb - ov"
  "cb_readable (cb\<lparr>cb_end_valid := e\<rparr>) = cb_readable cb"
  "cb_readable (cb\<lparr>cb_start_valid := e\<rparr>) = cb_readable cb"
  by (simp_all add: cb_readable_def)

lemma cb_cell_simps [simp]:
  "cb_cell (cb\<lparr>cb_writes := w\<rparr>) = cb_cell cb"
  "cb_cell (cb\<lparr>cb_reads := w\<rparr>) = cb_cell cb"
  "cb_cell (cb\<lparr>cb_overflows := w\<rparr>) = cb_cell cb"
  "cb_cell (cb\<lparr>cb_end_valid := e\<rparr>) = cb_cell cb"
  "cb_cell (cb\<lparr>cb_start_valid := e\<rparr>) = cb_cell cb"
  by (auto simp: cb_cell_def)

lemma cb_invar_ring: "cb_invar mc \<Longrightarrow> cb_ring mc"
  by (auto simp: cb_invar_def cb_ring_def)

lemma not_full_iff: "cbuff_is_full cb \<longleftrightarrow> unat (cb_readable cb) = unat (cb_size cb)"
  by (simp add: cbuff_is_full_def word_unat_eq_iff unat_ucast_up)

lemma not_full_readable_Suc:
  assumes "cb_ring (m, cb)" "\<not> cbuff_is_full cb"
  shows "unat (cb_writes cb + 1 - cb_reads cb - cb_overflows cb) = Suc (unat (cb_readable cb))"
proof -
  have "unat (cb_readable cb) < unat (cb_size cb)"
    using assms by (auto simp: not_full_iff cb_ring_def)
  then have "cb_readable cb < ucast (cb_size cb)"
    by (simp add: word_less_nat_alt unat_ucast_up)
  then have "unat (cb_readable cb + 1) = Suc (unat (cb_readable cb))"
    by (rule unat_Suc_less)
  then show ?thesis by (simp add: cb_readable_def algebra_simps)
qed

lemma read_readable_pred:
  assumes "cb_readable cb \<noteq> 0"
  shows "unat (cb_writes cb - (cb_reads cb + 1) - cb_overflows cb) = unat (cb_readable cb) - 1"
proof -
  have "unat (cb_readable cb - 1) = unat (cb_readable cb) - 1"
    using assms by (simp add: unat_minus_one)
  then show ?thesis by (simp add: cb_readable_def algebra_simps)
qed

lemma cb_invar_write:
  assumes "cb_invar (m, cb)" "\<not> cbuff_is_full cb"
  shows "cb_invar (cbuff_write el (m, cb))"
proof -
  have "unat (cb_readable cb) < unat (cb_size cb)"
    using assms by (auto simp: not_full_iff cb_invar_def)
  moreover have "unat (cb_next (cb_size cb) (cb_end_valid cb))
      = (unat (cb_start_valid cb) + Suc (unat (cb_readable cb))) mod unat (cb_size cb)"
    using assms(1) unfolding cb_next_def
    by (subst unat_index_step) (auto simp: cb_invar_def mod_Suc)
  ultimately show ?thesis
    using assms not_full_readable_Suc [OF cb_invar_ring [OF assms(1)] assms(2)]
    by (simp add: cbuff_write_not_full cb_invar_def)
qed

lemma unat_of_nat_index:
  assumes "a < unat (n :: u16)"
  shows "unat (of_nat a :: u16) = a"
proof -
  have "unat n < 2 ^ LENGTH(16)" by (rule unsigned_less)
  then show ?thesis
    using assms by (simp add: unsigned_of_nat take_bit_nat_eq_self)
qed

lemma of_nat_index_inj:
  assumes "a < unat (n :: u16)" "b < unat n"
  shows "(of_nat a :: u16) = of_nat b \<longleftrightarrow> a = b"
  using unat_of_nat_index [OF assms(1)] unat_of_nat_index [OF assms(2)] by metis

lemma cb_contents_write:
  assumes "cb_invar (m, cb)" "\<not> cbuff_is_full cb"
  shows "cb_contents (cbuff_write el (m, cb)) = cb_contents (m, cb) @ [el]"
proof -
  let ?s = "unat (cb_start_valid cb)" and ?n = "unat (cb_size cb)" and ?r = "unat (cb_readable cb)"
  have r: "?r < ?n"
    using assms by (auto simp: not_full_iff cb_invar_def)
  have e: "cb_end_valid cb = of_nat ((?s + ?r) mod ?n)"
    using assms(1) by (auto simp: cb_invar_def word_unat_eq_iff unat_of_nat_index [of _ "cb_size cb"])
  have "(of_nat ((?s + i) mod ?n) :: u16) = of_nat ((?s + ?r) mod ?n) \<longleftrightarrow> i = ?r" if "i < ?n" for i
    using that r ring_idx_inj [of i ?n ?r ?s] by (subst of_nat_index_inj [of _ "cb_size cb"]) auto
  with r have "(of_nat ((?s + i) mod ?n) :: u16) \<noteq> of_nat ((?s + ?r) mod ?n)" if "i < ?r" for i
    using that by simp
  then show ?thesis
    using not_full_readable_Suc [OF cb_invar_ring [OF assms(1)] assms(2)]
    by (simp add: cbuff_write_not_full [OF assms(2)] cb_contents_def cb_cell_inj e)
qed

lemma cb_contents_Nil_iff: "cb_contents (m, cb) = [] \<longleftrightarrow> cb_readable cb = 0"
  by (simp add: cb_contents_def unat_eq_0)

lemma length_cb_contents: "length (cb_contents (m, cb)) = unat (cb_readable cb)"
  by (simp add: cb_contents_def)

lemma cb_invar_get: "cb_invar mc \<Longrightarrow> cb_invar (snd (cb_get mc))"
proof (cases mc)
  case (Pair m cb)
  assume inv: "cb_invar mc"
  show ?thesis
  proof (cases "cb_readable cb = 0")
    case True
    then show ?thesis using inv Pair by (simp add: cb_get_def cbuff_read_def)
  next
    case False
    then have pos: "0 < unat (cb_readable cb)" by (simp add: unat_gt_0)
    let ?s = "unat (cb_start_valid cb)" and ?n = "unat (cb_size cb)" and ?r = "unat (cb_readable cb)"
    have nxt: "unat (cb_next (cb_size cb) (cb_start_valid cb)) = Suc ?s mod ?n"
      using inv Pair unfolding cb_next_def
      by (subst unat_index_step) (auto simp: cb_invar_def)
    obtain k where k: "?r = Suc k" using pos by (cases ?r) auto
    have "(Suc ?s mod ?n + k) mod ?n = (?s + Suc k) mod ?n"
      by (simp add: mod_simps)
    with k have "(Suc ?s mod ?n + (?r - 1)) mod ?n = (?s + ?r) mod ?n" by simp
    then show ?thesis
      using inv Pair False nxt read_readable_pred [OF False]
      by (auto simp: cb_get_def cbuff_read_nonempty cb_invar_def)
  qed
qed

lemma cb_contents_get:
  assumes "cb_ring (m, cb)" "cb_readable cb \<noteq> 0"
  shows "cb_contents (m, cb) = m (cb_cell cb (cb_start_valid cb)) # cb_contents (snd (cb_get (m, cb)))"
proof -
  let ?s = "unat (cb_start_valid cb)" and ?n = "unat (cb_size cb)" and ?r = "unat (cb_readable cb)"
  have pos: "0 < ?r" using assms(2) by (simp add: unat_gt_0)
  have s: "?s < ?n" using assms(1) by (simp add: cb_ring_def)
  have nxt: "unat (cb_next (cb_size cb) (cb_start_valid cb)) = Suc ?s mod ?n"
    using s unfolding cb_next_def by (subst unat_index_step) auto
  have "[0 ..< ?r] = 0 # map Suc [0 ..< ?r - 1]"
    using pos by (simp add: map_Suc_upt upt_conv_Cons)
  then show ?thesis
    using assms s nxt read_readable_pred [OF assms(2)]
    by (simp add: cb_get_def cbuff_read_nonempty cb_contents_def mod_simps)
qed

lemma cb_get_spec:
  assumes "cb_ring s"
  shows "fst (cb_get s) = (case cb_contents s of [] \<Rightarrow> None | y # ys \<Rightarrow> Some y) \<and>
    cb_contents (snd (cb_get s)) = tl (cb_contents s)"
proof -
  obtain m cb where s: "s = (m, cb)" by (cases s)
  show ?thesis
  proof (cases "cb_readable cb = 0")
    case True
    then show ?thesis by (simp add: s cb_get_def cbuff_read_def cb_contents_def)
  next
    case False
    then show ?thesis
      using cb_contents_get [of m cb] assms
      by (simp add: s) (simp add: cb_get_def cbuff_read_nonempty)
  qed
qed

interpretation cbq: bounded_queue cbuff_write cb_get cb_contents cb_capacity cb_invar
proof unfold_locales
  fix s x
  assume "cb_invar s" "length (cb_contents s) < cb_capacity s"
  moreover from this have "\<not> cbuff_is_full (snd s)"
    by (cases s) (simp add: not_full_iff length_cb_contents cb_capacity_def)
  ultimately show "cb_invar (cbuff_write x s)" "cb_contents (cbuff_write x s) = cb_contents s @ [x]"
    by (cases s; simp add: cb_invar_write cb_contents_write)+
next
  fix s x
  show "cb_capacity (cbuff_write x s) = cb_capacity s"
    by (cases s) (simp add: cb_capacity_def cbuff_write_def Let_def)
next
  fix s
  show "cb_capacity (snd (cb_get s)) = cb_capacity s"
    by (cases s) (simp add: cb_capacity_def cb_get_def cbuff_read_def Let_def)
qed (simp_all add: cb_invar_get cb_get_spec cb_invar_ring)

section \<open>Overflow\<close>

text \<open>Along every run the overflow count only grows, by at most one per operation.\<close>

lemma write_overflows:
  "cb_overflows (snd (cbuff_write x s)) =
    (if cbuff_is_full (snd s) then cb_overflows (snd s) + 1 else cb_overflows (snd s))"
  by (cases s) (auto simp: cbuff_write_full cbuff_write_not_full)

lemma get_overflows: "cb_overflows (snd (snd (cb_get s))) = cb_overflows (snd s)"
  by (cases s) (simp add: cb_get_def cbuff_read_def Let_def)

lemma overflows_run:
  "\<exists>k \<le> length ops. cb_overflows (snd (snd (queue_run cbuff_write cb_get s ops))) = cb_overflows (snd s) + of_nat k"
proof (induction ops arbitrary: s)
  case (Cons x ops)
  show ?case
  proof (cases x)
    case (Put a)
    obtain k where "k \<le> length ops" "cb_overflows (snd (snd (queue_run cbuff_write cb_get (cbuff_write a s) ops)))
        = cb_overflows (snd (cbuff_write a s)) + of_nat k"
      using Cons.IH by blast
    then show ?thesis
      by (intro exI [of _ "if cbuff_is_full (snd s) then Suc k else k"])
        (simp add: Put write_overflows)
  next
    case Get
    obtain k where "k \<le> length ops" "cb_overflows (snd (snd (queue_run cbuff_write cb_get (snd (cb_get s)) ops)))
        = cb_overflows (snd (snd (cb_get s))) + of_nat k"
      using Cons.IH by blast
    then show ?thesis
      by (intro exI [of _ k]) (simp add: Get get_overflows split_beta)
  qed
qed simp

text \<open>A run within the capacity counts no overflow; the first write beyond it counts one.\<close>

lemma full_iff_length:
  "cbuff_is_full (snd s) \<longleftrightarrow> length (cb_contents s) = cb_capacity s"
  by (cases s) (simp add: not_full_iff length_cb_contents cb_capacity_def)

lemma fits_no_overflow:
  assumes "cb_invar s" "spec_fits (cb_capacity s) (cb_contents s) ops"
  shows "cb_overflows (snd (snd (queue_run cbuff_write cb_get s ops))) = cb_overflows (snd s)"
  using assms
proof (induction ops arbitrary: s)
  case (Cons x ops)
  show ?case
  proof (cases x)
    case (Put a)
    with Cons show ?thesis
      by (simp add: cbq.put_invar cbq.put_contents cbq.put_capacity write_overflows full_iff_length)
  next
    case Get
    with Cons show ?thesis
      by (simp add: split_beta cbq.get_invar cbq.get_contents cbq.get_capacity get_overflows)
  qed
qed simp

lemma no_fit_overflow:
  assumes "cb_invar s" "\<not> spec_fits (cb_capacity s) (cb_contents s) ops"
  shows "\<exists>k. 1 \<le> k \<and> k \<le> length ops \<and>
    cb_overflows (snd (snd (queue_run cbuff_write cb_get s ops))) = cb_overflows (snd s) + of_nat k"
  using assms
proof (induction ops arbitrary: s)
  case (Cons x ops)
  show ?case
  proof (cases x)
    case (Put a)
    show ?thesis
    proof (cases "cbuff_is_full (snd s)")
      case True
      obtain k where "k \<le> length ops" "cb_overflows (snd (snd (queue_run cbuff_write cb_get (cbuff_write a s) ops)))
          = cb_overflows (snd (cbuff_write a s)) + of_nat k"
        using overflows_run by blast
      with True show ?thesis
        by (intro exI [of _ "Suc k"]) (simp add: Put write_overflows)
    next
      case False
      moreover have "length (cb_contents s) \<le> cb_capacity s"
        using Cons.prems(1) by (cases s) (simp add: cb_invar_def length_cb_contents cb_capacity_def)
      ultimately have "length (cb_contents s) < cb_capacity s" by (simp add: full_iff_length)
      then have "\<exists>k. 1 \<le> k \<and> k \<le> length ops \<and>
          cb_overflows (snd (snd (queue_run cbuff_write cb_get (cbuff_write a s) ops)))
            = cb_overflows (snd (cbuff_write a s)) + of_nat k"
        using Cons.prems Put
        by (intro Cons.IH) (simp_all add: cbq.put_invar cbq.put_contents cbq.put_capacity)
      with False show ?thesis by (auto simp: Put write_overflows)
    qed
  next
    case Get
    have "\<exists>k. 1 \<le> k \<and> k \<le> length ops \<and>
        cb_overflows (snd (snd (queue_run cbuff_write cb_get (snd (cb_get s)) ops)))
          = cb_overflows (snd (snd (cb_get s))) + of_nat k"
      using Cons.prems Get
      by (intro Cons.IH) (simp_all add: cbq.get_invar cbq.get_contents cbq.get_capacity)
    then show ?thesis by (auto simp: Get get_overflows split_beta)
  qed
qed simp

lemma of_nat_u32_0: "k < 2 ^ 32 \<Longrightarrow> (of_nat k :: u32) = 0 \<longleftrightarrow> k = 0"
proof -
  assume "k < 2 ^ 32"
  then have "unat (of_nat k :: u32) = k" by (simp add: unsigned_of_nat take_bit_nat_eq_self)
  moreover have "unat (of_nat k :: u32) = 0 \<longleftrightarrow> (of_nat k :: u32) = 0" by (rule unat_eq_0)
  ultimately show "(of_nat k :: u32) = 0 \<longleftrightarrow> k = 0" by argo
qed

lemma overflow_detected:
  assumes "cb_invar s" "length ops < 2 ^ 32" "\<not> spec_fits (cb_capacity s) (cb_contents s) ops"
  shows "cb_overflows (snd (snd (queue_run cbuff_write cb_get s ops))) \<noteq> cb_overflows (snd s)"
proof -
  obtain k where "1 \<le> k" "k \<le> length ops"
    "cb_overflows (snd (snd (queue_run cbuff_write cb_get s ops))) = cb_overflows (snd s) + of_nat k"
    using no_fit_overflow [OF assms(1,3)] by blast
  with assms(2) of_nat_u32_0 [of k] show ?thesis by simp
qed

section \<open>The ring in every state\<close>

lemma cb_ring_write:
  assumes "cb_ring s"
  shows "cb_ring (cbuff_write x s)"
proof -
  obtain m cb where s: "s = (m, cb)" by (cases s)
  have e: "unat (cb_next (cb_size cb) (cb_end_valid cb)) < unat (cb_size cb)"
    using assms unfolding cb_next_def s by (subst unat_index_step) (auto simp: cb_ring_def)
  show ?thesis
  proof (cases "cbuff_is_full cb")
    case True
    then show ?thesis
      using assms e by (simp add: s cbuff_write_full cb_ring_def) (simp add: cb_readable_def algebra_simps)
  next
    case False
    with assms have "Suc (unat (cb_readable cb)) \<le> unat (cb_size cb)"
      by (simp add: s cb_ring_def not_full_iff)
    then show ?thesis
      using assms e False not_full_readable_Suc [OF _ False, of m]
      by (simp add: s cbuff_write_not_full cb_ring_def)
  qed
qed

lemma cb_ring_get:
  assumes "cb_ring s"
  shows "cb_ring (snd (cb_get s))"
proof -
  obtain m cb where s: "s = (m, cb)" by (cases s)
  have e: "unat (cb_next (cb_size cb) (cb_start_valid cb)) < unat (cb_size cb)"
    using assms unfolding cb_next_def s by (subst unat_index_step) (auto simp: cb_ring_def)
  show ?thesis
  proof (cases "cb_readable cb = 0")
    case True
    then show ?thesis using assms by (simp add: s cb_get_def cbuff_read_def)
  next
    case False
    then show ?thesis
      using assms e read_readable_pred [OF False]
      by (auto simp: s cb_get_def cbuff_read_nonempty cb_ring_def)
  qed
qed

lemma cb_ring_run: "cb_ring s \<Longrightarrow> cb_ring (snd (queue_run cbuff_write cb_get s ops))"
proof (induction ops arbitrary: s)
  case (Cons x ops)
  then show ?case by (cases x) (simp_all add: cb_ring_write cb_ring_get split_beta)
qed simp

text \<open>A well-formed full buffer has its write index on its read index.\<close>

lemma cb_lead_0: "cb_invar (m, cb) \<Longrightarrow> cbuff_is_full cb \<Longrightarrow> cb_lead cb = 0"
  by (auto simp: cb_invar_def cb_lead_def not_full_iff)

lemma cb_lead_end:
  assumes "cb_ring (m, cb)"
  shows "cb_lead cb < unat (cb_size cb)"
    and "cb_end_valid cb = of_nat ((unat (cb_start_valid cb) + cb_lead cb) mod unat (cb_size cb))"
proof -
  show "cb_lead cb < unat (cb_size cb)" using assms by (simp add: cb_ring_def cb_lead_def)
  have "(unat (cb_start_valid cb) + cb_lead cb) mod unat (cb_size cb) = unat (cb_end_valid cb)"
    using assms by (simp add: cb_ring_def cb_lead_def mod_simps)
  then show "cb_end_valid cb = of_nat ((unat (cb_start_valid cb) + cb_lead cb) mod unat (cb_size cb))"
    by simp
qed

lemma cb_lead_next:
  assumes "cb_ring (m, cb)"
  shows "cb_lead (cb\<lparr>cb_writes := w, cb_overflows := ov,
      cb_end_valid := cb_next (cb_size cb) (cb_end_valid cb)\<rparr>) = Suc (cb_lead cb) mod unat (cb_size cb)"
proof -
  let ?s = "unat (cb_start_valid cb)" and ?n = "unat (cb_size cb)" and ?e = "unat (cb_end_valid cb)"
  have lt: "?s < ?n" "?e < ?n" using assms by (simp_all add: cb_ring_def)
  have "unat (cb_next (cb_size cb) (cb_end_valid cb)) = Suc ?e mod ?n"
    using lt unfolding cb_next_def by (subst unat_index_step) auto
  moreover have "(Suc ?e mod ?n + ?n - ?s) mod ?n = Suc (?e + ?n - ?s) mod ?n"
  proof (cases "Suc ?e = ?n")
    case True
    then have "Suc (?e + ?n - ?s) = ?n + (?n - ?s)" using lt by simp
    then show ?thesis using True by simp
  next
    case False
    then have "Suc ?e mod ?n + ?n - ?s = Suc (?e + ?n - ?s)" using lt by simp
    then show ?thesis by simp
  qed
  ultimately show ?thesis by (simp add: cb_lead_def mod_Suc_eq)
qed

text \<open>A write to a full buffer replaces the element the write index is at.\<close>

lemma cb_contents_overflow:
  assumes "cb_ring (m, cb)" "cbuff_is_full cb"
  shows "cb_contents (cbuff_write el (m, cb)) = (cb_contents (m, cb))[cb_lead cb := el]"
proof -
  let ?s = "unat (cb_start_valid cb)" and ?n = "unat (cb_size cb)" and ?w = "cbuff_write el (m, cb)"
  have r: "unat (cb_readable cb) = ?n" using assms(2) by (simp add: not_full_iff)
  have l: "length (cb_contents ?w) = ?n"
    using r by (simp add: cbuff_write_full [OF assms(2)] length_cb_contents) (simp add: cb_readable_def algebra_simps)
  note lead = cb_lead_end [OF assms(1)]
  have idx: "(of_nat ((?s + i) mod ?n) :: u16) = cb_end_valid cb \<longleftrightarrow> i = cb_lead cb" if "i < ?n" for i
    using that lead ring_idx_inj [of i ?n "cb_lead cb" ?s]
    by (subst lead(2), subst of_nat_index_inj [of _ "cb_size cb"]) auto
  show ?thesis
  proof (rule nth_equalityI)
    fix i assume "i < length (cb_contents ?w)"
    then have i: "i < ?n" by (simp add: l)
    have r': "unat (cb_writes cb + 1 - cb_reads cb - (cb_overflows cb + 1)) = ?n"
      using r by (simp add: cb_readable_def algebra_simps)
    show "cb_contents ?w ! i = (cb_contents (m, cb))[cb_lead cb := el] ! i"
      using i idx [OF i] r r' lead(1)
      by (simp add: cbuff_write_full [OF assms(2)] cb_contents_def cb_cell_inj nth_list_update)
  qed (simp add: l length_cb_contents r)
qed

section \<open>Properties\<close>

text \<open>
  C14: the buffer is a bounded first-in first-out queue, and its overflow count tells when it
  has stopped to be one. Take a well-formed buffer (\<open>cb_invar\<close>: as \<open>cbuff_init\<close> makes it for
  a size that is not 0 when the heap has room, \<open>cbuff_init_empty\<close>, and as every run without overflow leaves it) and any sequence of writes and reads. If the queue never
  holds more than \<open>size\<close> elements, the reads deliver exactly what a list queue with the same
  contents would, the buffer is well-formed again and its overflow count is unchanged. If at
  some point it would hold more, the overflow count has changed at the end (for fewer than 2^32
  operations); nothing is said of what the reads then deliver.
\<close>

theorem cbuff_fifo:
  assumes "cb_invar (m, cb)" "queue_run cbuff_write cb_get (m, cb) ops = (out, (m', cb'))"
  shows "if spec_fits (unat (cb_size cb)) (cb_contents (m, cb)) ops
    then out = spec_run (cb_contents (m, cb)) ops \<and> cb_invar (m', cb') \<and>
      cbuff_is_overflowed cb' = cbuff_is_overflowed cb
    else length ops < 2 ^ 32 \<longrightarrow> cbuff_is_overflowed cb' \<noteq> cbuff_is_overflowed cb"
  using cbq.run_spec [OF assms(1), of ops] fits_no_overflow [OF assms(1), of ops]
    overflow_detected [OF assms(1), of ops] assms(2)
  by (simp add: cb_capacity_def cbuff_is_overflowed_def)

definition cb_example :: circular_buffer where
  "cb_example = \<lparr>cb_buffer = 0x20000100, cb_writes = 0, cb_reads = 0, cb_overflows = 0,
     cb_start_valid = 0, cb_end_valid = 0, cb_size = 2\<rparr>"

lemma cb_example_invar: "cb_invar ((\<lambda>_. 0), cb_example)"
  by (simp add: cb_invar_def cb_example_def cb_readable_def)

lemma cb_example_size: "unat (cb_size cb_example) = 2"
  by (simp add: cb_example_def)

lemma cb_example_overflows: "cbuff_is_overflowed cb_example = 0"
  by (simp add: cb_example_def cbuff_is_overflowed_def)

lemma cb_example_contents: "cb_contents ((\<lambda>_. 0), cb_example) = []"
  by (simp add: cb_contents_def cb_example_def cb_readable_def)

theorem cbuff_fifo_witness:
  "fst (queue_run cbuff_write cb_get ((\<lambda>_. 0), cb_example) [Put 7, Put 8, Get, Put 9, Get, Get, Get])
      = [Some 7, Some 8, Some 9, None] \<and>
   cbuff_is_overflowed (snd (snd (queue_run cbuff_write cb_get ((\<lambda>_. 0), cb_example) [Put 7, Put 8, Put 9]))) \<noteq> 0"
proof -
  let ?run = "queue_run cbuff_write cb_get ((\<lambda>_. 0), cb_example)"
  have run: "?run ops = (fst (?run ops), (fst (snd (?run ops)), snd (snd (?run ops))))" for ops by simp
  show ?thesis
    using cbuff_fifo [OF cb_example_invar run, of "[Put 7, Put 8, Get, Put 9, Get, Get, Get]"]
      cbuff_fifo [OF cb_example_invar run, of "[Put 7, Put 8, Put 9]"]
    unfolding cb_example_contents cb_example_size by (simp add: cb_example_overflows)
qed

text \<open>
  Initialisation. When the heap has room, \<open>cbuff_init\<close> gives an empty, well-formed buffer of the
  size asked for, on four bytes of fresh heap for each element.
\<close>

theorem cbuff_init_empty:
  assumes "heap_ok h" "0 < sz" "unat (heap_top h) + 4 * unat sz \<le> unat (heap_end h)"
  shows "case cbuff_init sz h of (cb, h') \<Rightarrow>
    cb_invar (m, cb) \<and> cb_contents (m, cb) = [] \<and> cb_size cb = sz \<and> heap_ok h' \<and>
    cb_buffer cb = heap_top h \<and> unat (heap_top h') = unat (heap_top h) + 4 * unat sz"
proof -
  have "unat sz < 2 ^ 16" using unsigned_less [of sz] by simp
  then have req: "request_ok (ucast sz * 4)"
    by (simp add: request_ok_def unat_times4')
  have "0 < unat sz" using assms(2) by (simp add: word_less_nat_alt)
  then show ?thesis
    using assms(3) heap_ok_sbrk [OF assms(1) req] unat_top_add [OF assms(1) req]
    by (simp add: cbuff_init_def sys_sbrk_cases [OF assms(1) req] unat_times4'
        cb_invar_def cb_contents_def cb_readable_def)
qed

definition demo_heap :: heap where
  "demo_heap = \<lparr>heap_top = 0x20001000, heap_end = 0x20002000, sbrk_c = 0, errno = EPERM\<rparr>"

theorem cbuff_init_empty_witness:
  "case cbuff_init 16 demo_heap of (cb, h') \<Rightarrow>
     cb_invar (\<lambda>_. 0, cb) \<and> cb_contents (\<lambda>_. 0, cb) = [] \<and> cb_size cb = 16 \<and> heap_ok h' \<and>
     cb_buffer cb = 0x20001000 \<and> unat (heap_top h') = 0x20001040"
proof -
  have "heap_ok demo_heap" by (simp add: heap_ok_def demo_heap_def)
  from cbuff_init_empty [OF this, of 16 "\<lambda>_. 0"] show ?thesis
    by (simp add: demo_heap_def split: prod.splits)
qed

text \<open>
  C39: what overflow does. In every state that satisfies \<open>cb_ring\<close>, which holds after \<open>cbuff_init\<close> for
  a size that is not 0 and with room on the heap (\<open>cbuff_init_empty\<close>), and which all writes and reads keep (\<open>cb_invar_ring\<close>, \<open>cb_ring_run\<close>), a write to a full buffer raises the
  overflow count by one, leaves the buffer full, keeps \<open>cb_ring\<close>, and replaces the element at the place
  \<open>cb_lead\<close> of the write index, which moves on by one around the ring; the element the next read returns
  is the first one of these contents. The oldest element is not dropped from the front. In particular
  at the first overflow of a well-formed buffer, where \<open>cb_lead\<close> is 0, the next read returns the
  element just written, before all older ones.
\<close>

theorem cbuff_overflow_overwrites:
  assumes "cb_ring (m, cb)" "cbuff_is_full cb"
  shows "case cbuff_write el (m, cb) of (m', cb') \<Rightarrow>
    cbuff_is_full cb' \<and> cbuff_is_overflowed cb' = cbuff_is_overflowed cb + 1 \<and> cb_ring (m', cb') \<and>
    cb_contents (m', cb') = (cb_contents (m, cb))[cb_lead cb := el] \<and>
    cb_lead cb' = Suc (cb_lead cb) mod unat (cb_size cb) \<and>
    fst (cb_get (m', cb')) = Some (hd ((cb_contents (m, cb))[cb_lead cb := el])) \<and>
    (cb_invar (m, cb) \<longrightarrow> cb_value (fst (cbuff_read m' cb')) = el)"
proof -
  obtain m' cb' where w: "cbuff_write el (m, cb) = (m', cb')" by fastforce
  have c: "cb_contents (m', cb') = (cb_contents (m, cb))[cb_lead cb := el]"
    using cb_contents_overflow [OF assms, of el] w by simp
  have ring: "cb_ring (m', cb')" using cb_ring_write [OF assms(1), of el] w by simp
  have ne: "cb_contents (m, cb) \<noteq> []"
    using assms cb_lead_end(1) [OF assms(1)] length_cb_contents [of m cb] by (auto simp: not_full_iff)
  have get: "fst (cb_get (m', cb')) = Some (hd ((cb_contents (m, cb))[cb_lead cb := el]))"
    using cb_get_spec [OF ring] c ne by (auto split: list.splits)
  have "cb_value (fst (cbuff_read m' cb')) = el" if "cb_invar (m, cb)"
    using get ne cb_lead_0 [OF that assms(2)]
    by (cases "cb_contents (m, cb)") (auto simp: cb_get_def split: prod.splits if_splits)
  moreover have "cbuff_is_full cb'" "cbuff_is_overflowed cb' = cbuff_is_overflowed cb + 1"
    "cb_lead cb' = Suc (cb_lead cb) mod unat (cb_size cb)"
    using w assms cb_lead_next [OF assms(1)]
    by (auto simp: cbuff_write_full cbuff_is_overflowed_def cbuff_is_full_def)
      (simp add: cb_readable_def algebra_simps)
  ultimately show ?thesis using c ring get by (simp add: w)
qed

text \<open>The buffer with its two cells filled.\<close>

definition cb_full_example :: "cb_memory \<times> circular_buffer" where
  "cb_full_example = cbuff_write 8 (cbuff_write 7 ((\<lambda>_. 0), cb_example))"

theorem cbuff_overflow_overwrites_witness:
  "case cbuff_write 9 cb_full_example of (m', cb') \<Rightarrow>
     cbuff_is_overflowed cb' = 1 \<and> cb_contents (m', cb') = [9, 8] \<and> cb_value (fst (cbuff_read m' cb')) = 9"
proof -
  let ?s0 = "((\<lambda>_. 0) :: cb_memory, cb_example)"
  have c: "cb_capacity ?s0 = 2" by (simp add: cb_capacity_def cb_example_def)
  have "cb_invar (cbuff_write 7 ?s0)" "cb_contents (cbuff_write 7 ?s0) = [7]"
    "cb_capacity (cbuff_write 7 ?s0) = 2"
    using cbq.put_invar [OF cb_example_invar] cbq.put_contents [OF cb_example_invar] cbq.put_capacity [of 7 ?s0] c
    by (simp_all add: cb_example_contents)
  then have w: "cb_invar cb_full_example" "cb_contents cb_full_example = [7, 8]"
    unfolding cb_full_example_def by (simp_all add: cbq.put_invar cbq.put_contents)
  obtain m cb where e: "cb_full_example = (m, cb)" by (cases cb_full_example)
  have "cbuff_is_full (snd cb_full_example)" "cbuff_is_overflowed (snd cb_full_example) = 0"
    by code_simp+
  with cbuff_overflow_overwrites [of m cb 9] cb_lead_0 [of m cb] cb_invar_ring [of "(m, cb)"] w show ?thesis
    by (simp add: e split: prod.splits)
qed

text \<open>After an overflow an element can be read twice.\<close>

lemma cbuff_overflow_duplicates:
  "fst (queue_run cbuff_write cb_get ((\<lambda>_. 0), cb_example)
     [Put 1, Put 2, Put 3, Get, Put 4, Get, Get, Get])
   = [Some 3, Some 4, Some 3, None]"
  by (simp add: cbuff_write_def cb_get_def cbuff_read_def cb_example_def cb_readable_def cb_cell_def Let_def)

end
