(* ===== verification/Task_Scheduler.thy ===== *)
theory Task_Scheduler
  imports Pascal_Prelude
begin

text \<open>
  The round-robin scheduler of src/src/scheduler.c and src/src/include/scheduler.h: its
  state, the functions the exception handlers call, and task registration. The global
  and static variables of the file, and \<open>signal_flag\<close>, \<open>signals_flags\<close> of signals.h,
  are the fields of \<open>kern\<close>, beside the two SysTick registers it writes, the interrupt
  mask and the RAM that receives the initial stack frames. Task numbers are natural
  numbers: \<open>kern_wf\<close> (theory \<open>Scheduler_Invariant\<close>) keeps them below \<open>MAX_TASKS\<close>.
\<close>

section \<open>Data\<close>

definition MAX_TASKS :: nat where
  "MAX_TASKS = 8"

definition TASK_CREATED :: u32 where
  [simp]: "TASK_CREATED = 0x1"

definition TASK_READY :: u32 where
  [simp]: "TASK_READY = 0x2"

definition TASK_RUNNING :: u32 where
  [simp]: "TASK_RUNNING = 0x4"

definition TASK_BLOCKED :: u32 where
  [simp]: "TASK_BLOCKED = 0x8"

definition TASK_MUTEX_BLOCKED :: u32 where
  [simp]: "TASK_MUTEX_BLOCKED = 0x10"

record task_struct =
  sp :: u32
  registers :: "u32 list"
  state :: u32
  sleep_until :: cint
  task_signal_flag :: u32

record kern =
  current_tid :: nat
  registered_tasks :: nat
  tasks :: "task_struct list"
  jiffy :: cint
  mutex :: cint
  signal_flag :: cint
  signals_flags :: u32
  SysTick_VAL :: u32
  SysTick_LOAD :: u32
  irq_enabled :: bool
  ram :: "u32 \<Rightarrow> u32"

text \<open>\<open>tasks[i].state = st\<close>, and the state of a task.\<close>

definition set_state :: "nat \<Rightarrow> u32 \<Rightarrow> kern \<Rightarrow> kern" where
  "set_state i st k = k\<lparr>tasks := (tasks k)[i := (tasks k ! i)\<lparr>state := st\<rparr>]\<rparr>"

definition state_of :: "kern \<Rightarrow> nat \<Rightarrow> u32" where
  "state_of k i = state (tasks k ! i)"

definition IS_READY :: "kern \<Rightarrow> nat \<Rightarrow> bool" where
  "IS_READY k i \<longleftrightarrow> state_of k i AND TASK_READY \<noteq> 0"

section \<open>Waking tasks\<close>

text \<open>The body of the loop of \<open>k_task_update_state\<close> for one task, and the loop.\<close>

definition k_task_update_one :: "nat \<Rightarrow> kern \<Rightarrow> kern" where
  "k_task_update_one i k =
     (let k1 = (if state_of k i AND TASK_BLOCKED \<noteq> 0 \<and> cless (sleep_until (tasks k ! i)) (jiffy k)
                then set_state i TASK_READY k else k)
      in if state_of k1 i AND TASK_MUTEX_BLOCKED \<noteq> 0 \<and> mutex k1 = 0
         then (set_state i TASK_READY k1)\<lparr>mutex := 1\<rparr> else k1)"

definition k_task_update_state :: "kern \<Rightarrow> kern" where
  "k_task_update_state k = fold k_task_update_one [1 ..< Suc (registered_tasks k)] k"

section \<open>Choosing the next task\<close>

text \<open>
  The two loops of \<open>k_task_peek_next\<close>. The second one counts around the ring
  \<open>1 .. registered_tasks\<close> until it meets \<open>ctid\<close>, so it returns only if \<open>ctid\<close> lies on
  the ring or a task is ready: its result is an option.
\<close>

function idle_scan :: "kern \<Rightarrow> nat \<Rightarrow> nat" where
  "idle_scan k p =
     (if Suc p > registered_tasks k then 0
      else if IS_READY k (Suc p) then Suc p
      else idle_scan k (Suc p))"
  by pat_completeness auto
termination
  by (relation "measure (\<lambda>(k, p). registered_tasks k - p)") auto

declare idle_scan.simps [simp del]

partial_function (option) ring_scan :: "kern \<Rightarrow> nat \<Rightarrow> nat \<Rightarrow> nat option" where
  "ring_scan k ctid p =
     (let q = (if Suc p > registered_tasks k then 1 else Suc p)
      in if q = ctid then Some 0
         else if IS_READY k q then Some q
         else ring_scan k ctid q)"

declare ring_scan.simps [code]

text \<open>\<open>SysTick->VAL = SysTick->LOAD\<close>, skipped by every \<open>return 0\<close>.\<close>

definition reload_systick :: "nat \<Rightarrow> kern \<Rightarrow> kern" where
  "reload_systick p k = (if p = 0 then k else k\<lparr>SysTick_VAL := SysTick_LOAD k\<rparr>)"

definition k_task_peek_next :: "nat \<Rightarrow> kern \<Rightarrow> (nat \<times> kern) option" where
  "k_task_peek_next ctid k =
     (if registered_tasks k = 0 then Some (0, k)
      else
        let k1 = k_task_update_state k
        in do {
          p \<leftarrow> (if ctid = 0 then Some (idle_scan k1 ctid) else ring_scan k1 ctid ctid);
          Some (p, reload_systick p k1)
        })"

text \<open>
  The two statements every switch ends with:
  \<open>current_tid = k_task_peek_next(current_tid); tasks[current_tid].state = TASK_RUNNING\<close>.
\<close>

definition k_dispatch :: "kern \<Rightarrow> kern option" where
  "k_dispatch k = do {
     (p, k1) \<leftarrow> k_task_peek_next (current_tid k) k;
     Some (set_state p TASK_RUNNING (k1\<lparr>current_tid := p\<rparr>))
   }"

section \<open>The handlers\<close>

text \<open>The handler of the SysTick exception.\<close>

definition scheduler :: "kern \<Rightarrow> kern option" where
  "scheduler k =
     (let k1 = (set_state (current_tid k) TASK_READY k)\<lparr>jiffy := jiffy k + 1\<rparr>;
          i = current_tid k1;
          k2 = (if signal_flag k1 \<noteq> 0
                then k1\<lparr>tasks := (tasks k1)[i := (tasks k1 ! i)
                             \<lparr>state := TASK_CREATED OR TASK_BLOCKED, sleep_until := 0,
                              task_signal_flag := signal_flag k1\<rparr>],
                        signal_flag := 0\<rparr>
                else k1)
      in k_dispatch k2)"

definition k_task_sleep :: "cint \<Rightarrow> kern \<Rightarrow> kern option" where
  "k_task_sleep stime k =
     (let i = current_tid k
      in k_dispatch (k\<lparr>tasks := (tasks k)[i := (tasks k ! i)
           \<lparr>state := TASK_BLOCKED, sleep_until := jiffy k + stime, task_signal_flag := 0\<rparr>]\<rparr>))"

definition k_task_yield :: "kern \<Rightarrow> kern option" where
  "k_task_yield k = k_dispatch (set_state (current_tid k) TASK_READY k)"

definition k_mutex_lock :: "kern \<Rightarrow> kern option" where
  "k_mutex_lock k =
     (if mutex k = 0 then Some (k\<lparr>mutex := 1\<rparr>)
      else k_dispatch (set_state (current_tid k) TASK_MUTEX_BLOCKED k))"

definition k_mutex_unlock :: "kern \<Rightarrow> kern" where
  "k_mutex_unlock k = k\<lparr>mutex := 0\<rparr>"

section \<open>Initialisation and registration\<close>

text \<open>
  \<open>SysTick_Config\<close> is a CMSIS function outside the repository: a parameter. Its result is
  dropped by the code.
\<close>

definition scheduler_init :: "(u32 \<Rightarrow> kern \<Rightarrow> kern) \<Rightarrow> u32 \<Rightarrow> kern \<Rightarrow> cint \<times> kern" where
  "scheduler_init SysTick_Config SystemCoreClock k =
     (let k1 = k\<lparr>registered_tasks := 0, current_tid := 0\<rparr>;
          k2 = set_state (current_tid k1) TASK_RUNNING k1;
          k3 = SysTick_Config (SystemCoreClock div 1000) k2
      in (0, k3\<lparr>irq_enabled := True\<rparr>))"

text \<open>A push of the inline assembly, and the words it pushes, first to last.\<close>

definition push :: "u32 \<Rightarrow> u32 \<times> (u32 \<Rightarrow> u32) \<Rightarrow> u32 \<times> (u32 \<Rightarrow> u32)" where
  "push v st = (case st of (p, m) \<Rightarrow> (p - 4, m(p - 4 := v)))"

definition initial_frame :: "bool \<Rightarrow> u32 \<Rightarrow> u32 list" where
  "initial_frame stack_debug task_func =
     (if stack_debug then [0xDEADBEEF] else [])
     @ [0x21000000, task_func, task_func, 0, 0, 0, 0, 0]"

text \<open>
  \<open>&THREAD_STACK_TOP - 512 * tid\<close> is pointer arithmetic on a \<open>void **\<close> (the symbol is
  declared \<open>extern const void* THREAD_STACK_TOP\<close>), so it steps by four bytes.
\<close>

definition task_stack :: "u32 \<Rightarrow> nat \<Rightarrow> u32" where
  "task_stack stack_top tid = stack_top - 4 * (512 * of_nat tid)"

definition k_task_register :: "bool \<Rightarrow> u32 \<Rightarrow> u32 \<Rightarrow> kern \<Rightarrow> cint \<times> kern" where
  "k_task_register stack_debug stack_top task_func k =
     (let tid = registered_tasks k + 1
      in if MAX_TASKS \<le> tid then (- 1, k)
         else
           let s = task_stack stack_top tid;
               (_, m) = fold push (initial_frame stack_debug task_func) (s, ram k)
           in (0, k\<lparr>ram := m,
                   tasks := (tasks k)[tid := (tasks k ! tid)
                     \<lparr>sp := s - (if stack_debug then 36 else 32), state := TASK_READY\<rparr>],
                   registered_tasks := registered_tasks k + 1\<rparr>))"

definition sys_getjiffy :: "kern \<Rightarrow> cint" where
  "sys_getjiffy k = jiffy k"

end
