(* ===== verification/Scheduler_Reference.thy ===== *)
theory Scheduler_Reference
  imports Task_Scheduler
begin

text \<open>
  The choice of the next task as a reference function, \<open>first_ready\<close> over the ring order
  \<open>candidates\<close>, the proof that the two scanning loops compute it (and return), the effect
  of \<open>k_task_update_state\<close> on every task, and lookup lemmas for the kernel state.
\<close>

section \<open>The reference: the first ready task in ring order\<close>

text \<open>
  The tasks \<open>k_task_peek_next\<close> considers, in its order: from the idle task all tasks
  from 1 on; from task \<open>c\<close> the tasks after it, then those before it.
\<close>

definition candidates :: "nat \<Rightarrow> nat \<Rightarrow> nat list" where
  "candidates n c = (if c = 0 then [1 ..< Suc n] else [Suc c ..< Suc n] @ [1 ..< c])"

definition first_ready :: "(nat \<Rightarrow> bool) \<Rightarrow> nat list \<Rightarrow> nat" where
  "first_ready R is = (case find R is of None \<Rightarrow> 0 | Some i \<Rightarrow> i)"

lemma first_ready_simps [simp]:
  "first_ready R [] = 0"
  "first_ready R (i # is) = (if R i then i else first_ready R is)"
  by (simp_all add: first_ready_def)

lemma idle_scan_eq: "idle_scan k p = first_ready (IS_READY k) [Suc p ..< Suc (registered_tasks k)]"
proof (induction k p rule: idle_scan.induct)
  case (1 k p)
  then show ?case
    by (subst idle_scan.simps) (auto simp: upt_conv_Cons simp del: upt_Suc)
qed

lemma ring_scan_below:
  assumes "p < c" "c \<le> registered_tasks k"
  shows "ring_scan k c p = Some (first_ready (IS_READY k) [Suc p ..< c])"
  using assms
proof (induction "c - p" arbitrary: p)
  case 0
  then show ?case by simp
next
  case (Suc d)
  show ?case
  proof (cases "Suc p = c")
    case True
    with Suc.prems show ?thesis by (subst ring_scan.simps) simp
  next
    case False
    with Suc.prems have "[Suc p ..< c] = Suc p # [Suc (Suc p) ..< c]"
      by (simp add: upt_conv_Cons)
    with False Suc show ?thesis by (subst ring_scan.simps) (simp add: Let_def)
  qed
qed

lemma ring_scan_above:
  assumes "0 < c" "c \<le> p" "p \<le> registered_tasks k"
  shows "ring_scan k c p =
    Some (first_ready (IS_READY k) ([Suc p ..< Suc (registered_tasks k)] @ [1 ..< c]))"
  using assms
proof (induction "registered_tasks k - p" arbitrary: p)
  case 0
  then have p: "p = registered_tasks k" by simp
  show ?case
  proof (cases "c = 1")
    case True
    with p show ?thesis by (subst ring_scan.simps) simp
  next
    case False
    with 0 have "[1 ..< c] = 1 # [Suc 1 ..< c]" by (simp add: upt_conv_Cons)
    with False p 0 show ?thesis
      by (subst ring_scan.simps) (simp add: ring_scan_below Let_def)
  qed
next
  case (Suc d)
  then have "[Suc p ..< Suc (registered_tasks k)] =
      Suc p # [Suc (Suc p) ..< Suc (registered_tasks k)]"
    by (subst upt_conv_Cons) auto
  with Suc show ?case
    by (subst ring_scan.simps) (auto simp: Let_def simp del: upt_Suc)
qed

lemma peek_loop_eq:
  assumes "c \<le> registered_tasks k"
  shows "(if c = 0 then Some (idle_scan k c) else ring_scan k c c)
    = Some (first_ready (IS_READY k) (candidates (registered_tasks k) c))"
  using assms by (simp add: candidates_def idle_scan_eq ring_scan_above del: upt_Suc)

lemma set_candidates: "set (candidates n c) = {1 .. n} - {c}" if "c \<le> n"
  using that by (auto simp: candidates_def)

lemma first_ready_cases:
  obtains (none) "first_ready R is = 0" "\<forall>i \<in> set is. \<not> R i"
  | (ready) "first_ready R is \<in> set is" "R (first_ready R is)"
  unfolding first_ready_def
  by (cases "find R is") (auto simp: find_None_iff find_Some_iff)

section \<open>Field and state lookups\<close>

lemma set_state_fields [frame_simps, simp]:
  "current_tid (set_state i st k) = current_tid k"
  "registered_tasks (set_state i st k) = registered_tasks k"
  "length (tasks (set_state i st k)) = length (tasks k)"
  "jiffy (set_state i st k) = jiffy k"
  "mutex (set_state i st k) = mutex k"
  "signal_flag (set_state i st k) = signal_flag k"
  "signals_flags (set_state i st k) = signals_flags k"
  "SysTick_VAL (set_state i st k) = SysTick_VAL k"
  "SysTick_LOAD (set_state i st k) = SysTick_LOAD k"
  "ram (set_state i st k) = ram k"
  by (simp_all add: set_state_def)

lemma state_of_set_state:
  "i < length (tasks k) \<Longrightarrow> state_of (set_state i st k) j = (if i = j then st else state_of k j)"
  by (simp add: state_of_def set_state_def nth_list_update_if)

lemma sleep_until_set_state:
  "i < length (tasks k) \<Longrightarrow> sleep_until (tasks (set_state i st k) ! j) = sleep_until (tasks k ! j)"
  by (simp add: set_state_def nth_list_update_if)

lemma state_of_frame [simp]:
  "state_of (k\<lparr>current_tid := c\<rparr>) = state_of k"
  "state_of (k\<lparr>jiffy := j\<rparr>) = state_of k"
  "state_of (k\<lparr>mutex := m\<rparr>) = state_of k"
  "state_of (k\<lparr>signal_flag := s\<rparr>) = state_of k"
  "state_of (k\<lparr>SysTick_VAL := v\<rparr>) = state_of k"
  "state_of (k\<lparr>registered_tasks := n\<rparr>) = state_of k"
  by (auto simp: state_of_def)

section \<open>What the wake-up loop does\<close>

text \<open>The states of a task that is not running.\<close>

definition waiting_states :: "u32 set" where
  "waiting_states =
     {TASK_READY, TASK_BLOCKED, TASK_CREATED OR TASK_BLOCKED, TASK_MUTEX_BLOCKED}"

lemma waiting_states_iff: "x \<in> waiting_states \<longleftrightarrow> x = 2 \<or> x = 8 \<or> x = 9 \<or> x = 16"
  by (auto simp: waiting_states_def)

text \<open>A sleeping task whose deadline has passed, and the first task waiting for the mutex.\<close>

definition wakes :: "kern \<Rightarrow> nat \<Rightarrow> bool" where
  "wakes k i \<longleftrightarrow> state_of k i \<in> {TASK_BLOCKED, TASK_CREATED OR TASK_BLOCKED}
     \<and> cless (sleep_until (tasks k ! i)) (jiffy k)"

definition mutex_waiter :: "kern \<Rightarrow> nat \<Rightarrow> nat" where
  "mutex_waiter k n = first_ready (\<lambda>i. state_of k i = TASK_MUTEX_BLOCKED) [1 ..< Suc n]"

lemma first_ready_snoc:
  "0 \<notin> set is \<Longrightarrow> first_ready R (is @ [i]) =
     (if first_ready R is \<noteq> 0 then first_ready R is else if R i then i else 0)"
  by (induction "is") auto

lemma mutex_waiter_0 [simp]: "mutex_waiter k 0 = 0"
  by (simp add: mutex_waiter_def)

lemma mutex_waiter_Suc:
  "mutex_waiter k (Suc n) =
     (if mutex_waiter k n \<noteq> 0 then mutex_waiter k n
      else if state_of k (Suc n) = TASK_MUTEX_BLOCKED then Suc n else 0)"
  by (simp add: mutex_waiter_def first_ready_snoc)

lemma mutex_waiter_le: "mutex_waiter k n \<le> n"
  by (induction n) (auto simp: mutex_waiter_Suc)

lemma mutex_waiter_blocked:
  "mutex_waiter k n \<noteq> 0 \<Longrightarrow> state_of k (mutex_waiter k n) = TASK_MUTEX_BLOCKED"
  by (induction n) (auto simp: mutex_waiter_Suc split: if_splits)

lemma mutex_waiter_eq_0_iff:
  "mutex_waiter k n = 0 \<longleftrightarrow> (\<forall>i \<in> {1 .. n}. state_of k i \<noteq> TASK_MUTEX_BLOCKED)"
  by (induction n) (auto simp: mutex_waiter_Suc atLeastAtMostSuc_conv)

lemma mutex_waiter_eqI:
  assumes "1 \<le> w" "w \<le> n" "state_of k w = TASK_MUTEX_BLOCKED"
    and "\<forall>i. 1 \<le> i \<and> i < w \<longrightarrow> state_of k i \<noteq> TASK_MUTEX_BLOCKED"
  shows "mutex_waiter k n = w"
  using assms(2)
proof (induction n)
  case 0
  then show ?case using assms(1) by simp
next
  case (Suc n)
  then show ?case
    using assms mutex_waiter_eq_0_iff [of k n] by (auto simp: mutex_waiter_Suc le_Suc_eq)
qed

text \<open>The tasks and the mutex after the loop has passed tasks \<open>1 .. n\<close>.\<close>

definition woken :: "kern \<Rightarrow> nat \<Rightarrow> nat \<Rightarrow> bool" where
  "woken k n i \<longleftrightarrow> 1 \<le> i \<and> i \<le> n \<and> (wakes k i \<or> mutex k = 0 \<and> i = mutex_waiter k n)"

lemma update_one_frame [frame_simps, simp]:
  "current_tid (k_task_update_one i k) = current_tid k"
  "registered_tasks (k_task_update_one i k) = registered_tasks k"
  "length (tasks (k_task_update_one i k)) = length (tasks k)"
  "jiffy (k_task_update_one i k) = jiffy k"
  "signal_flag (k_task_update_one i k) = signal_flag k"
  "signals_flags (k_task_update_one i k) = signals_flags k"
  "SysTick_LOAD (k_task_update_one i k) = SysTick_LOAD k"
  "ram (k_task_update_one i k) = ram k"
  by (simp_all add: k_task_update_one_def Let_def)

lemma update_one_state:
  assumes "i < length (tasks k)" "state_of k i \<in> waiting_states"
  shows "state_of (k_task_update_one i k) j =
      (if j = i \<and> (wakes k i \<or> state_of k i = TASK_MUTEX_BLOCKED \<and> mutex k = 0)
       then TASK_READY else state_of k j)"
    and "mutex (k_task_update_one i k) =
      (if state_of k i = TASK_MUTEX_BLOCKED \<and> mutex k = 0 then 1 else mutex k)"
    and "sleep_until (tasks (k_task_update_one i k) ! j) = sleep_until (tasks k ! j)"
  using assms
  by (auto simp: k_task_update_one_def wakes_def Let_def state_of_set_state sleep_until_set_state
      waiting_states_iff)

lemma update_loop:
  assumes "n < length (tasks k)" "\<forall>i \<in> {1 .. n}. state_of k i \<in> waiting_states"
  defines "k' \<equiv> fold k_task_update_one [1 ..< Suc n] k"
  shows "(\<forall>j. state_of k' j = (if woken k n j then TASK_READY else state_of k j)) \<and>
    mutex k' = (if mutex k = 0 \<and> mutex_waiter k n \<noteq> 0 then 1 else mutex k) \<and>
    (\<forall>j. sleep_until (tasks k' ! j) = sleep_until (tasks k ! j)) \<and>
    length (tasks k') = length (tasks k) \<and> jiffy k' = jiffy k"
  using assms(1,2) unfolding k'_def
proof (induction n)
  case 0
  then show ?case by (auto simp: woken_def)
next
  case (Suc n)
  let ?k1 = "fold k_task_update_one [1 ..< Suc n] k"
  have IH: "\<forall>j. state_of ?k1 j = (if woken k n j then TASK_READY else state_of k j)"
    "mutex ?k1 = (if mutex k = 0 \<and> mutex_waiter k n \<noteq> 0 then 1 else mutex k)"
    "\<forall>j. sleep_until (tasks ?k1 ! j) = sleep_until (tasks k ! j)"
    "length (tasks ?k1) = length (tasks k)" "jiffy ?k1 = jiffy k"
    using Suc by auto
  have st: "state_of ?k1 (Suc n) = state_of k (Suc n)"
    using IH(1) by (simp add: woken_def)
  have w: "wakes ?k1 (Suc n) = wakes k (Suc n)"
    using IH st by (simp add: wakes_def)
  have "fold k_task_update_one [1 ..< Suc (Suc n)] k = k_task_update_one (Suc n) ?k1"
    by simp
  moreover have "Suc n < length (tasks ?k1)" "state_of ?k1 (Suc n) \<in> waiting_states"
    using Suc.prems IH(4) st by auto
  ultimately show ?case
    using IH st w mutex_waiter_le [of k n]
    by (auto simp: update_one_state mutex_waiter_Suc woken_def le_Suc_eq
        simp del: upt_Suc)
qed
end
