(* ===== verification/Scheduler_Invariant.thy ===== *)
theory Scheduler_Invariant
  imports Scheduler_Reference
begin

text \<open>
  The well-formedness invariant of the kernel state, the functional description of a
  dispatch (\<open>dispatch_spec\<close>), and the proof that every handler returns and keeps the
  invariant.
\<close>

section \<open>Well-formed kernel states\<close>

text \<open>
  Between handlers: the task table has its length, the counts are in range, the current
  task is \<open>TASK_RUNNING\<close> and it is the only one. A dispatch starts from \<open>kern_pre\<close>, the
  same state after the current task has been given its new, non-running state.
\<close>

definition kern_bounds :: "kern \<Rightarrow> bool" where
  "kern_bounds k \<longleftrightarrow> length (tasks k) = MAX_TASKS \<and> registered_tasks k < MAX_TASKS
     \<and> current_tid k \<le> registered_tasks k"

definition kern_pre :: "kern \<Rightarrow> bool" where
  "kern_pre k \<longleftrightarrow> kern_bounds k \<and> (\<forall>i \<le> registered_tasks k. state_of k i \<in> waiting_states)"

definition kern_wf :: "kern \<Rightarrow> bool" where
  "kern_wf k \<longleftrightarrow> kern_bounds k
     \<and> (\<forall>i \<le> registered_tasks k.
          if i = current_tid k then state_of k i = TASK_RUNNING else state_of k i \<in> waiting_states)"

lemma kern_bounds_index: "kern_bounds k \<Longrightarrow> i \<le> registered_tasks k \<Longrightarrow> i < length (tasks k)"
  by (simp add: kern_bounds_def)

text \<open>A task is dispatchable when it is, or is being made, ready.\<close>

definition ready_after_wake :: "kern \<Rightarrow> nat \<Rightarrow> bool" where
  "ready_after_wake k i \<longleftrightarrow> state_of k i = TASK_READY \<or> woken k (registered_tasks k) i"

lemma update_state_spec:
  assumes "kern_pre k"
  defines "k' \<equiv> k_task_update_state k"
  shows "state_of k' j = (if woken k (registered_tasks k) j then TASK_READY else state_of k j)"
    and "mutex k' = (if mutex k = 0 \<and> mutex_waiter k (registered_tasks k) \<noteq> 0 then 1 else mutex k)"
    and "sleep_until (tasks k' ! j) = sleep_until (tasks k ! j)"
    and "length (tasks k') = length (tasks k)" "jiffy k' = jiffy k"
  using update_loop [of "registered_tasks k" k] assms
  by (auto simp: k_task_update_state_def kern_pre_def kern_bounds_def MAX_TASKS_def simp del: upt_Suc)

lemma fold_update_frame:
  "current_tid (fold k_task_update_one is k) = current_tid k"
  "registered_tasks (fold k_task_update_one is k) = registered_tasks k"
  "signal_flag (fold k_task_update_one is k) = signal_flag k"
  "signals_flags (fold k_task_update_one is k) = signals_flags k"
  "SysTick_LOAD (fold k_task_update_one is k) = SysTick_LOAD k"
  "ram (fold k_task_update_one is k) = ram k"
  by (induction "is" arbitrary: k) simp_all

lemma update_state_frame [frame_simps, simp]:
  "current_tid (k_task_update_state k) = current_tid k"
  "registered_tasks (k_task_update_state k) = registered_tasks k"
  "signal_flag (k_task_update_state k) = signal_flag k"
  "signals_flags (k_task_update_state k) = signals_flags k"
  "SysTick_LOAD (k_task_update_state k) = SysTick_LOAD k"
  "ram (k_task_update_state k) = ram k"
  by (simp_all add: k_task_update_state_def fold_update_frame)

lemma is_ready_waiting:
  "state_of k i \<in> waiting_states \<Longrightarrow> IS_READY k i \<longleftrightarrow> state_of k i = TASK_READY"
  by (auto simp: IS_READY_def waiting_states_iff)

text \<open>The task a dispatch chooses.\<close>

definition next_task :: "kern \<Rightarrow> nat" where
  "next_task k = first_ready (ready_after_wake k) (candidates (registered_tasks k) (current_tid k))"

lemma first_ready_cong:
  "(\<And>i. i \<in> set is \<Longrightarrow> R i = S i) \<Longrightarrow> first_ready R is = first_ready S is"
  by (induction "is") auto

lemma is_ready_after_update:
  assumes "kern_pre k" "i \<le> registered_tasks k"
  shows "IS_READY (k_task_update_state k) i \<longleftrightarrow> ready_after_wake k i"
proof -
  have "state_of (k_task_update_state k) i \<in> waiting_states"
    using assms by (simp add: update_state_spec kern_pre_def waiting_states_def)
  then show ?thesis
    using assms by (simp add: is_ready_waiting update_state_spec ready_after_wake_def)
qed

lemma next_task_le: "kern_pre k \<Longrightarrow> next_task k \<le> registered_tasks k"
  unfolding next_task_def
  by (cases rule: first_ready_cases
      [of "ready_after_wake k" "candidates (registered_tasks k) (current_tid k)"])
    (auto simp: set_candidates kern_pre_def kern_bounds_def)

lemma next_task_cases:
  assumes "kern_pre k"
  obtains "next_task k = 0"
  | "next_task k \<noteq> 0" "next_task k \<noteq> current_tid k" "ready_after_wake k (next_task k)"
proof (cases "next_task k = 0")
  case False
  moreover have "current_tid k \<le> registered_tasks k"
    using assms by (simp add: kern_pre_def kern_bounds_def)
  ultimately show ?thesis
    using that(2) set_candidates [of "current_tid k" "registered_tasks k"] unfolding next_task_def
    by (metis DiffE first_ready_cases insertI1)
qed (rule that(1))

lemma peek_next_eq:
  assumes "kern_pre k" "registered_tasks k \<noteq> 0"
  shows "k_task_peek_next (current_tid k) k =
    Some (next_task k, reload_systick (next_task k) (k_task_update_state k))"
proof -
  let ?k1 = "k_task_update_state k"
  have c: "current_tid k \<le> registered_tasks ?k1"
    using assms by (simp add: kern_pre_def kern_bounds_def)
  have "first_ready (IS_READY ?k1) (candidates (registered_tasks k) (current_tid k)) = next_task k"
    unfolding next_task_def
    using assms c by (intro first_ready_cong) (auto simp: set_candidates is_ready_after_update)
  then show ?thesis
    using assms peek_loop_eq [OF c] by (simp add: k_task_peek_next_def Let_def)
qed

lemma reload_systick_frame [frame_simps, simp]:
  "current_tid (reload_systick p k) = current_tid k"
  "registered_tasks (reload_systick p k) = registered_tasks k"
  "tasks (reload_systick p k) = tasks k"
  "jiffy (reload_systick p k) = jiffy k"
  "mutex (reload_systick p k) = mutex k"
  "signal_flag (reload_systick p k) = signal_flag k"
  "signals_flags (reload_systick p k) = signals_flags k"
  "SysTick_LOAD (reload_systick p k) = SysTick_LOAD k"
  "ram (reload_systick p k) = ram k"
  "state_of (reload_systick p k) = state_of k"
  by (auto simp: reload_systick_def)

lemma next_task_unregistered: "registered_tasks k = 0 \<Longrightarrow> current_tid k = 0 \<Longrightarrow> next_task k = 0"
  by (simp add: next_task_def candidates_def)

lemma woken_0 [simp]: "\<not> woken k 0 i"
  by (simp add: woken_def)

text \<open>Everything a dispatch does, under \<open>kern_pre\<close>.\<close>

lemma dispatch_spec:
  assumes "kern_pre k"
  obtains k' where "k_dispatch k = Some k'"
    and "current_tid k' = next_task k" "registered_tasks k' = registered_tasks k"
    and "\<And>j. state_of k' j =
      (if j = next_task k then TASK_RUNNING
       else if woken k (registered_tasks k) j then TASK_READY else state_of k j)"
    and "mutex k' = (if mutex k = 0 \<and> mutex_waiter k (registered_tasks k) \<noteq> 0 then 1 else mutex k)"
    and "\<And>j. sleep_until (tasks k' ! j) = sleep_until (tasks k ! j)"
    and "length (tasks k') = length (tasks k)" "jiffy k' = jiffy k"
    and "signal_flag k' = signal_flag k" "ram k' = ram k" "signals_flags k' = signals_flags k"
proof (cases "registered_tasks k = 0")
  case True
  then have c: "current_tid k = 0" using assms by (simp add: kern_pre_def kern_bounds_def)
  have len: "0 < length (tasks k)" using assms by (simp add: kern_pre_def kern_bounds_def MAX_TASKS_def)
  show ?thesis
    by (rule that [of "set_state 0 TASK_RUNNING (k\<lparr>current_tid := 0\<rparr>)"])
      (use True c len in \<open>auto simp: k_dispatch_def k_task_peek_next_def next_task_unregistered
        state_of_set_state sleep_until_set_state\<close>)
next
  case False
  let ?k1 = "reload_systick (next_task k) (k_task_update_state k)"
  have len: "next_task k < length (tasks ?k1)"
    using assms next_task_le [OF assms]
    by (simp add: update_state_spec kern_pre_def kern_bounds_def)
  show ?thesis
    by (rule that [of "set_state (next_task k) TASK_RUNNING (?k1\<lparr>current_tid := next_task k\<rparr>)"])
      (use False assms len in \<open>auto simp: k_dispatch_def peek_next_eq state_of_set_state
        sleep_until_set_state update_state_spec\<close>)
qed

lemma dispatch_wf [wf_intros]:
  assumes "kern_pre k"
  shows "\<exists>k'. k_dispatch k = Some k' \<and> kern_wf k'"
proof (rule dispatch_spec [OF assms], intro exI conjI)
  fix k'
  assume "current_tid k' = next_task k" "registered_tasks k' = registered_tasks k"
    "length (tasks k') = length (tasks k)"
    "\<And>j. state_of k' j = (if j = next_task k then TASK_RUNNING
       else if woken k (registered_tasks k) j then TASK_READY else state_of k j)"
  then show "kern_wf k'"
    using assms next_task_le [OF assms]
    by (auto simp: kern_wf_def kern_pre_def kern_bounds_def waiting_states_def)
qed

section \<open>The handlers set up a dispatch\<close>

definition tick_pre :: "kern \<Rightarrow> kern" where
  "tick_pre k =
     (let k1 = (set_state (current_tid k) TASK_READY k)\<lparr>jiffy := jiffy k + 1\<rparr>;
          i = current_tid k
      in if signal_flag k \<noteq> 0
         then k1\<lparr>tasks := (tasks k1)[i := (tasks k1 ! i)
                \<lparr>state := TASK_CREATED OR TASK_BLOCKED, sleep_until := 0,
                 task_signal_flag := signal_flag k\<rparr>],
               signal_flag := 0\<rparr>
         else k1)"

definition sleep_pre :: "cint \<Rightarrow> kern \<Rightarrow> kern" where
  "sleep_pre stime k =
     k\<lparr>tasks := (tasks k)[current_tid k := (tasks k ! current_tid k)
        \<lparr>state := TASK_BLOCKED, sleep_until := jiffy k + stime, task_signal_flag := 0\<rparr>]\<rparr>"

lemma scheduler_dispatch: "scheduler k = k_dispatch (tick_pre k)"
  by (simp add: scheduler_def tick_pre_def Let_def)

lemma sleep_dispatch: "k_task_sleep stime k = k_dispatch (sleep_pre stime k)"
  by (simp add: k_task_sleep_def sleep_pre_def Let_def)

lemma tick_pre_fields [simp]:
  "current_tid (tick_pre k) = current_tid k"
  "registered_tasks (tick_pre k) = registered_tasks k"
  "length (tasks (tick_pre k)) = length (tasks k)"
  "jiffy (tick_pre k) = jiffy k + 1"
  "mutex (tick_pre k) = mutex k"
  "ram (tick_pre k) = ram k"
  "signals_flags (tick_pre k) = signals_flags k"
  "signal_flag (tick_pre k) = 0"
  by (simp_all add: tick_pre_def Let_def)

lemma sleep_pre_fields [simp]:
  "current_tid (sleep_pre t k) = current_tid k"
  "registered_tasks (sleep_pre t k) = registered_tasks k"
  "length (tasks (sleep_pre t k)) = length (tasks k)"
  "jiffy (sleep_pre t k) = jiffy k"
  "mutex (sleep_pre t k) = mutex k"
  "ram (sleep_pre t k) = ram k"
  "signals_flags (sleep_pre t k) = signals_flags k"
  "signal_flag (sleep_pre t k) = signal_flag k"
  by (simp_all add: sleep_pre_def)

lemma state_of_tick_pre:
  "current_tid k < length (tasks k) \<Longrightarrow> state_of (tick_pre k) i =
     (if i = current_tid k then if signal_flag k \<noteq> 0 then TASK_CREATED OR TASK_BLOCKED else TASK_READY
      else state_of k i)"
  by (simp add: tick_pre_def Let_def state_of_def set_state_def nth_list_update_if)

lemma state_of_sleep_pre:
  "current_tid k < length (tasks k) \<Longrightarrow> state_of (sleep_pre t k) i =
     (if i = current_tid k then TASK_BLOCKED else state_of k i)"
  by (simp add: sleep_pre_def state_of_def nth_list_update_if)

lemma sleep_until_tick_pre:
  "current_tid k < length (tasks k) \<Longrightarrow> sleep_until (tasks (tick_pre k) ! i) =
     (if i = current_tid k \<and> signal_flag k \<noteq> 0 then 0 else sleep_until (tasks k ! i))"
  by (simp add: tick_pre_def Let_def set_state_def nth_list_update_if)

lemma sleep_until_sleep_pre:
  "current_tid k < length (tasks k) \<Longrightarrow> sleep_until (tasks (sleep_pre t k) ! i) =
     (if i = current_tid k then jiffy k + t else sleep_until (tasks k ! i))"
  by (simp add: sleep_pre_def nth_list_update_if)

lemma current_index: "kern_wf k \<Longrightarrow> current_tid k < length (tasks k)"
  by (simp add: kern_wf_def kern_bounds_def)

lemma kern_pre_set_state:
  assumes "kern_wf k" "st \<in> waiting_states"
  shows "kern_pre (set_state (current_tid k) st k)"
  using assms current_index [OF assms(1)]
  by (auto simp: kern_wf_def kern_pre_def kern_bounds_def state_of_set_state)

lemma kern_pre_tick: "kern_wf k \<Longrightarrow> kern_pre (tick_pre k)"
  using current_index [of k]
  by (auto simp: kern_wf_def kern_pre_def kern_bounds_def state_of_tick_pre waiting_states_def)

lemma kern_pre_sleep: "kern_wf k \<Longrightarrow> kern_pre (sleep_pre t k)"
  using current_index [of k]
  by (auto simp: kern_wf_def kern_pre_def kern_bounds_def state_of_sleep_pre waiting_states_def)

lemma kern_wf_mutex [simp]: "kern_wf (k\<lparr>mutex := m\<rparr>) = kern_wf k"
  by (simp add: kern_wf_def kern_bounds_def)

lemmas kern_pre_intros = kern_pre_set_state kern_pre_tick kern_pre_sleep

lemma handlers_wf:
  assumes "kern_wf k"
  shows "\<exists>k'. scheduler k = Some k' \<and> kern_wf k'"
    and "\<exists>k'. k_task_sleep t k = Some k' \<and> kern_wf k'"
    and "\<exists>k'. k_task_yield k = Some k' \<and> kern_wf k'"
    and "\<exists>k'. k_mutex_lock k = Some k' \<and> kern_wf k'"
    and "kern_wf (k_mutex_unlock k)"
  using assms dispatch_wf [OF kern_pre_tick] dispatch_wf [OF kern_pre_sleep]
    dispatch_wf [OF kern_pre_set_state]
  by (auto simp: scheduler_dispatch sleep_dispatch k_task_yield_def k_mutex_lock_def
      k_mutex_unlock_def waiting_states_def)
end
