(* ===== verification/Signal_Flags.thy ===== *)
theory Signal_Flags
  imports Scheduler_Invariant
begin

text \<open>
  The signals of src/src/signals.c and src/src/include/signals.h. \<open>signal_wait\<close> announces
  the wait in \<open>signal_flag\<close>, clears the SysTick counter and spins until the scheduler has
  taken the announcement; the interrupt that ends the spin is a parameter.
\<close>

definition SIGNALS_RTC :: u32 where
  "SIGNALS_RTC = 1"

definition SIGNALS_ADC :: u32 where
  "SIGNALS_ADC = 2"

definition SIGNALS_SERIAL :: u32 where
  "SIGNALS_SERIAL = 4"

definition SIGNALS_TASK :: u32 where
  "SIGNALS_TASK = 256"

definition TASK_SYNCHONISATION :: "u32 \<Rightarrow> u32" where
  "TASK_SYNCHONISATION x = SIGNALS_TASK OR (SIGNALS_TASK + x)"

definition signal_raise :: "u32 \<Rightarrow> kern \<Rightarrow> kern" where
  "signal_raise signal k = k\<lparr>signals_flags := signals_flags k OR signal\<rparr>"

text \<open>The two assignments of \<open>signal_wait\<close> before its loop.\<close>

definition signal_wait_begin :: "u32 \<Rightarrow> kern \<Rightarrow> kern" where
  "signal_wait_begin signal k = k\<lparr>signal_flag := signal, SysTick_VAL := 0\<rparr>"

text \<open>The loop: between two tests an interrupt handler may run.\<close>

partial_function (option) signal_wait_spin :: "(kern \<Rightarrow> kern option) \<Rightarrow> kern \<Rightarrow> kern option" where
  "signal_wait_spin interrupt k =
     (if signal_flag k \<noteq> 0
      then Option.bind (interrupt k) (signal_wait_spin interrupt)
      else Some k)"

declare signal_wait_spin.simps [code]

definition signal_wait :: "(kern \<Rightarrow> kern option) \<Rightarrow> u32 \<Rightarrow> kern \<Rightarrow> kern option" where
  "signal_wait interrupt signal k = signal_wait_spin interrupt (signal_wait_begin signal k)"

lemma kern_wf_signal [wf_intros]:
  "kern_wf k \<Longrightarrow> kern_wf (signal_raise s k)"
  "kern_wf k \<Longrightarrow> kern_wf (signal_wait_begin s k)"
  by (auto simp: signal_raise_def signal_wait_begin_def kern_wf_def kern_bounds_def state_of_def)

lemma signal_fields [simp]:
  "current_tid (signal_raise s k) = current_tid k"
  "registered_tasks (signal_raise s k) = registered_tasks k"
  "tasks (signal_raise s k) = tasks k"
  "jiffy (signal_raise s k) = jiffy k"
  "mutex (signal_raise s k) = mutex k"
  "current_tid (signal_wait_begin s k) = current_tid k"
  "registered_tasks (signal_wait_begin s k) = registered_tasks k"
  "tasks (signal_wait_begin s k) = tasks k"
  "jiffy (signal_wait_begin s k) = jiffy k"
  "mutex (signal_wait_begin s k) = mutex k"
  "signal_flag (signal_wait_begin s k) = s"
  by (simp_all add: signal_raise_def signal_wait_begin_def)

end
