(* ===== verification/Event_Machine.thy ===== *)
theory Event_Machine
  imports Pascal_Prelude
begin

text \<open>
  Machines with a partial step function, their runs, and reachability with inductive
  invariants for machines given by a step relation.
\<close>

section \<open>Runs\<close>

text \<open>A step function run over a list of events, and the states it passes.\<close>

fun run :: "('e \<Rightarrow> 's \<Rightarrow> 's option) \<Rightarrow> 'e list \<Rightarrow> 's \<Rightarrow> 's option" where
  "run step [] s = Some s"
| "run step (e # es) s = Option.bind (step e s) (run step es)"

fun visits :: "('e \<Rightarrow> 's \<Rightarrow> 's option) \<Rightarrow> ('s \<Rightarrow> bool) \<Rightarrow> 'e list \<Rightarrow> 's \<Rightarrow> bool" where
  "visits step P [] s = P s"
| "visits step P (e # es) s =
     (P s \<or> (case step e s of None \<Rightarrow> False | Some s' \<Rightarrow> visits step P es s'))"

text \<open>The number of steps of a run that are of a given kind.\<close>

fun step_count :: "('e \<Rightarrow> 's \<Rightarrow> 's option) \<Rightarrow> ('e \<Rightarrow> 's \<Rightarrow> bool) \<Rightarrow> 'e list \<Rightarrow> 's \<Rightarrow> nat" where
  "step_count step K [] s = 0"
| "step_count step K (e # es) s =
     (case step e s of None \<Rightarrow> 0 | Some s' \<Rightarrow> (if K e s then 1 else 0) + step_count step K es s')"

lemma run_append: "run step (es @ fs) s = Option.bind (run step es s) (run step fs)"
proof (induction es arbitrary: s)
  case (Cons e es)
  then show ?case by (cases "step e s") auto
qed simp

lemma visits_append_iff:
  "run step es s = Some s' \<Longrightarrow>
     visits step P (es @ fs) s \<longleftrightarrow> visits step P es s \<or> visits step P fs s'"
proof (induction es arbitrary: s)
  case Nil
  then show ?case by (cases fs) auto
next
  case (Cons e es)
  then show ?case by (cases "step e s") auto
qed

lemma visits_append:
  "run step es s = Some s' \<Longrightarrow> visits step P fs s' \<Longrightarrow> visits step P (es @ fs) s"
  by (simp add: visits_append_iff)

text \<open>A partial machine implements a total one: its runs end, in the states the other computes.\<close>

locale simulation =
  fixes cstep :: "'e \<Rightarrow> 's \<Rightarrow> 's option"
    and astep :: "'e \<Rightarrow> 'a \<Rightarrow> 'a"
    and abs_of :: "'s \<Rightarrow> 'a"
    and wf_state :: "'s \<Rightarrow> bool"
  assumes sim_step:
    "wf_state s \<Longrightarrow> \<exists>s'. cstep e s = Some s' \<and> wf_state s' \<and> abs_of s' = astep e (abs_of s)"
begin

lemma sim_run:
  "wf_state s \<Longrightarrow>
     \<exists>s'. run cstep es s = Some s' \<and> wf_state s' \<and> abs_of s' = fold astep es (abs_of s)"
proof (induction es arbitrary: s)
  case (Cons e es)
  obtain s1 where "cstep e s = Some s1" "wf_state s1" "abs_of s1 = astep e (abs_of s)"
    using sim_step [OF Cons.prems] by blast
  with Cons.IH [of s1] show ?case by simp
qed simp

end

section \<open>Reachable states\<close>

inductive reachable :: "('s \<Rightarrow> bool) \<Rightarrow> ('s \<Rightarrow> 's \<Rightarrow> bool) \<Rightarrow> 's \<Rightarrow> bool"
  for init :: "'s \<Rightarrow> bool" and step :: "'s \<Rightarrow> 's \<Rightarrow> bool" where
  reachable_init: "init s \<Longrightarrow> reachable init step s"
| reachable_step: "reachable init step s \<Longrightarrow> step s t \<Longrightarrow> reachable init step t"

locale inductive_invariant =
  fixes init :: "'s \<Rightarrow> bool"
    and step :: "'s \<Rightarrow> 's \<Rightarrow> bool"
    and invar :: "'s \<Rightarrow> bool"
  assumes invar_init: "init s \<Longrightarrow> invar s"
    and invar_step: "invar s \<Longrightarrow> step s t \<Longrightarrow> invar t"
begin

lemma reachable_invar: "reachable init step s \<Longrightarrow> invar s"
  by (induction rule: reachable.induct) (auto intro: invar_init invar_step)

end

end
