(* ===== verification/Round_Robin.thy ===== *)
theory Round_Robin
  imports Event_Machine
begin

text \<open>
  The round-robin contract: the interface between the task scheduler and everything that
  relies on its fairness.
\<close>

section \<open>Round robin, abstractly\<close>

text \<open>
  The distance from task \<open>c\<close> to task \<open>j\<close> along the ring \<open>1 .. n\<close>, and from the idle
  task, which starts at 1.
\<close>

definition ring_dist :: "nat \<Rightarrow> nat \<Rightarrow> nat \<Rightarrow> nat" where
  "ring_dist n c j = (if c < j then j - c else j + n - c)"

text \<open>
  A machine is a round robin when a step either leaves the current task and the waiting
  ready tasks alone, or switches to a task at most as far along the ring as any ready
  one, the tasks passed over staying ready.
\<close>

locale round_robin =
  fixes step :: "'e \<Rightarrow> 's \<Rightarrow> 's option"
    and switching :: "'e \<Rightarrow> 's \<Rightarrow> bool"
    and cur :: "'s \<Rightarrow> nat"
    and num :: "'s \<Rightarrow> nat"
    and ready :: "'s \<Rightarrow> nat \<Rightarrow> bool"
    and invar :: "'s \<Rightarrow> bool"
  assumes step_total: "invar s \<Longrightarrow> \<exists>s'. step e s = Some s' \<and> invar s' \<and> num s' = num s"
    and cur_bound: "invar s \<Longrightarrow> cur s \<le> num s"
    and step_stays: "invar s \<Longrightarrow> step e s = Some s' \<Longrightarrow> \<not> switching e s \<Longrightarrow>
      cur s' = cur s \<and> (j \<noteq> cur s \<and> 1 \<le> j \<and> j \<le> num s \<and> ready s j \<longrightarrow> ready s' j)"
    and step_switches: "invar s \<Longrightarrow> step e s = Some s' \<Longrightarrow> switching e s \<Longrightarrow>
      1 \<le> j \<Longrightarrow> j \<le> num s \<Longrightarrow> j \<noteq> cur s \<Longrightarrow> ready s j \<Longrightarrow>
      1 \<le> cur s' \<and> ring_dist (num s) (cur s) (cur s') \<le> ring_dist (num s) (cur s) j
        \<and> (cur s' \<noteq> j \<longrightarrow> ready s' j)"
begin

lemma closer:
  assumes "1 \<le> p" "p \<le> n" "1 \<le> j" "j \<le> n" "c \<le> n" "j \<noteq> c" "p \<noteq> j"
    and "ring_dist n c p \<le> ring_dist n c j"
  shows "ring_dist n p j < ring_dist n c j"
  using assms by (auto simp: ring_dist_def split: if_splits)

text \<open>A ready task runs after at most as many switches as its distance.\<close>

lemma fairness:
  assumes "invar s" "1 \<le> j" "j \<le> num s" "j = cur s \<or> ready s j"
    and "ring_dist (num s) (cur s) j \<le> step_count step switching es s"
  shows "visits step (\<lambda>s. cur s = j) es s"
  using assms
proof (induction es arbitrary: s)
  case Nil
  then show ?case using cur_bound [of s] by (auto simp: ring_dist_def split: if_splits)
next
  case (Cons e es)
  obtain s' where s': "step e s = Some s'" "invar s'" "num s' = num s"
    using step_total [OF Cons.prems(1)] by blast
  show ?case
  proof (cases "j = cur s")
    case True
    then show ?thesis by simp
  next
    case False
    with Cons.prems have r: "ready s j" by simp
    show ?thesis
    proof (cases "switching e s")
      case True
      with step_switches [OF Cons.prems(1) s'(1) _ Cons.prems(2,3) False r]
      have sw: "1 \<le> cur s'" "ring_dist (num s) (cur s) (cur s') \<le> ring_dist (num s) (cur s) j"
        "cur s' \<noteq> j \<Longrightarrow> ready s' j" by auto
      show ?thesis
      proof (cases "cur s' = j")
        case True
        then show ?thesis using s' by (cases es) auto
      next
        case False
        then have "ring_dist (num s) (cur s') j < ring_dist (num s) (cur s) j"
          using closer [of "cur s'" "num s" j "cur s"] sw Cons.prems \<open>j \<noteq> cur s\<close>
            cur_bound [OF s'(2)] cur_bound [OF Cons.prems(1)] s'(3) by simp
        then show ?thesis
          using Cons.IH [OF s'(2)] Cons.prems s' sw False True by auto
      qed
    next
      case nosw: False
      then show ?thesis
        using Cons.IH [OF s'(2)] Cons.prems s' step_stays [OF Cons.prems(1) s'(1) nosw, of j] r
        by auto
    qed
  qed
qed

lemma fairness_bound:
  assumes "invar s" "1 \<le> j" "j \<le> num s" "j = cur s \<or> ready s j" "num s \<le> step_count step switching es s"
  shows "visits step (\<lambda>s. cur s = j) es s"
proof (cases "j = cur s")
  case True
  then show ?thesis by (cases es) auto
next
  case False
  then have "ring_dist (num s) (cur s) j \<le> num s"
    using assms cur_bound [OF assms(1)] by (auto simp: ring_dist_def)
  then show ?thesis using assms fairness by simp
qed

end

end
