(* ===== verification/Kernel_Machine.thy ===== *)
theory Kernel_Machine
  imports Signal_Flags Round_Robin
begin

text \<open>
  The handlers of src/src/scheduler.c and src/src/signals.c as the steps of one event
  machine, the effect of a step that switches tasks, and the proof that the machine meets
  the round-robin contract.
\<close>

section \<open>The kernel as an event machine\<close>

text \<open>
  The events that change the kernel state once the tasks are registered: the SysTick
  interrupt, the four supervisor calls of the running task, and the two signal
  functions it may call. Exceptions do not nest (SVC has priority 0, SysTick 2, and both
  run to completion), so a history is a list of events.
\<close>

datatype kevent = Tick | Sleep cint | Yield | Lock | Unlock | Raise u32 | Wait u32

fun kstep :: "kevent \<Rightarrow> kern \<Rightarrow> kern option" where
  "kstep Tick k = scheduler k"
| "kstep (Sleep t) k = k_task_sleep t k"
| "kstep Yield k = k_task_yield k"
| "kstep Lock k = k_mutex_lock k"
| "kstep Unlock k = Some (k_mutex_unlock k)"
| "kstep (Raise s) k = Some (signal_raise s k)"
| "kstep (Wait s) k = Some (signal_wait_begin s k)"

text \<open>The events that reach \<open>k_task_peek_next\<close>, and the state each hands to it.\<close>

fun switching :: "kevent \<Rightarrow> kern \<Rightarrow> bool" where
  "switching Tick k = True"
| "switching (Sleep t) k = True"
| "switching Yield k = True"
| "switching Lock k = (mutex k \<noteq> 0)"
| "switching e k = False"

fun before_dispatch :: "kevent \<Rightarrow> kern \<Rightarrow> kern" where
  "before_dispatch Tick k = tick_pre k"
| "before_dispatch (Sleep t) k = sleep_pre t k"
| "before_dispatch Yield k = set_state (current_tid k) TASK_READY k"
| "before_dispatch Lock k = set_state (current_tid k) TASK_MUTEX_BLOCKED k"
| "before_dispatch e k = k"

lemma kstep_switching: "switching e k \<Longrightarrow> kstep e k = k_dispatch (before_dispatch e k)"
  by (cases e) (auto simp: scheduler_dispatch sleep_dispatch k_task_yield_def k_mutex_lock_def)

lemma kstep_not_switching:
  "\<not> switching e k \<Longrightarrow> \<exists>k'. kstep e k = Some k' \<and> current_tid k' = current_tid k
     \<and> registered_tasks k' = registered_tasks k \<and> tasks k' = tasks k \<and> jiffy k' = jiffy k"
  by (cases e) (auto simp: k_mutex_lock_def k_mutex_unlock_def)

lemma kern_pre_before_dispatch: "kern_wf k \<Longrightarrow> switching e k \<Longrightarrow> kern_pre (before_dispatch e k)"
  by (cases e) (auto intro!: kern_pre_intros simp: waiting_states_def)

lemma before_dispatch_fields [simp]:
  "current_tid (before_dispatch e k) = current_tid k"
  "registered_tasks (before_dispatch e k) = registered_tasks k"
  "length (tasks (before_dispatch e k)) = length (tasks k)"
  "mutex (before_dispatch e k) = mutex k"
  "jiffy (before_dispatch e k) = (if e = Tick then jiffy k + 1 else jiffy k)"
  by (cases e; simp)+

lemma before_dispatch_other:
  assumes "kern_wf k" "j \<noteq> current_tid k"
  shows "state_of (before_dispatch e k) j = state_of k j"
    and "sleep_until (tasks (before_dispatch e k) ! j) = sleep_until (tasks k ! j)"
  using assms current_index [OF assms(1)]
  by (cases e; simp add: state_of_tick_pre state_of_sleep_pre state_of_set_state
      sleep_until_tick_pre sleep_until_sleep_pre sleep_until_set_state)+

lemma kstep_wf:
  assumes "kern_wf k"
  shows "\<exists>k'. kstep e k = Some k' \<and> kern_wf k' \<and> registered_tasks k' = registered_tasks k"
proof (cases "switching e k")
  case True
  note pre = kern_pre_before_dispatch [OF assms True]
  obtain k' where "kstep e k = Some k'" "registered_tasks k' = registered_tasks k"
    using dispatch_spec [OF pre] kstep_switching [OF True] before_dispatch_fields(2) by metis
  then show ?thesis
    using dispatch_wf [OF pre] kstep_switching [OF True] by simp
next
  case False
  then show ?thesis
    using kstep_not_switching [OF False] assms handlers_wf [OF assms] kern_wf_signal [OF assms]
    by (cases e) auto
qed

section \<open>The kernel is a round robin\<close>

lemma candidates_in_order:
  assumes "c \<le> n"
  shows "map (ring_dist n c) (candidates n c) = [1 ..< (if c = 0 then Suc n else n)]"
  using assms
  by (intro nth_equalityI) (auto simp: candidates_def ring_dist_def nth_append simp del: upt_Suc)

lemma first_ready_nearest:
  assumes "sorted (map f is)" "j \<in> set is" "R j"
  shows "first_ready R is \<in> set is \<and> f (first_ready R is) \<le> (f j :: nat)"
  using assms by (induction "is") auto

lemma next_task_nearest:
  assumes "kern_pre k" "1 \<le> j" "j \<le> registered_tasks k" "j \<noteq> current_tid k" "state_of k j = TASK_READY"
  shows "1 \<le> next_task k" "ring_dist (registered_tasks k) (current_tid k) (next_task k)
    \<le> ring_dist (registered_tasks k) (current_tid k) j"
proof -
  have c: "current_tid k \<le> registered_tasks k" using assms(1) by (simp add: kern_pre_def kern_bounds_def)
  have "next_task k \<in> set (candidates (registered_tasks k) (current_tid k)) \<and>
    ring_dist (registered_tasks k) (current_tid k) (next_task k)
      \<le> ring_dist (registered_tasks k) (current_tid k) j"
    unfolding next_task_def
    using assms c
    by (intro first_ready_nearest) (auto simp: candidates_in_order set_candidates ready_after_wake_def)
  then show "1 \<le> next_task k" "ring_dist (registered_tasks k) (current_tid k) (next_task k)
    \<le> ring_dist (registered_tasks k) (current_tid k) j"
    using c by (auto simp: set_candidates)
qed

text \<open>A ready task that is passed over stays ready, and keeps its deadline.\<close>

lemma kstep_switch_spec:
  assumes "kern_wf k" "switching e k" "kstep e k = Some k'"
  shows "current_tid k' = next_task (before_dispatch e k)"
    and "state_of k' j = (if j = next_task (before_dispatch e k) then TASK_RUNNING
       else if woken (before_dispatch e k) (registered_tasks k) j then TASK_READY
       else state_of (before_dispatch e k) j)"
    and "sleep_until (tasks k' ! j) = sleep_until (tasks (before_dispatch e k) ! j)"
    and "jiffy k' = (if e = Tick then jiffy k + 1 else jiffy k)"
    and "mutex k' = (if mutex k = 0 \<and> mutex_waiter (before_dispatch e k) (registered_tasks k) \<noteq> 0
      then 1 else mutex k)"
  using assms(3) kstep_switching [OF assms(2)] dispatch_spec [OF kern_pre_before_dispatch [OF assms(1,2)]]
  by (metis before_dispatch_fields option.inject)+

interpretation krr: round_robin kstep switching current_tid registered_tasks
  "\<lambda>k j. state_of k j = TASK_READY" kern_wf
proof unfold_locales
  fix k :: kern and e
  show "kern_wf k \<Longrightarrow> \<exists>k'. kstep e k = Some k' \<and> kern_wf k' \<and> registered_tasks k' = registered_tasks k"
    by (rule kstep_wf)
  show "kern_wf k \<Longrightarrow> current_tid k \<le> registered_tasks k"
    by (simp add: kern_wf_def kern_bounds_def)
next
  fix k :: kern and e k' j
  assume "kstep e k = Some k'" "\<not> switching e k"
  with kstep_not_switching [of e k]
  show "current_tid k' = current_tid k \<and>
    (j \<noteq> current_tid k \<and> 1 \<le> j \<and> j \<le> registered_tasks k \<and> state_of k j = TASK_READY \<longrightarrow>
     state_of k' j = TASK_READY)"
    by (auto simp: state_of_def)
next
  fix k :: kern and e k' j
  assume k: "kern_wf k" "kstep e k = Some k'" "switching e k" "1 \<le> j" "j \<le> registered_tasks k"
    "j \<noteq> current_tid k" "state_of k j = TASK_READY"
  then have "state_of (before_dispatch e k) j = TASK_READY" by (simp add: before_dispatch_other)
  with k show "1 \<le> current_tid k' \<and>
    ring_dist (registered_tasks k) (current_tid k) (current_tid k')
      \<le> ring_dist (registered_tasks k) (current_tid k) j \<and>
    (current_tid k' \<noteq> j \<longrightarrow> state_of k' j = TASK_READY)"
    using kern_pre_before_dispatch [of k e] next_task_nearest [of "before_dispatch e k" j]
    by (simp add: kstep_switch_spec)
qed

end
