(* ===== verification/Sleep_Timing.thy ===== *)
theory Sleep_Timing
  imports Kernel_Machine
begin

text \<open>
  What happens to a task from its \<open>sys_sleep\<close> on: it stays asleep while its deadline has
  not passed, whatever the other tasks do.
\<close>

section \<open>Sleeping tasks\<close>

definition ticks :: "kevent list \<Rightarrow> nat" where
  "ticks es = length (filter ((=) Tick) es)"

lemma ticks_simps [simp]:
  "ticks [] = 0"
  "ticks (e # es) = (if e = Tick then Suc (ticks es) else ticks es)"
  by (auto simp: ticks_def)

definition asleep :: "nat \<Rightarrow> cint \<Rightarrow> kern \<Rightarrow> bool" where
  "asleep t d k \<longleftrightarrow> 1 \<le> t \<and> t \<le> registered_tasks k \<and> t \<noteq> current_tid k \<and>
     state_of k t = TASK_BLOCKED \<and> sleep_until (tasks k ! t) = d"

lemma kstep_jiffy:
  assumes "kern_wf k" "kstep e k = Some k'"
  shows "jiffy k' = (if e = Tick then jiffy k + 1 else jiffy k)"
proof (cases "switching e k")
  case True
  then show ?thesis using assms by (simp add: kstep_switch_spec)
next
  case False
  then show ?thesis using kstep_not_switching [OF False] assms(2) by auto
qed

lemma run_wf:
  assumes "kern_wf k"
  shows "\<exists>k'. run kstep es k = Some k' \<and> kern_wf k' \<and> registered_tasks k' = registered_tasks k
    \<and> jiffy k' = jiffy k + of_nat (ticks es)"
  using assms
proof (induction es arbitrary: k)
  case (Cons e es)
  obtain k1 where k1: "kstep e k = Some k1" "kern_wf k1" "registered_tasks k1 = registered_tasks k"
    using kstep_wf [OF Cons.prems] by blast
  show ?case
    using Cons.IH [OF k1(2)] k1 kstep_jiffy [OF Cons.prems k1(1)] by (auto simp: algebra_simps)
qed simp

lemma asleep_step:
  assumes "kern_wf k" "asleep t d k" "kstep e k = Some k'" "\<not> cless d (jiffy k')"
  shows "asleep t d k'"
proof (cases "switching e k")
  case True
  note pre = before_dispatch_other [OF assms(1), of t e] kstep_jiffy [OF assms(1,3)]
  have notready: "\<not> ready_after_wake (before_dispatch e k) t"
    using assms(2,4) pre mutex_waiter_blocked [of "before_dispatch e k" "registered_tasks k"]
    by (auto simp: asleep_def ready_after_wake_def woken_def wakes_def split: if_splits)
  have "next_task (before_dispatch e k) \<noteq> t"
    by (rule next_task_cases [OF kern_pre_before_dispatch [OF assms(1) True]])
      (use notready assms(2) in \<open>auto simp: asleep_def\<close>)
  then show ?thesis
    using notready assms(2) pre kstep_switch_spec [OF assms(1) True assms(3)]
      kstep_wf [OF assms(1), of e] assms(3)
    by (auto simp: asleep_def ready_after_wake_def)
next
  case False
  then show ?thesis
    using kstep_not_switching [OF False] assms by (auto simp: asleep_def state_of_def)
qed

lemma sint_add_nat:
  assumes "sint (j :: cint) + int m < 2 ^ 31"
  shows "sint (j + of_nat m) = sint j + int m"
proof -
  have "- (2 ^ 31) \<le> sint j" using sint_greater_eq [of j] by simp
  moreover have "sint (j + of_nat m) = sint (word_of_int (sint j + int m) :: cint)"
    by simp
  moreover have "sint (word_of_int x :: cint) = signed_take_bit 31 x" for x
    by (simp add: signed_of_int)
  ultimately show ?thesis
    using assms by (metis (no_types, lifting) add_increasing2 of_nat_0_le_iff signed_take_bit_int_eq_self)
qed

lemma asleep_run:
  assumes "kern_wf k" "asleep t d k" "run kstep es k = Some k'"
    and "sint (jiffy k) + int (ticks es) \<le> sint d"
  shows "asleep t d k' \<and> kern_wf k'"
  using assms
proof (induction es arbitrary: k)
  case (Cons e es)
  from Cons.prems(3) obtain k1 where k1: "kstep e k = Some k1" "run kstep es k1 = Some k'"
    by (auto simp: Option.bind_eq_Some_conv)
  have d: "sint d < 2 ^ 31" using sint_less [of d] by simp
  have j: "sint (jiffy k1) + int (ticks es) = sint (jiffy k) + int (ticks (e # es))"
    using kstep_jiffy [OF Cons.prems(1) k1(1)] Cons.prems(4) d sint_add_nat [of "jiffy k" 1] by auto
  moreover have "kern_wf k1" using kstep_wf [OF Cons.prems(1), of e] k1(1) by auto
  moreover have "asleep t d k1"
    by (rule asleep_step [OF Cons.prems(1,2) k1(1)]) (use j Cons.prems(4) in \<open>auto simp: cless_def\<close>)
  ultimately show ?case using Cons.IH [of k1] k1(2) Cons.prems(4) by simp
qed simp

lemma sleep_asleep:
  assumes "kern_wf k" "1 \<le> current_tid k" "0 \<le> sint n" "sint (jiffy k) + sint n < 2 ^ 31"
    and "kstep (Sleep n) k = Some k'"
  shows "asleep (current_tid k) (jiffy k + n) k'"
proof -
  let ?t = "current_tid k" and ?p = "sleep_pre n k"
  have idx: "?t < length (tasks k)" by (rule current_index [OF assms(1)])
  have le: "?t \<le> registered_tasks k" using assms(1) by (simp add: kern_wf_def kern_bounds_def)
  have "sint (jiffy k + n) = sint (jiffy k) + sint n"
    using assms(3,4) sint_greater_eq [of "jiffy k"] by (intro sint_add_no_overflow) auto
  then have "\<not> wakes ?p ?t"
    using assms(3) idx by (simp add: wakes_def sleep_until_sleep_pre cless_def)
  moreover have "mutex_waiter ?p (registered_tasks k) \<noteq> ?t"
    using mutex_waiter_blocked [of ?p "registered_tasks k"] assms(2) idx
    by (auto simp: state_of_sleep_pre split: if_splits)
  moreover have "next_task ?p \<noteq> ?t"
    using next_task_cases [OF kern_pre_sleep [OF assms(1)]] assms(2)
    by (metis not_one_le_zero sleep_pre_fields(1))
  ultimately show ?thesis
    using kstep_switch_spec [OF assms(1) _ assms(5)] assms le idx kstep_wf [OF assms(1), of "Sleep n"]
    by (auto simp: asleep_def woken_def state_of_sleep_pre sleep_until_sleep_pre)
qed

section \<open>Waking up\<close>

lemma wake_tick:
  assumes "kern_wf k" "asleep t d k" "cless d (jiffy k + 1)" "kstep Tick k = Some k'"
  shows "1 \<le> current_tid k' \<and> (current_tid k' = t \<or> state_of k' t = TASK_READY)"
proof -
  let ?p = "before_dispatch Tick k"
  have pre: "kern_pre ?p" by (rule kern_pre_before_dispatch [OF assms(1)]) simp
  have c: "current_tid ?p \<le> registered_tasks ?p"
    using pre by (simp only: kern_pre_def kern_bounds_def)
  have "woken ?p (registered_tasks k) t"
    using assms(2,3) before_dispatch_other [OF assms(1), of t Tick]
    by (simp add: woken_def wakes_def asleep_def)
  moreover from this have "ready_after_wake ?p t" by (simp add: ready_after_wake_def)
  then have "next_task ?p \<noteq> 0"
    using assms(2) c set_candidates [OF c]
    unfolding next_task_def asleep_def
    by (cases rule: first_ready_cases [of "ready_after_wake ?p"
          "candidates (registered_tasks ?p) (current_tid ?p)"]) auto
  ultimately show ?thesis
    using kstep_switch_spec [OF assms(1) _ assms(4)] by auto
qed

text \<open>Splitting a history at its tick number \<open>n + 1\<close>.\<close>

lemma split_at_tick:
  assumes "n < ticks es"
  obtains ps qs where "es = ps @ Tick # qs" "ticks ps = n" "ticks es = Suc (n + ticks qs)"
  using assms
proof (induction es arbitrary: n thesis)
  case (Cons e es)
  show ?case
  proof (cases "e = Tick")
    case True
    show ?thesis
    proof (cases n)
      case 0
      then show ?thesis using True Cons.prems(1) [of "[]" es] by simp
    next
      case (Suc m)
      with True Cons.prems(2) have "m < ticks es" by simp
      then obtain ps qs where "es = ps @ Tick # qs" "ticks ps = m" "ticks es = Suc (m + ticks qs)"
        using Cons.IH by blast
      then show ?thesis using True Suc Cons.prems(1) [of "Tick # ps" qs] by simp
    qed
  next
    case False
    with Cons.prems(2) have "n < ticks es" by simp
    then obtain ps qs where "es = ps @ Tick # qs" "ticks ps = n" "ticks es = Suc (n + ticks qs)"
      using Cons.IH by blast
    then show ?thesis using False Cons.prems(1) [of "e # ps" qs] by simp
  qed
qed simp

lemma ticks_le_switches: "kern_wf k \<Longrightarrow> ticks es \<le> step_count kstep switching es k"
proof (induction es arbitrary: k)
  case (Cons e es)
  obtain k1 where "kstep e k = Some k1" "kern_wf k1" using kstep_wf [OF Cons.prems] by blast
  then show ?case using Cons.IH [of k1] by auto
qed simp

lemma wakes_in_time:
  assumes "kern_wf k" "asleep t d k" "sint d < 2 ^ 31 - 1" "sint (jiffy k) + int n = sint d"
    and "n + registered_tasks k \<le> ticks es"
  shows "visits kstep (\<lambda>k. current_tid k = t) es k"
proof -
  have "n < ticks es" using assms(2,5) by (simp add: asleep_def)
  then obtain ps qs where es: "es = ps @ Tick # qs" and tp: "ticks ps = n"
    and tq: "ticks es = Suc (n + ticks qs)" by (rule split_at_tick)
  obtain k1 where k1: "run kstep ps k = Some k1" "kern_wf k1" "registered_tasks k1 = registered_tasks k"
    "jiffy k1 = jiffy k + of_nat n"
    using run_wf [OF assms(1), of ps] tp by auto
  have a1: "asleep t d k1" using asleep_run [OF assms(1,2) k1(1)] tp assms(4) by simp
  obtain k2 where k2: "kstep Tick k1 = Some k2" "kern_wf k2" "registered_tasks k2 = registered_tasks k"
    using kstep_wf [OF k1(2), of Tick] k1(3) by auto
  have "sint (jiffy k1) = sint d"
    using sint_add_nat [of "jiffy k" n] assms(3,4) k1(4) by simp
  then have "cless d (jiffy k1 + 1)"
    using sint_add_nat [of "jiffy k1" 1] assms(3) by (simp add: cless_def)
  from wake_tick [OF k1(2) a1 this k2(1)]
  have w: "1 \<le> current_tid k2" "current_tid k2 = t \<or> state_of k2 t = TASK_READY" by auto
  have t: "1 \<le> t" "t \<le> registered_tasks k2" using a1 k1(3) k2(3) by (auto simp: asleep_def)
  have "visits kstep (\<lambda>k. current_tid k = t) qs k2"
  proof (cases "current_tid k2 = t")
    case True
    then show ?thesis by (cases qs) auto
  next
    case False
    then have "ring_dist (registered_tasks k2) (current_tid k2) t \<le> ticks qs"
      using w(1) t tq assms(5) k2(3) by (auto simp: ring_dist_def)
    then show ?thesis
      using krr.fairness [OF k2(2), of t qs] t w ticks_le_switches [OF k2(2), of qs] by auto
  qed
  then have "visits kstep (\<lambda>k. current_tid k = t) (Tick # qs) k1" using k2(1) by simp
  then show ?thesis using visits_append [OF k1(1)] es by simp
qed

end
