(* ===== verification/Demo_Kernel.thy ===== *)
theory Demo_Kernel
  imports Kernel_Machine
begin

text \<open>
  Concrete kernel states, at which the witnesses of the scheduler's theorems evaluate.
\<close>

section \<open>A kernel state for the witnesses\<close>

text \<open>Three tasks: 1 runs and holds the mutex, 2 is ready, 3 waits for the mutex.\<close>

definition demo_task :: "u32 \<Rightarrow> task_struct" where
  "demo_task st =
     \<lparr>sp = 0, registers = [0, 0, 0, 0], state = st, sleep_until = 0, task_signal_flag = 0\<rparr>"

definition demo_kern :: kern where
  "demo_kern =
     \<lparr>current_tid = 1, registered_tasks = 3,
      tasks = map demo_task [2, 4, 2, 16, 0, 0, 0, 0],
      jiffy = 5, mutex = 1, signal_flag = 0, signals_flags = 0, SysTick_VAL = 0,
      SysTick_LOAD = 31999, irq_enabled = True, ram = (\<lambda>_. 0)\<rparr>"

lemma demo_kern_wf: "kern_wf demo_kern"
  by code_simp

lemma demo_kern_fields:
  "current_tid demo_kern = 1" "registered_tasks demo_kern = 3" "jiffy demo_kern = 5"
  "mutex demo_kern = 1" "signal_flag demo_kern = 0"
  by (simp_all add: demo_kern_def)

lemma demo_kern_states:
  "state_of demo_kern 1 = TASK_RUNNING" "state_of demo_kern 2 = TASK_READY"
  "state_of demo_kern 3 = TASK_MUTEX_BLOCKED"
  by code_simp+

definition demo_sleeper :: kern where
  "demo_sleeper = demo_kern\<lparr>mutex := 0,
     tasks := [demo_task 2, demo_task 4, demo_task 2, (demo_task 8)\<lparr>sleep_until := 100\<rparr>,
               demo_task 0, demo_task 0, demo_task 0, demo_task 0]\<rparr>"

text \<open>All other tasks asleep.\<close>

definition demo_alone :: kern where
  "demo_alone = demo_kern\<lparr>mutex := 0,
     tasks := [demo_task 2, demo_task 4, (demo_task 8)\<lparr>sleep_until := 50\<rparr>,
               (demo_task 8)\<lparr>sleep_until := 100\<rparr>,
               demo_task 0, demo_task 0, demo_task 0, demo_task 0]\<rparr>"

text \<open>Task 1 runs and holds the mutex, 2 and 3 wait for it; the clock and the timer are free.\<close>

definition demo_contended :: "cint \<Rightarrow> u32 \<Rightarrow> kern" where
  "demo_contended j v = demo_kern\<lparr>jiffy := j, SysTick_VAL := v,
     tasks := map demo_task [2, 4, 16, 16, 0, 0, 0, 0]\<rparr>"

text \<open>No mutex taken, tasks 2 and 3 ready.\<close>

definition demo_free :: kern where
  "demo_free = demo_kern\<lparr>mutex := 0, tasks := map demo_task [2, 4, 2, 2, 0, 0, 0, 0]\<rparr>"

end
