(* ===== verification/Scheduler_Properties.thy ===== *)
theory Scheduler_Properties
  imports Sleep_Timing Demo_Kernel
begin

text \<open>
  The properties of src/src/scheduler.c and src/src/signals.c: the invariant over every
  history, the round-robin order, fairness, the bounds on sleeping,
  and the places where the code departs from its documentation.
\<close>

section \<open>The invariant\<close>

text \<open>
  C1: from every well-formed state, every list of interrupts and calls runs to its end (no
  handler loops for ever), the task table stays in bounds, and exactly one task has the state
  \<open>TASK_RUNNING\<close>: the one \<open>current_tid\<close> names.
\<close>

theorem kernel_one_running:
  assumes "kern_wf k"
  shows "\<exists>k'. run kstep es k = Some k' \<and> kern_bounds k' \<and>
    (\<forall>i \<le> registered_tasks k'. state_of k' i = TASK_RUNNING \<longleftrightarrow> i = current_tid k')"
proof -
  obtain k' where "run kstep es k = Some k'" "kern_wf k'" using run_wf [OF assms] by blast
  then show ?thesis by (auto simp: kern_wf_def waiting_states_def split: if_splits)
qed

theorem kernel_one_running_witness:
  "\<exists>k'. run kstep [Tick, Yield, Unlock, Sleep 3, Tick, Lock] demo_kern = Some k' \<and> kern_bounds k' \<and>
    (\<forall>i \<le> registered_tasks k'. state_of k' i = TASK_RUNNING \<longleftrightarrow> i = current_tid k')"
  by (rule kernel_one_running [OF demo_kern_wf])

section \<open>The order of the tasks\<close>

text \<open>
  C17: \<open>k_task_peek_next\<close> always returns, and it returns the first ready task (after the
  wake-ups) in ring order: the tasks after the current one, then those before it, all of them
  from 1 on for the idle task; with none ready it returns the idle task 0.
\<close>

theorem peek_next_ring_order:
  assumes "kern_pre k" "registered_tasks k \<noteq> 0"
  shows "\<exists>k'. k_task_peek_next (current_tid k) k = Some
      (first_ready (IS_READY (k_task_update_state k)) (candidates (registered_tasks k) (current_tid k)), k')
    \<and> tasks k' = tasks (k_task_update_state k) \<and> mutex k' = mutex (k_task_update_state k)"
proof -
  have c: "current_tid k \<le> registered_tasks (k_task_update_state k)"
    using assms(1) by (simp add: kern_pre_def kern_bounds_def)
  show ?thesis
    using assms(2) peek_loop_eq [OF c] by (simp add: k_task_peek_next_def Let_def)
qed

theorem peek_next_ring_order_witness:
  "kern_pre (set_state 1 TASK_READY demo_kern) \<and>
   map_option fst (k_task_peek_next 1 (set_state 1 TASK_READY demo_kern)) = Some 2"
proof -
  have pre: "kern_pre (set_state 1 TASK_READY demo_kern)" by code_simp
  have "registered_tasks (set_state 1 TASK_READY demo_kern) \<noteq> 0" by code_simp
  from peek_next_ring_order [OF pre this]
  have "map_option fst (k_task_peek_next 1 (set_state 1 TASK_READY demo_kern)) =
    Some (first_ready (IS_READY (k_task_update_state (set_state 1 TASK_READY demo_kern))) (candidates 3 1))"
    by (auto simp: demo_kern_fields)
  moreover have "first_ready (IS_READY (k_task_update_state (set_state 1 TASK_READY demo_kern)))
      (candidates 3 1) = 2"
    by code_simp
  ultimately show ?thesis using pre by simp
qed

text \<open>
  C2: a ready task is starved by nobody: it runs after at most \<open>registered_tasks\<close> task
  switches, whatever interrupts and calls the switches come from.
\<close>

theorem round_robin_fair:
  assumes "kern_wf k" "1 \<le> j" "j \<le> registered_tasks k" "state_of k j = TASK_READY"
    and "registered_tasks k \<le> step_count kstep switching es k"
  shows "visits kstep (\<lambda>k. current_tid k = j) es k"
  using krr.fairness_bound assms by blast

theorem round_robin_fair_witness:
  "visits kstep (\<lambda>k. current_tid k = 2) [Unlock, Tick, Sleep 7, Yield] demo_kern"
proof (rule round_robin_fair [OF demo_kern_wf])
  show "1 \<le> (2::nat)" "2 \<le> registered_tasks demo_kern" by (simp_all add: demo_kern_fields)
  show "state_of demo_kern 2 = TASK_READY" by (rule demo_kern_states)
  show "registered_tasks demo_kern \<le> step_count kstep switching [Unlock, Tick, Sleep 7, Yield] demo_kern"
    by code_simp
qed

section \<open>Sleeping\<close>

text \<open>
  C18: a task that calls \<open>sys_sleep(n)\<close> does not run again before more than \<open>n\<close> ticks
  have passed, whatever the other tasks do meanwhile (as long as the tick counter does not
  overflow).
\<close>

theorem sleep_at_least:
  assumes "kern_wf k" "1 \<le> current_tid k" "0 \<le> sint n" "sint (jiffy k) + sint n < 2 ^ 31"
    and "int (ticks es) \<le> sint n" "run kstep (Sleep n # es) k = Some k'"
  shows "current_tid k' \<noteq> current_tid k \<and> state_of k' (current_tid k) = TASK_BLOCKED"
proof -
  obtain k1 where k1: "kstep (Sleep n) k = Some k1" "run kstep es k1 = Some k'"
    using assms(6) by (auto simp: Option.bind_eq_Some_conv)
  have "sint (jiffy k + n) = sint (jiffy k) + sint n"
    using assms(3,4) sint_greater_eq [of "jiffy k"] by (intro sint_add_no_overflow) auto
  moreover have "jiffy k1 = jiffy k" using kstep_jiffy [OF assms(1) k1(1)] by simp
  moreover have "kern_wf k1" using kstep_wf [OF assms(1), of "Sleep n"] k1(1) by auto
  ultimately have "asleep (current_tid k) (jiffy k + n) k'"
    using asleep_run [OF _ sleep_asleep [OF assms(1-4) k1(1)] k1(2)] assms(5) by simp
  then show ?thesis by (simp add: asleep_def)
qed

theorem sleep_at_least_witness:
  "\<exists>k'. run kstep [Sleep 2, Tick, Yield, Tick] demo_kern = Some k' \<and> current_tid k' \<noteq> 1
     \<and> state_of k' 1 = TASK_BLOCKED"
proof -
  obtain k' where k': "run kstep [Sleep 2, Tick, Yield, Tick] demo_kern = Some k'"
    using run_wf [OF demo_kern_wf] by blast
  have "current_tid k' \<noteq> current_tid demo_kern \<and> state_of k' (current_tid demo_kern) = TASK_BLOCKED"
    by (rule sleep_at_least [OF demo_kern_wf _ _ _ _ k']) (simp_all add: demo_kern_fields)
  with k' show ?thesis by (simp add: demo_kern_fields)
qed

text \<open>A deadline of \<open>LONG_MAX\<close> never passes: the tick counter is never greater.\<close>

lemma sleep_for_ever:
  assumes "kern_wf k" "asleep t d k" "sint d = 2 ^ 31 - 1"
  shows "\<not> visits kstep (\<lambda>k. current_tid k = t) es k"
  using assms(1,2)
proof (induction es arbitrary: k)
  case Nil
  then show ?case by (simp add: asleep_def)
next
  case (Cons e es)
  obtain k1 where k1: "kstep e k = Some k1" "kern_wf k1" using kstep_wf [OF Cons.prems(1)] by blast
  have "\<not> cless d (jiffy k1)" using assms(3) sint_less [of "jiffy k1"] by (simp add: cless_def)
  then have "asleep t d k1" by (rule asleep_step [OF Cons.prems k1(1)])
  with Cons.IH [OF k1(2)] k1(1) Cons.prems(2) show ?case by (simp add: asleep_def)
qed

text \<open>
  C19: the README's upper bound, and where it ends. A task calls \<open>sys_sleep(n)\<close> with \<open>n\<close> not
  negative and a deadline, \<open>jiffy + n\<close>, that is a signed 32-bit number. If the deadline is
  less than 2^31 - 1, the task has run again by the time \<open>n\<close> plus the number of registered
  tasks ticks have passed, whatever else happens between the ticks. If the deadline is 2^31 - 1,
  it never runs again, however long the history is: the test \<open>jiffy > sleep_until\<close> cannot succeed.
\<close>

theorem sleep_at_most:
  assumes "kern_wf k" "1 \<le> current_tid k" "0 \<le> sint n" "sint (jiffy k) + sint n < 2 ^ 31"
    and "kstep (Sleep n) k = Some k1"
  shows "if sint (jiffy k) + sint n < 2 ^ 31 - 1
    then nat (sint n) + registered_tasks k \<le> ticks es \<longrightarrow> visits kstep (\<lambda>k'. current_tid k' = current_tid k) es k1
    else \<not> visits kstep (\<lambda>k'. current_tid k' = current_tid k) es k1"
proof -
  have n: "sint (jiffy k + n) = sint (jiffy k) + sint n"
    using assms(3,4) sint_greater_eq [of "jiffy k"] by (intro sint_add_no_overflow) auto
  have k1: "jiffy k1 = jiffy k" "kern_wf k1" "registered_tasks k1 = registered_tasks k"
    using kstep_jiffy [OF assms(1,5)] kstep_wf [OF assms(1), of "Sleep n"] assms(5) by auto
  have "asleep (current_tid k) (jiffy k + n) k1"
    using assms by (intro sleep_asleep) auto
  from wakes_in_time [OF k1(2) this, of "nat (sint n)" es] sleep_for_ever [OF k1(2) this, of es]
  show ?thesis using n k1 assms(3,4) by simp
qed

theorem sleep_at_most_witness:
  "\<exists>k1. kstep (Sleep 2) demo_kern = Some k1 \<and>
     visits kstep (\<lambda>k'. current_tid k' = 1) [Tick, Yield, Tick, Tick, Yield, Tick, Tick] k1"
proof -
  obtain k1 where k1: "kstep (Sleep 2) demo_kern = Some k1"
    using kstep_wf [OF demo_kern_wf] by blast
  from sleep_at_most [OF demo_kern_wf _ _ _ this, of "[Tick, Yield, Tick, Tick, Yield, Tick, Tick]"]
  have "visits kstep (\<lambda>k'. current_tid k' = current_tid demo_kern)
      [Tick, Yield, Tick, Tick, Yield, Tick, Tick] k1"
    by (simp add: demo_kern_fields)
  with k1 show ?thesis by (simp add: demo_kern_fields)
qed

text \<open>
  C36: the tick counter wraps after \<open>2 ^ 31\<close> ticks (24.8 days): a sleep whose deadline lies
  beyond that is over at once. The call returns with the sleeping task already ready, so the
  guarantee of the comment on \<open>sys_sleep\<close> fails.
\<close>

theorem sleep_wraps:
  assumes "kern_wf k" "1 \<le> current_tid k" "2 ^ 31 \<le> sint (jiffy k) + sint n"
  shows "\<exists>k'. k_task_sleep n k = Some k' \<and> state_of k' (current_tid k) = TASK_READY
    \<and> jiffy k' = jiffy k"
proof -
  let ?t = "current_tid k" and ?p = "sleep_pre n k"
  have idx: "?t < length (tasks k)" by (rule current_index [OF assms(1)])
  have le: "?t \<le> registered_tasks k" using assms(1) by (simp add: kern_wf_def kern_bounds_def)
  have bounds: "sint (jiffy k) < 2 ^ 31" "sint n < 2 ^ 31"
    using sint_less [of "jiffy k"] sint_less [of n] by simp_all
  have "sint (jiffy k + n) \<le> sint (jiffy k) + sint n - 2 ^ 32"
    using signed_take_bit_int_less_eq [of 31 "sint (jiffy k) + sint n"] assms(3)
    by (simp add: sint_word_ariths)
  then have "wakes ?p ?t"
    using bounds idx by (simp add: wakes_def state_of_sleep_pre sleep_until_sleep_pre cless_def)
  then have "woken ?p (registered_tasks k) ?t" using assms(2) le by (simp add: woken_def)
  moreover have "next_task ?p \<noteq> ?t"
    using next_task_cases [OF kern_pre_sleep [OF assms(1)]] assms(2)
    by (metis not_one_le_zero sleep_pre_fields(1))
  moreover obtain k' where "kstep (Sleep n) k = Some k'" using kstep_wf [OF assms(1)] by blast
  ultimately show ?thesis
    using kstep_switch_spec [OF assms(1), of "Sleep n" k'] by auto
qed

text \<open>A task that sleeps for \<open>2 ^ 31 - 1\<close> ms at jiffy 5 is ready again immediately.\<close>

theorem sleep_wraps_witness:
  "\<exists>k'. k_task_sleep 0x7FFFFFFF demo_kern = Some k' \<and> state_of k' 1 = TASK_READY"
  using sleep_wraps [OF demo_kern_wf, of "0x7FFFFFFF"] by (auto simp: demo_kern_fields)

definition two_ready :: "kern \<Rightarrow> bool" where
  "two_ready k \<longleftrightarrow> 1 \<le> current_tid k \<and>
     (\<exists>j. 1 \<le> j \<and> j \<le> registered_tasks k \<and> j \<noteq> current_tid k \<and> state_of k j = TASK_READY)"

lemma dispatch_reloads:
  assumes "kern_pre k" "next_task k \<noteq> 0" "k_dispatch k = Some k'"
  shows "SysTick_VAL k' = SysTick_LOAD k'" "SysTick_LOAD k' = SysTick_LOAD k"
proof -
  have "registered_tasks k \<noteq> 0"
    using assms(1,2) next_task_unregistered [of k] by (auto simp: kern_pre_def kern_bounds_def)
  then show "SysTick_VAL k' = SysTick_LOAD k'" "SysTick_LOAD k' = SysTick_LOAD k"
    using assms by (auto simp: k_dispatch_def peek_next_eq reload_systick_def)
qed

lemma yield_step:
  assumes "kern_wf k" "two_ready k"
  shows "\<exists>k'. kstep Yield k = Some k' \<and> kern_wf k' \<and> two_ready k' \<and> jiffy k' = jiffy k
    \<and> SysTick_VAL k' = SysTick_LOAD k'"
proof -
  let ?t = "current_tid k" and ?p = "before_dispatch Yield k"
  obtain j where j: "1 \<le> j" "j \<le> registered_tasks k" "j \<noteq> ?t" "state_of k j = TASK_READY"
    using assms(2) by (auto simp: two_ready_def)
  have pre: "kern_pre ?p" by (rule kern_pre_before_dispatch [OF assms(1)]) simp
  obtain k' where k': "kstep Yield k = Some k'" "kern_wf k'" "registered_tasks k' = registered_tasks k"
    using kstep_wf [OF assms(1)] by blast
  have nxt: "1 \<le> next_task ?p"
    using next_task_nearest(1) [OF pre, of j] j before_dispatch_other(1) [OF assms(1) j(3)]
      before_dispatch_fields by metis
  have idx: "?t < length (tasks k)" by (rule current_index [OF assms(1)])
  have ne: "next_task ?p \<noteq> ?t"
    using nxt next_task_cases [OF pre] by (metis before_dispatch_fields(1) not_one_le_zero)
  have "state_of k' ?t = TASK_READY" "current_tid k' = next_task ?p"
    using ne idx kstep_switch_spec [OF assms(1) _ k'(1)] by (auto simp: state_of_set_state)
  moreover have "?t \<le> registered_tasks k" "1 \<le> ?t"
    using assms by (auto simp: kern_wf_def kern_bounds_def two_ready_def)
  ultimately have "two_ready k'"
    using nxt ne k'(3) by (auto simp: two_ready_def intro!: exI [of _ ?t])
  moreover have "SysTick_VAL k' = SysTick_LOAD k'"
    using dispatch_reloads(1) [OF pre] nxt k'(1) kstep_switching [of Yield k] by simp
  ultimately show ?thesis using k' kstep_jiffy [OF assms(1) k'(1)] by auto
qed

text \<open>
  C37: switching tasks restarts the SysTick period, and only the tick advances \<open>jiffy\<close>. While
  two tasks yield to each other the clock stands still: after any number of yields \<open>jiffy\<close>
  is what it was, the timer has just been reloaded, and every sleeping task is still asleep.
\<close>

theorem yields_stop_the_clock:
  assumes "kern_wf k" "two_ready k" "asleep t d k" "\<not> cless d (jiffy k)"
  shows "\<exists>k'. run kstep (replicate (Suc n) Yield) k = Some k' \<and> jiffy k' = jiffy k
    \<and> SysTick_VAL k' = SysTick_LOAD k' \<and> asleep t d k'"
  using assms
proof (induction n arbitrary: k)
  case 0
  then show ?case
    using yield_step [of k] asleep_step [of k t d Yield] by fastforce
next
  case (Suc n)
  obtain k1 where k1: "kstep Yield k = Some k1" "kern_wf k1" "two_ready k1" "jiffy k1 = jiffy k"
    using yield_step [OF Suc.prems(1,2)] by blast
  moreover from this have "asleep t d k1"
    using Suc.prems(4) by (intro asleep_step [OF Suc.prems(1,3) k1(1)]) simp
  ultimately show ?case using Suc.IH [of k1] Suc.prems(4) by auto
qed

theorem yields_stop_the_clock_witness:
  "\<exists>k'. run kstep (replicate 1000 Yield) demo_sleeper = Some k' \<and> jiffy k' = 5
    \<and> SysTick_VAL k' = SysTick_LOAD k' \<and> asleep 3 100 k'"
proof -
  have "kern_wf demo_sleeper" "asleep 3 100 demo_sleeper" "\<not> cless 100 (jiffy demo_sleeper)"
    by code_simp+
  moreover have "two_ready demo_sleeper"
    unfolding two_ready_def
  proof (intro conjI exI)
    show "1 \<le> current_tid demo_sleeper" "1 \<le> (2::nat)" "2 \<le> registered_tasks demo_sleeper"
      "2 \<noteq> current_tid demo_sleeper" "state_of demo_sleeper 2 = TASK_READY"
      by code_simp+
  qed
  ultimately show ?thesis
    using yields_stop_the_clock [of demo_sleeper 3 100 999]
    by (simp add: demo_sleeper_def demo_kern_def)
qed

section \<open>Signals\<close>

text \<open>
  C38: \<open>signal_wait\<close> does not wait for its signal. Whatever signals have been raised, its loop ends at
  the next tick, which clears \<open>signal_flag\<close> and leaves \<open>signals_flags\<close> as it is, and the state of
  the calling task after that tick depends on the tick counter alone: the wake-up loop takes the task for
  a sleeper with the deadline 0. If the counter is positive after the tick, as a signed number, the task is
  \<open>TASK_READY\<close> again although no signal was raised; if not (once the counter has wrapped
  to the negative half of its range, until it reaches 0) it is still blocked then.
\<close>

theorem signal_wait_ignores_signals:
  assumes "kern_wf k" "1 \<le> current_tid k" "s \<noteq> 0"
  shows "\<exists>k'. signal_wait scheduler s k = Some k' \<and> jiffy k' = jiffy k + 1 \<and>
    signal_flag k' = 0 \<and> signals_flags k' = signals_flags k \<and>
    state_of k' (current_tid k) = (if 0 < sint (jiffy k + 1) then TASK_READY else TASK_CREATED OR TASK_BLOCKED)"
proof -
  let ?t = "current_tid k" and ?k = "signal_wait_begin s k"
  let ?p = "before_dispatch Tick ?k"
  have wf: "kern_wf ?k" by (rule kern_wf_signal(2) [OF assms(1)])
  have idx: "?t < length (tasks ?k)" using current_index [OF assms(1)] by simp
  have le: "?t \<le> registered_tasks k" using assms(1) by (simp add: kern_wf_def kern_bounds_def)
  obtain k' where k': "kstep Tick ?k = Some k'" "kern_wf k'" using kstep_wf [OF wf] by blast
  have pre: "kern_pre ?p" by (rule kern_pre_before_dispatch [OF wf]) simp
  obtain k2 where k2: "k_dispatch ?p = Some k2" "signal_flag k2 = signal_flag ?p"
    "signals_flags k2 = signals_flags ?p"
    by (rule dispatch_spec [OF pre])
  have flags: "signal_flag k' = 0" "signals_flags k' = signals_flags k"
    using k2 k'(1) kstep_switching [of Tick ?k] by (auto simp: signal_wait_begin_def)
  have st: "state_of ?p ?t = TASK_CREATED OR TASK_BLOCKED"
    using assms(3) idx by (simp add: state_of_tick_pre)
  then have "mutex_waiter ?p (registered_tasks k) \<noteq> ?t"
    using mutex_waiter_blocked [of ?p "registered_tasks k"] assms(2) by (auto split: if_splits)
  then have "woken ?p (registered_tasks k) ?t \<longleftrightarrow> 0 < sint (jiffy k + 1)"
    using st assms(2,3) le idx
    by (auto simp: woken_def wakes_def sleep_until_tick_pre cless_def)
  moreover have "next_task ?p \<noteq> ?t"
    using next_task_cases [OF pre] assms(2)
    by (metis before_dispatch_fields(1) not_one_le_zero signal_fields(6))
  ultimately have "state_of k' ?t = (if 0 < sint (jiffy k + 1) then TASK_READY else TASK_CREATED OR TASK_BLOCKED)"
    "jiffy k' = jiffy k + 1"
    using kstep_switch_spec [OF wf _ k'(1)] st by auto
  moreover have "signal_wait scheduler s k = Some k'"
    using k'(1) flags(1) assms(3)
    by (simp add: signal_wait_def signal_wait_spin.simps [of _ ?k] signal_wait_spin.simps [of _ k'])
  ultimately show ?thesis using flags by blast
qed

theorem signal_wait_ignores_signals_witness:
  "\<exists>k'. signal_wait scheduler SIGNALS_TASK demo_kern = Some k' \<and> state_of k' 1 = TASK_READY
    \<and> signals_flags k' = 0"
  using signal_wait_ignores_signals [OF demo_kern_wf, of SIGNALS_TASK]
  by (auto simp: demo_kern_fields SIGNALS_TASK_def demo_kern_def)

section \<open>A lone task\<close>

text \<open>
  A task that yields while no other task can run does not go on: the idle task runs, and
  the yielding task waits, ready, for the next tick.
\<close>

theorem lone_yield_runs_idle:
  assumes "kern_wf k" "1 \<le> current_tid k"
    and "\<forall>j. 1 \<le> j \<and> j \<le> registered_tasks k \<and> j \<noteq> current_tid k \<longrightarrow>
      state_of k j = TASK_BLOCKED \<and> \<not> cless (sleep_until (tasks k ! j)) (jiffy k)"
  shows "\<exists>k'. k_task_yield k = Some k' \<and> current_tid k' = 0 \<and> state_of k' (current_tid k) = TASK_READY"
proof -
  let ?p = "before_dispatch Yield k"
  have pre: "kern_pre ?p" by (rule kern_pre_before_dispatch [OF assms(1)]) simp
  obtain k' where k': "kstep Yield k = Some k'" using kstep_wf [OF assms(1)] by blast
  have idx: "current_tid k < length (tasks k)" by (rule current_index [OF assms(1)])
  have "next_task ?p = 0"
  proof (rule next_task_cases [OF pre])
    assume n: "next_task ?p \<noteq> 0" "next_task ?p \<noteq> current_tid ?p" "ready_after_wake ?p (next_task ?p)"
    have "next_task ?p \<le> registered_tasks k" using next_task_le [OF pre] by simp
    with n assms(3) before_dispatch_other [OF assms(1), of "next_task ?p" Yield]
    have "next_task ?p = mutex_waiter ?p (registered_tasks k)" 
      by (auto simp: ready_after_wake_def woken_def wakes_def)
    with n mutex_waiter_blocked [of ?p "registered_tasks k"] show ?thesis
      using assms(3) before_dispatch_other(1) [OF assms(1), of "next_task ?p" Yield]
        \<open>next_task ?p \<le> registered_tasks k\<close> by auto
  qed
  then show ?thesis
    using kstep_switch_spec [OF assms(1) _ k'] k' assms(2) idx by (auto simp: state_of_set_state)
qed
theorem lone_yield_runs_idle_witness:
  "\<exists>k'. k_task_yield demo_alone = Some k' \<and> current_tid k' = 0 \<and> state_of k' 1 = TASK_READY"
proof -
  have wf: "kern_wf demo_alone" by code_simp
  have others: "\<forall>j. 1 \<le> j \<and> j \<le> registered_tasks demo_alone \<and> j \<noteq> current_tid demo_alone \<longrightarrow>
      state_of demo_alone j = TASK_BLOCKED \<and> \<not> cless (sleep_until (tasks demo_alone ! j)) (jiffy demo_alone)"
  proof (intro allI impI)
    fix j assume "1 \<le> j \<and> j \<le> registered_tasks demo_alone \<and> j \<noteq> current_tid demo_alone"
    then have "j = 2 \<or> j = 3" by (auto simp: demo_alone_def demo_kern_def)
    then show "state_of demo_alone j = TASK_BLOCKED \<and>
        \<not> cless (sleep_until (tasks demo_alone ! j)) (jiffy demo_alone)"
      by (elim disjE; hypsubst; code_simp)
  qed
  have "1 \<le> current_tid demo_alone" by code_simp
  from lone_yield_runs_idle [OF wf this others] show ?thesis
    by (simp add: demo_alone_def demo_kern_def)
qed

end
