(* ===== verification/Mutex_Protocol.thy ===== *)
theory Mutex_Protocol
  imports Demo_Kernel
begin

text \<open>
  The single mutex of src/src/scheduler.c (\<open>k_mutex_lock\<close>, \<open>k_mutex_unlock\<close> and the
  hand-over in \<open>k_task_update_state\<close>): mutual exclusion for clients that pair their calls,
  the order of the hand-over, and the starvation this order allows.
\<close>

section \<open>Clients of the mutex\<close>

text \<open>The tasks whose \<open>mutex_lock\<close>, pending in \<open>k\<close>, has been granted in \<open>k'\<close>.\<close>

definition granted :: "kern \<Rightarrow> kern \<Rightarrow> nat set" where
  "granted k k' = {i. 1 \<le> i \<and> i \<le> registered_tasks k \<and>
     state_of k i = TASK_MUTEX_BLOCKED \<and> state_of k' i \<noteq> TASK_MUTEX_BLOCKED}"

text \<open>
  A configuration is a kernel state with the set of tasks inside their critical sections.
  The clients keep to the discipline of src/src/main.c: a task locks only outside its
  critical section and unlocks only inside it. Any other event may happen at any time.
\<close>

inductive lock_step :: "kern \<times> nat set \<Rightarrow> kern \<times> nat set \<Rightarrow> bool" where
  lock_free: "mutex k = 0 \<Longrightarrow> 1 \<le> current_tid k \<Longrightarrow> current_tid k \<notin> cs \<Longrightarrow> kstep Lock k = Some k' \<Longrightarrow>
    lock_step (k, cs) (k', insert (current_tid k) cs)"
| lock_wait: "mutex k \<noteq> 0 \<Longrightarrow> 1 \<le> current_tid k \<Longrightarrow> current_tid k \<notin> cs \<Longrightarrow> kstep Lock k = Some k' \<Longrightarrow>
    lock_step (k, cs) (k', cs \<union> granted k k')"
| unlock: "current_tid k \<in> cs \<Longrightarrow> kstep Unlock k = Some k' \<Longrightarrow>
    lock_step (k, cs) (k', cs - {current_tid k})"
| other: "e \<noteq> Lock \<Longrightarrow> e \<noteq> Unlock \<Longrightarrow> kstep e k = Some k' \<Longrightarrow>
    lock_step (k, cs) (k', cs \<union> granted k k')"

definition lock_init :: "kern \<times> nat set \<Rightarrow> bool" where
  "lock_init c \<longleftrightarrow> kern_wf (fst c) \<and> mutex (fst c) = 0 \<and> snd c = {} \<and>
     (\<forall>i \<le> registered_tasks (fst c). state_of (fst c) i \<noteq> TASK_MUTEX_BLOCKED)"

definition lock_inv :: "kern \<times> nat set \<Rightarrow> bool" where
  "lock_inv c \<longleftrightarrow> kern_wf (fst c) \<and>
     (if mutex (fst c) = 0 then snd c = {} else \<exists>h. snd c = {h}) \<and>
     (\<forall>i \<in> snd c. 1 \<le> i \<and> i \<le> registered_tasks (fst c) \<and> state_of (fst c) i \<noteq> TASK_MUTEX_BLOCKED)"

lemma waiters_before_dispatch:
  assumes "kern_wf k" "switching e k" "i \<le> registered_tasks k"
  shows "state_of (before_dispatch e k) i = TASK_MUTEX_BLOCKED \<longleftrightarrow>
    state_of k i = TASK_MUTEX_BLOCKED \<or> e = Lock \<and> i = current_tid k"
proof (cases "i = current_tid k")
  case True
  then have "state_of k i = TASK_RUNNING" using assms(1,3) by (simp add: kern_wf_def)
  then show ?thesis
    using True assms(2) current_index [OF assms(1)]
    by (cases e) (auto simp: state_of_tick_pre state_of_sleep_pre state_of_set_state)
qed (simp add: before_dispatch_other [OF assms(1)])

lemma switch_blocked:
  assumes "kern_wf k" "switching e k" "kstep e k = Some k'" "1 \<le> i" "i \<le> registered_tasks k"
  shows "state_of k' i = TASK_MUTEX_BLOCKED \<longleftrightarrow>
    (state_of k i = TASK_MUTEX_BLOCKED \<or> e = Lock \<and> i = current_tid k) \<and>
    \<not> (mutex k = 0 \<and> i = mutex_waiter (before_dispatch e k) (registered_tasks k))"
proof -
  let ?p = "before_dispatch e k"
  let ?w = "mutex k = 0 \<and> i = mutex_waiter ?p (registered_tasks k)"
  note spec = kstep_switch_spec(2) [OF assms(1-3), of i]
  have "state_of k' i = TASK_MUTEX_BLOCKED \<longleftrightarrow> state_of ?p i = TASK_MUTEX_BLOCKED \<and> \<not> ?w"
  proof (cases "state_of ?p i = TASK_MUTEX_BLOCKED")
    case True
    then have wk: "woken ?p (registered_tasks k) i \<longleftrightarrow> ?w"
      using assms(4,5) by (auto simp: woken_def wakes_def)
    have "next_task ?p \<noteq> i" if "\<not> ?w"
      by (rule next_task_cases [OF kern_pre_before_dispatch [OF assms(1,2)]])
        (use that True wk assms(4) in \<open>auto simp: ready_after_wake_def\<close>)
    then show ?thesis using spec True wk by auto
  next
    case False
    then show ?thesis using spec by auto
  qed
  then show ?thesis by (simp only: waiters_before_dispatch [OF assms(1,2,5)])
qed

lemma granted_switch:
  assumes "kern_wf k" "switching e k" "kstep e k = Some k'"
  shows "granted k k' =
    (if mutex k = 0 \<and> mutex_waiter (before_dispatch e k) (registered_tasks k) \<noteq> 0
     then {mutex_waiter (before_dispatch e k) (registered_tasks k)} else {})"
proof -
  let ?w = "mutex_waiter (before_dispatch e k) (registered_tasks k)"
  have "state_of k ?w = TASK_MUTEX_BLOCKED" if "?w \<noteq> 0" "mutex k = 0"
    using that mutex_waiter_blocked [OF that(1)] mutex_waiter_le [of "before_dispatch e k" "registered_tasks k"]
      waiters_before_dispatch [OF assms(1,2), of ?w] assms(2) by auto
  then show ?thesis
    using switch_blocked [OF assms] mutex_waiter_le [of "before_dispatch e k" "registered_tasks k"]
    by (auto simp: granted_def)
qed

lemma granted_no_switch: "\<not> switching e k \<Longrightarrow> kstep e k = Some k' \<Longrightarrow> granted k k' = {}"
  using kstep_not_switching [of e k] by (auto simp: granted_def state_of_def)

lemma lock_inv_switch:
  assumes "lock_inv (k, cs)" "switching e k" "kstep e k = Some k'" "e = Lock \<Longrightarrow> current_tid k \<notin> cs"
  shows "lock_inv (k', cs \<union> granted k k')"
proof -
  have wf: "kern_wf k" using assms(1) by (simp add: lock_inv_def)
  have wf': "kern_wf k'" "registered_tasks k' = registered_tasks k"
    using kstep_wf [OF wf, of e] assms(3) by auto
  have "mutex k' = (if mutex k = 0 \<and> mutex_waiter (before_dispatch e k) (registered_tasks k) \<noteq> 0
      then 1 else mutex k)"
    by (rule kstep_switch_spec(5) [OF wf assms(2,3)])
  moreover have "1 \<le> i \<and> i \<le> registered_tasks k' \<and> state_of k' i \<noteq> TASK_MUTEX_BLOCKED"
    if "i \<in> cs \<union> granted k k'" for i
    using that assms(1,4) switch_blocked [OF wf assms(2,3), of i] wf'(2)
    by (auto simp: lock_inv_def granted_def)
  ultimately show ?thesis
    using assms(1) wf' granted_switch [OF wf assms(2,3)] by (auto simp: lock_inv_def split: if_splits)
qed

interpretation mutex_protocol: inductive_invariant lock_init lock_step lock_inv
proof unfold_locales
  fix c :: "kern \<times> nat set"
  show "lock_init c \<Longrightarrow> lock_inv c" by (simp add: lock_init_def lock_inv_def)
next
  fix c c' :: "kern \<times> nat set"
  assume inv: "lock_inv c" and step: "lock_step c c'"
  from step show "lock_inv c'"
  proof (cases rule: lock_step.cases)
    case (lock_free k cs k')
    then show ?thesis using inv by (auto simp: lock_inv_def k_mutex_lock_def kern_wf_def kern_bounds_def)
  next
    case (lock_wait k cs k')
    then show ?thesis using inv lock_inv_switch [of k cs Lock k'] by simp
  next
    case (unlock k cs k')
    then show ?thesis using inv by (auto simp: lock_inv_def k_mutex_unlock_def split: if_splits)
  next
    case (other e k k' cs)
    show ?thesis
    proof (cases "switching e k")
      case True
      then show ?thesis using other inv lock_inv_switch [of k cs e k'] by simp
    next
      case False
      then have "mutex k' = mutex k" "tasks k' = tasks k" "registered_tasks k' = registered_tasks k"
        using other by (cases e; auto)+
      then show ?thesis
        using other inv granted_no_switch [OF False] kstep_wf [of k e]
        by (auto simp: lock_inv_def state_of_def)
    qed
  qed
qed
section \<open>Properties\<close>

text \<open>
  C3: mutual exclusion. In every configuration that clients with paired calls can reach,
  under any interrupts, at most one task is in its critical section, and the variable
  \<open>mutex\<close> is zero exactly when none is.
\<close>

theorem mutual_exclusion:
  assumes "reachable lock_init lock_step (k, cs)"
  shows "card cs = (if mutex k = 0 then 0 else 1) \<and> (\<forall>i \<in> cs. \<forall>j \<in> cs. i = j)"
  using mutex_protocol.reachable_invar [OF assms] by (auto simp: lock_inv_def split: if_splits)

theorem mutual_exclusion_witness:
  "\<exists>k. reachable lock_init lock_step (k, {1}) \<and> mutex k = 1 \<and>
    card {1 :: nat} = (if mutex k = 0 then 0 else 1)"
proof -
  have "lock_init (demo_free, {})"
    unfolding lock_init_def fst_conv snd_conv by (intro conjI; code_simp)
  then have "reachable lock_init lock_step (demo_free, {})" by (rule reachable_init)
  moreover have "kstep Lock demo_free = Some (demo_free\<lparr>mutex := 1\<rparr>)"
    by (simp add: k_mutex_lock_def demo_free_def)
  then have "lock_step (demo_free, {}) (demo_free\<lparr>mutex := 1\<rparr>, insert 1 {})"
    using lock_free [of demo_free "{}"] by (simp add: demo_free_def demo_kern_fields)
  ultimately have r: "reachable lock_init lock_step (demo_free\<lparr>mutex := 1\<rparr>, {1})"
    by (rule reachable_step)
  show ?thesis
    using mutual_exclusion [OF r] r by (intro exI [of _ "demo_free\<lparr>mutex := 1\<rparr>"]) simp
qed

text \<open>
  C20: when the mutex is free at a task switch and tasks wait for it, exactly the waiting task
  with the lowest number receives it: the mutex is taken again in its name, it is made ready
  (or runs), and every other waiter goes on waiting.
\<close>

theorem mutex_handover:
  assumes "kern_wf k" "mutex k = 0" "switching e k"
    and "1 \<le> w" "w \<le> registered_tasks k" "state_of k w = TASK_MUTEX_BLOCKED"
    and "\<forall>i. 1 \<le> i \<and> i < w \<longrightarrow> state_of k i \<noteq> TASK_MUTEX_BLOCKED"
  shows "\<exists>k'. kstep e k = Some k' \<and> mutex k' = 1 \<and> state_of k' w \<in> {TASK_READY, TASK_RUNNING} \<and>
    (\<forall>i. 1 \<le> i \<and> i \<le> registered_tasks k \<and> i \<noteq> w \<and> state_of k i = TASK_MUTEX_BLOCKED \<longrightarrow>
       state_of k' i = TASK_MUTEX_BLOCKED)"
proof -
  let ?p = "before_dispatch e k"
  have "e \<noteq> Lock" using assms(2,3) by auto
  then have waiters: "state_of ?p i = TASK_MUTEX_BLOCKED \<longleftrightarrow> state_of k i = TASK_MUTEX_BLOCKED"
    if "i \<le> registered_tasks k" for i
    using waiters_before_dispatch [OF assms(1,3) that] by simp
  have mw: "mutex_waiter ?p (registered_tasks k) = w"
    by (rule mutex_waiter_eqI) (use assms(4-7) waiters in auto)
  obtain k' where k': "kstep e k = Some k'" using kstep_wf [OF assms(1)] by blast
  note spec = kstep_switch_spec [OF assms(1,3) k']
  have "mutex k' = 1" using mw assms(2,4) by (simp add: spec(5))
  moreover have "state_of k' w \<in> {TASK_READY, TASK_RUNNING}"
    using mw assms(2,4,5) by (simp add: spec(2) woken_def)
  ultimately show ?thesis using k' switch_blocked [OF assms(1,3) k'] mw by auto
qed

theorem mutex_handover_witness:
  "\<exists>k'. kstep Tick (k_mutex_unlock demo_kern) = Some k' \<and> mutex k' = 1 \<and>
     state_of k' 3 \<in> {TASK_READY, TASK_RUNNING}"
proof -
  have wf: "kern_wf (k_mutex_unlock demo_kern)" by code_simp
  have first: "\<forall>i. 1 \<le> i \<and> i < 3 \<longrightarrow> state_of (k_mutex_unlock demo_kern) i \<noteq> TASK_MUTEX_BLOCKED"
  proof (intro allI impI)
    fix i :: nat assume "1 \<le> i \<and> i < 3"
    then have "i = 1 \<or> i = 2" by auto
    then show "state_of (k_mutex_unlock demo_kern) i \<noteq> TASK_MUTEX_BLOCKED"
      using demo_kern_states by (auto simp: k_mutex_unlock_def)
  qed
  have "\<exists>k'. kstep Tick (k_mutex_unlock demo_kern) = Some k' \<and> mutex k' = 1 \<and>
    state_of k' 3 \<in> {TASK_READY, TASK_RUNNING} \<and>
    (\<forall>i. 1 \<le> i \<and> i \<le> registered_tasks (k_mutex_unlock demo_kern) \<and> i \<noteq> 3 \<and>
       state_of (k_mutex_unlock demo_kern) i = TASK_MUTEX_BLOCKED \<longrightarrow> state_of k' i = TASK_MUTEX_BLOCKED)"
    by (rule mutex_handover [OF wf _ _ _ _ _ first])
      (use demo_kern_states in \<open>simp_all add: k_mutex_unlock_def demo_kern_fields\<close>)
  then show ?thesis by blast
qed

text \<open>One round: 1 releases, 2 gets the mutex, 1 asks for it, 2 releases, 1 gets it, 2 asks for it.\<close>

definition contended_round :: "kevent list" where
  "contended_round = [Unlock, Yield, Tick, Lock, Unlock, Yield, Tick, Lock]"

lemma contended_round_step:
  "run kstep contended_round (demo_contended j v) = Some (demo_contended (j + 2) 31999)"
proof -
  let ?r = "run kstep contended_round (demo_contended j v)"
  have "case ?r of None \<Rightarrow> False | Some k \<Rightarrow>
      tasks k = map demo_task [2, 4, 16, 16, 0, 0, 0, 0] \<and> current_tid k = 1 \<and>
      registered_tasks k = 3 \<and> mutex k = 1 \<and> signal_flag k = 0 \<and> signals_flags k = 0 \<and>
      SysTick_VAL k = 31999 \<and> SysTick_LOAD k = 31999 \<and> irq_enabled k"
    by code_simp
  moreover have "case ?r of None \<Rightarrow> False | Some k \<Rightarrow> jiffy k = j + 1 + 1"
    by code_simp
  moreover have "case ?r of None \<Rightarrow> False | Some k \<Rightarrow> ram k a = 0" for a
    by code_simp
  ultimately obtain k where k: "?r = Some k" "tasks k = map demo_task [2, 4, 16, 16, 0, 0, 0, 0]"
    "current_tid k = 1" "registered_tasks k = 3" "mutex k = 1" "signal_flag k = 0"
    "signals_flags k = 0" "SysTick_VAL k = 31999" "SysTick_LOAD k = 31999" "irq_enabled k"
    "jiffy k = j + 2" "\<And>a. ram k a = 0"
    by (cases ?r) (auto simp: add.assoc)
  then have "k = demo_contended (j + 2) 31999"
    by (intro kern.equality) (auto simp: demo_contended_def demo_kern_def)
  with k(1) show ?thesis by simp
qed

lemma contended_round_skips_3:
  "\<not> visits kstep (\<lambda>k. current_tid k = 3) contended_round (demo_contended j v)"
  by code_simp

text \<open>
  C35: the hand-over by task number starves. With tasks 1 and 2 taking the mutex in turn and
  pairing their calls, task 3 waits for it for ever: after any number of rounds, in each of
  which the mutex is released twice, task 3 has not run and still has the state
  \<open>TASK_MUTEX_BLOCKED\<close>.
\<close>

theorem mutex_starves:
  "\<exists>k. run kstep (concat (replicate n contended_round)) (demo_contended j v) = Some k \<and>
     current_tid k = 1 \<and> state_of k 3 = TASK_MUTEX_BLOCKED \<and> jiffy k = j + 2 * of_nat n \<and>
     \<not> visits kstep (\<lambda>k. current_tid k = 3) (concat (replicate n contended_round)) (demo_contended j v)"
proof (induction n arbitrary: j v)
  case 0
  have "current_tid (demo_contended j v) = 1" "state_of (demo_contended j v) 3 = TASK_MUTEX_BLOCKED"
    "jiffy (demo_contended j v) = j"
    by (simp_all add: demo_contended_def demo_kern_def state_of_def demo_task_def)
  then show ?case by simp
next
  case (Suc n)
  obtain k where "run kstep (concat (replicate n contended_round)) (demo_contended (j + 2) 31999) = Some k"
    "current_tid k = 1" "state_of k 3 = TASK_MUTEX_BLOCKED" "jiffy k = j + 2 + 2 * of_nat n"
    "\<not> visits kstep (\<lambda>k. current_tid k = 3) (concat (replicate n contended_round)) (demo_contended (j + 2) 31999)"
    using Suc [of "j + 2" 31999] by blast
  then show ?case
    using contended_round_step [of j v] contended_round_skips_3 [of j v]
    by (simp add: run_append visits_append_iff algebra_simps)
qed

end
