(* ===== verification/Supervisor.thy ===== *)
theory Supervisor
  imports Demo_Kernel
begin

text \<open>
  The exception handlers: the supervisor-call dispatch and the fault report of
  src/src/isr.c, the call numbers of src/src/include/syscall.h, the wrappers in
  src/src/syscall.c and src/src/mutex.c that issue them, and the assembly of
  src/src/arch/arm/cortex-m0/scheduler_s.s and isr_s.s that saves and restores the
  processor around the C code.
\<close>

section \<open>Supervisor calls\<close>

datatype supervisor_function_e = SVC_YIELD | SVC_SLEEP | SVC_MUTEX_LOCK | SVC_MUTEX_UNLOCK

text \<open>The C values of the enumeration, in order from 0.\<close>

fun svc_code :: "supervisor_function_e \<Rightarrow> u32" where
  "svc_code SVC_YIELD = 0"
| "svc_code SVC_SLEEP = 1"
| "svc_code SVC_MUTEX_LOCK = 2"
| "svc_code SVC_MUTEX_UNLOCK = 3"

text \<open>
  \<open>svc_args\<close> points to the frame R0, R1, R2, R3, R12, LR, PC, xPSR that the processor has
  stacked; the call number is the byte before the return address, in the program memory
  \<open>code\<close>. A char is unsigned.
\<close>

definition svc_arg :: "kern \<Rightarrow> u32 \<Rightarrow> nat \<Rightarrow> u32" where
  "svc_arg k svc_args i = ram k (svc_args + 4 * of_nat i)"

definition svc_number :: "(u32 \<Rightarrow> u8) \<Rightarrow> u32 \<Rightarrow> kern \<Rightarrow> u32" where
  "svc_number code svc_args k = ucast (code (svc_arg k svc_args 6 - 2))"

definition SVC_C_Handler :: "(u32 \<Rightarrow> u8) \<Rightarrow> u32 \<Rightarrow> kern \<Rightarrow> kern option" where
  "SVC_C_Handler code svc_args k =
     (let n = svc_number code svc_args k
      in if n = svc_code SVC_SLEEP then
           (let svc_sleep_time = svc_arg k svc_args 0 in k_task_sleep svc_sleep_time k)
         else if n = svc_code SVC_YIELD then k_task_yield k
         else if n = svc_code SVC_MUTEX_LOCK then k_mutex_lock k
         else if n = svc_code SVC_MUTEX_UNLOCK then Some (k_mutex_unlock k)
         else Some k)"

text \<open>
  The user side: an SVC instruction with its number, and the register R0 it is issued
  with (the argument of \<open>sys_sleep\<close>; the other calls leave R0 as it is).
\<close>

record svc_call =
  svc_imm :: supervisor_function_e
  svc_r0 :: u32

definition sys_yield :: "u32 \<Rightarrow> svc_call" where
  "sys_yield r0 = \<lparr>svc_imm = SVC_YIELD, svc_r0 = r0\<rparr>"

definition sys_sleep :: "cint \<Rightarrow> svc_call" where
  "sys_sleep ms = \<lparr>svc_imm = SVC_SLEEP, svc_r0 = ms\<rparr>"

definition mutex_lock :: "u32 \<Rightarrow> svc_call" where
  "mutex_lock r0 = \<lparr>svc_imm = SVC_MUTEX_LOCK, svc_r0 = r0\<rparr>"

definition mutex_unlock :: "u32 \<Rightarrow> svc_call" where
  "mutex_unlock r0 = \<lparr>svc_imm = SVC_MUTEX_UNLOCK, svc_r0 = r0\<rparr>"

text \<open>
  The stack frame at \<open>a\<close> and the program memory show the call \<open>c\<close>: R0 is at the bottom of
  the frame, and the low byte of the instruction before the return address is the number.
\<close>

definition issued :: "(u32 \<Rightarrow> u8) \<Rightarrow> u32 \<Rightarrow> svc_call \<Rightarrow> kern \<Rightarrow> bool" where
  "issued code a c k \<longleftrightarrow> ram k a = svc_r0 c \<and>
     ucast (code (ram k (a + 24) - 2)) = svc_code (svc_imm c)"

text \<open>The kernel event a call asks for.\<close>

fun svc_event :: "svc_call \<Rightarrow> kevent" where
  "svc_event c = (case svc_imm c of
     SVC_YIELD \<Rightarrow> Yield | SVC_SLEEP \<Rightarrow> Sleep (svc_r0 c)
   | SVC_MUTEX_LOCK \<Rightarrow> Lock | SVC_MUTEX_UNLOCK \<Rightarrow> Unlock)"

text \<open>A call number outside the enumeration has no effect.\<close>

lemma svc_unknown:
  "3 < svc_number code a k \<Longrightarrow> SVC_C_Handler code a k = Some k"
  by (auto simp: SVC_C_Handler_def Let_def)

section \<open>Saving and restoring the processor\<close>

text \<open>The part of the processor the assembly moves: the process stack pointer and R4 to R7.\<close>

record cpu =
  psp :: u32
  r4_r7 :: "u32 list"

definition task_save_context :: "cpu \<Rightarrow> kern \<Rightarrow> kern" where
  "task_save_context c k =
     k\<lparr>tasks := (tasks k)[current_tid k := (tasks k ! current_tid k)
        \<lparr>sp := psp c, registers := r4_r7 c\<rparr>]\<rparr>"

definition task_restore_context :: "kern \<Rightarrow> cpu" where
  "task_restore_context k =
     \<lparr>psp = sp (tasks k ! current_tid k), r4_r7 = registers (tasks k ! current_tid k)\<rparr>"

definition SysTick_Handler :: "cpu \<Rightarrow> kern \<Rightarrow> (cpu \<times> kern) option" where
  "SysTick_Handler c k = do {
     k1 \<leftarrow> scheduler (task_save_context c k);
     Some (task_restore_context k1, k1)
   }"

definition SVC_Handler :: "(u32 \<Rightarrow> u8) \<Rightarrow> cpu \<Rightarrow> kern \<Rightarrow> (cpu \<times> kern) option" where
  "SVC_Handler code c k = do {
     k1 \<leftarrow> SVC_C_Handler code (psp c) (task_save_context c k);
     Some (task_restore_context k1, k1)
   }"

text \<open>
  A history of exceptions. Between two of them the running task has changed the processor,
  the RAM and the signal variables as it likes: each entry carries what the exception finds.
\<close>

datatype exn = SysTickExn | SVCallExn

record exn_entry =
  entry_exn :: exn
  entry_cpu :: cpu
  entry_ram :: "u32 \<Rightarrow> u32"
  entry_signal_flag :: cint
  entry_signals_flags :: u32

definition at_entry :: "exn_entry \<Rightarrow> kern \<Rightarrow> kern" where
  "at_entry x k = k\<lparr>ram := entry_ram x, signal_flag := entry_signal_flag x,
     signals_flags := entry_signals_flags x\<rparr>"

definition handle :: "(u32 \<Rightarrow> u8) \<Rightarrow> exn_entry \<Rightarrow> kern \<Rightarrow> (cpu \<times> kern) option" where
  "handle code x k = (case entry_exn x of
       SysTickExn \<Rightarrow> SysTick_Handler (entry_cpu x) (at_entry x k)
     | SVCallExn \<Rightarrow> SVC_Handler code (entry_cpu x) (at_entry x k))"

fun handle_all :: "(u32 \<Rightarrow> u8) \<Rightarrow> exn_entry list \<Rightarrow> cpu \<times> kern \<Rightarrow> (cpu \<times> kern) option" where
  "handle_all code [] s = Some s"
| "handle_all code (x # xs) s = do { s' \<leftarrow> handle code x (snd s); handle_all code xs s' }"

text \<open>The context saved for a task.\<close>

definition saved_cpu :: "kern \<Rightarrow> nat \<Rightarrow> cpu" where
  "saved_cpu k t = \<lparr>psp = sp (tasks k ! t), r4_r7 = registers (tasks k ! t)\<rparr>"

lemma saved_cpu_update:
  "i < length (tasks k) \<Longrightarrow> sp ts = sp (tasks k ! i) \<Longrightarrow> registers ts = registers (tasks k ! i) \<Longrightarrow>
     saved_cpu (k\<lparr>tasks := (tasks k)[i := ts]\<rparr>) = saved_cpu k"
  by (auto simp: saved_cpu_def nth_list_update fun_eq_iff)

lemma saved_cpu_set_state [simp]: "saved_cpu (set_state i st k) = saved_cpu k"
proof (cases "i < length (tasks k)")
  case True
  then show ?thesis by (simp add: set_state_def saved_cpu_update)
qed (simp add: set_state_def saved_cpu_def list_update_beyond fun_eq_iff)

lemma saved_cpu_frame [simp]:
  "saved_cpu (k\<lparr>mutex := m\<rparr>) = saved_cpu k"
  "saved_cpu (k\<lparr>jiffy := j\<rparr>) = saved_cpu k"
  "saved_cpu (k\<lparr>current_tid := t\<rparr>) = saved_cpu k"
  "saved_cpu (reload_systick p k) = saved_cpu k"
  by (auto simp: saved_cpu_def fun_eq_iff)

lemma saved_cpu_update_one [simp]: "saved_cpu (k_task_update_one i k) = saved_cpu k"
  by (simp add: k_task_update_one_def Let_def)

lemma saved_cpu_update_state [simp]: "saved_cpu (k_task_update_state k) = saved_cpu k"
proof -
  have "saved_cpu (fold k_task_update_one is k) = saved_cpu k" for "is"
    by (induction "is" arbitrary: k) simp_all
  then show ?thesis by (simp only: k_task_update_state_def)
qed

lemma saved_cpu_dispatch: "k_dispatch k = Some k' \<Longrightarrow> saved_cpu k' = saved_cpu k"
  by (auto simp: k_dispatch_def k_task_peek_next_def Let_def Option.bind_eq_Some_conv split: if_splits)

lemma saved_cpu_before_dispatch:
  "kern_wf k \<Longrightarrow> saved_cpu (before_dispatch e k) = saved_cpu k"
  using current_index [of k]
  by (cases e) (auto simp: tick_pre_def sleep_pre_def Let_def saved_cpu_def set_state_def
      nth_list_update fun_eq_iff)

lemma saved_cpu_kstep: "kern_wf k \<Longrightarrow> kstep e k = Some k' \<Longrightarrow> saved_cpu k' = saved_cpu k"
proof (cases "switching e k")
  case True
  assume "kern_wf k" "kstep e k = Some k'"
  then show ?thesis
    using kstep_switching [OF True] saved_cpu_dispatch saved_cpu_before_dispatch by metis
next
  case False
  assume "kstep e k = Some k'"
  then show ?thesis using kstep_not_switching [OF False] by (auto simp: saved_cpu_def)
qed

lemma kern_wf_save: "kern_wf (task_save_context c (at_entry x k)) = kern_wf k"
  by (auto simp: kern_wf_def kern_bounds_def task_save_context_def at_entry_def state_of_def
      nth_list_update)

lemma saved_cpu_save:
  "kern_wf k \<Longrightarrow> saved_cpu (task_save_context c (at_entry x k)) t =
     (if t = current_tid k then c else saved_cpu k t)"
  using current_index [of k]
  by (simp add: saved_cpu_def task_save_context_def at_entry_def nth_list_update_if)

lemma svc_handler_kstep:
  "SVC_C_Handler code a k = Some k \<or> (\<exists>e. SVC_C_Handler code a k = kstep e k)"
proof (cases "svc_number code a k \<in> {0, 1, 2, 3}")
  case True
  then consider "SVC_C_Handler code a k = kstep Yield k"
    | "SVC_C_Handler code a k = kstep (Sleep (svc_arg k a 0)) k"
    | "SVC_C_Handler code a k = kstep Lock k" | "SVC_C_Handler code a k = kstep Unlock k"
    by (auto simp: SVC_C_Handler_def Let_def)
  then show ?thesis by cases blast+
qed (auto simp: SVC_C_Handler_def Let_def)

text \<open>One exception: the handler returns, and what it leaves saved and restored.\<close>

lemma handle_spec:
  assumes "kern_wf k"
  obtains c' k' where "handle code x k = Some (c', k')" "kern_wf k'"
    "c' = saved_cpu k' (current_tid k')"
    "\<And>t. saved_cpu k' t = (if t = current_tid k then entry_cpu x else saved_cpu k t)"
    "registered_tasks k' = registered_tasks k"
proof -
  let ?k = "task_save_context (entry_cpu x) (at_entry x k)"
  have wf: "kern_wf ?k" using assms by (simp add: kern_wf_save)
  have reg: "registered_tasks ?k = registered_tasks k"
    by (simp add: task_save_context_def at_entry_def)
  define r where "r = (case entry_exn x of SysTickExn \<Rightarrow> scheduler ?k
      | SVCallExn \<Rightarrow> SVC_C_Handler code (psp (entry_cpu x)) ?k)"
  have "r = Some ?k \<or> (\<exists>e. r = kstep e ?k)"
  proof (cases "entry_exn x")
    case SysTickExn
    then have "r = kstep Tick ?k" by (simp add: r_def)
    then show ?thesis by blast
  next
    case SVCallExn
    then show ?thesis
      using svc_handler_kstep [of code "psp (entry_cpu x)" ?k] by (simp add: r_def)
  qed
  then obtain k' where k': "r = Some k'" "kern_wf k'" "saved_cpu k' = saved_cpu ?k"
    "registered_tasks k' = registered_tasks ?k"
    using wf kstep_wf [OF wf] saved_cpu_kstep [OF wf] by metis
  have "handle code x k = Some (saved_cpu k' (current_tid k'), k')"
    using k'(1) unfolding r_def
    by (auto simp: handle_def SysTick_Handler_def SVC_Handler_def task_restore_context_def saved_cpu_def
        split: exn.splits)
  then show ?thesis
    using that k' saved_cpu_save [OF assms] reg by auto
qed

section \<open>The fault report\<close>

text \<open>What \<open>unwind_stack\<close> leaves in its local variables for the debugger.\<close>

record fault_report =
  rep_r0 :: u32
  rep_r1 :: u32
  rep_r2 :: u32
  rep_r3 :: u32
  rep_r12 :: u32
  rep_lr :: u32
  rep_pc :: u32
  rep_psr :: u32

definition unwind_stack :: "(u32 \<Rightarrow> u32) \<Rightarrow> u32 \<Rightarrow> fault_report" where
  "unwind_stack m pulFaultStackAddress =
     (let word = (\<lambda>i. m (pulFaultStackAddress + 4 * i))
      in \<lparr>rep_r0 = word (0 + 4), rep_r1 = word (1 + 4), rep_r2 = word (2 + 4),
          rep_r3 = word (3 + 4), rep_r12 = word (4 + 4), rep_lr = word (5 + 4),
          rep_pc = word (6 + 4), rep_psr = word (7 + 4)\<rparr>)"

text \<open>Bit 2 of the EXC_RETURN value in LR tells which stack holds the frame.\<close>

definition HardFault_Handler :: "u32 \<Rightarrow> u32 \<Rightarrow> u32 \<Rightarrow> (u32 \<Rightarrow> u32) \<Rightarrow> fault_report" where
  "HardFault_Handler lr msp psp' m = unwind_stack m (if 4 AND lr = 0 then msp else psp')"

text \<open>
  The exception entry of the processor: it pushes eight words, so that R0 is at the new
  stack pointer and xPSR on top.
\<close>

record exn_frame =
  fr_r0 :: u32
  fr_r1 :: u32
  fr_r2 :: u32
  fr_r3 :: u32
  fr_r12 :: u32
  fr_lr :: u32
  fr_pc :: u32
  fr_xpsr :: u32

definition push_frame :: "exn_frame \<Rightarrow> u32 \<times> (u32 \<Rightarrow> u32) \<Rightarrow> u32 \<times> (u32 \<Rightarrow> u32)" where
  "push_frame f st = fold push
     [fr_xpsr f, fr_pc f, fr_lr f, fr_r12 f, fr_r3 f, fr_r2 f, fr_r1 f, fr_r0 f] st"

text \<open>The frame that an exception return pops.\<close>

definition pop_frame :: "(u32 \<Rightarrow> u32) \<Rightarrow> u32 \<Rightarrow> exn_frame" where
  "pop_frame m a = \<lparr>fr_r0 = m a, fr_r1 = m (a + 4), fr_r2 = m (a + 8), fr_r3 = m (a + 12),
     fr_r12 = m (a + 16), fr_lr = m (a + 20), fr_pc = m (a + 24), fr_xpsr = m (a + 28)\<rparr>"

lemma push_frame_sp: "fst (push_frame f (p, m)) = p - 32"
  by (simp add: push_frame_def push_def)

lemma pop_push_frame: "push_frame f (p, m) = (q, m') \<Longrightarrow> pop_frame m' q = f"
  by (auto simp: push_frame_def push_def pop_frame_def)

section \<open>Properties\<close>

text \<open>
  The supervisor-call handler runs the kernel function of the call that was issued: with
  the frame and the instruction of a call of syscall.c or mutex.c, it takes the step of that
  call, with the argument of \<open>sys_sleep\<close> read from R0.
\<close>

theorem svc_dispatch_refines:
  assumes "issued code a c k"
  shows "SVC_C_Handler code a k = kstep (svc_event c) k"
  using assms by (cases "svc_imm c")
    (auto simp: issued_def SVC_C_Handler_def svc_number_def svc_arg_def Let_def)

text \<open>The call \<open>sys_sleep(100)\<close>: the SVC instruction is the halfword at address 0.\<close>

definition demo_svc_code :: "u32 \<Rightarrow> u8" where
  "demo_svc_code a = (if a = 0 then 1 else 0)"

definition demo_svc_kern :: kern where
  "demo_svc_kern = demo_kern\<lparr>ram := (\<lambda>a. if a = 0x20000100 then 100 else 2)\<rparr>"

theorem svc_dispatch_refines_witness:
  "SVC_C_Handler demo_svc_code 0x20000100 demo_svc_kern = kstep (Sleep 100) demo_svc_kern"
  using svc_dispatch_refines [of demo_svc_code "0x20000100" "sys_sleep 100" demo_svc_kern]
  by (simp add: issued_def sys_sleep_def demo_svc_code_def demo_svc_kern_def)

text \<open>
  C4: contexts do not leak. Once the scheduler has switched away from a task, any history of
  SysTick and SVC exceptions, with any behaviour of the other tasks in between, keeps the
  stack pointer and R4 to R7 saved for it unchanged until it runs again, and the exception
  that makes it run again returns to it with exactly these values in the processor.
\<close>

theorem context_isolation:
  assumes "kern_wf k" "t \<noteq> current_tid k" "saved_cpu k t = c"
    and "\<forall>n < length xs. \<forall>c' k'. handle_all code (take n xs) (c0, k) = Some (c', k') \<longrightarrow>
      current_tid k' \<noteq> t"
  shows "\<exists>c1 k1. handle_all code xs (c0, k) = Some (c1, k1) \<and> saved_cpu k1 t = c \<and>
    (xs \<noteq> [] \<and> current_tid k1 = t \<longrightarrow> c1 = c)"
  using assms
proof (induction xs arbitrary: c0 k)
  case (Cons x xs)
  obtain c2 k2 where h: "handle code x k = Some (c2, k2)" "kern_wf k2"
    "c2 = saved_cpu k2 (current_tid k2)"
    "\<And>t. saved_cpu k2 t = (if t = current_tid k then entry_cpu x else saved_cpu k t)"
    by (rule handle_spec [OF Cons.prems(1), of code x]) blast
  have s2: "saved_cpu k2 t = c" using h(4) [of t] Cons.prems(2,3) by simp
  show ?case
  proof (cases xs)
    case Nil
    then show ?thesis using h(1,3) s2 by auto
  next
    case (Cons y ys)
    have "current_tid k2 \<noteq> t"
      using Cons.prems(4) [rule_format, of 1 c2 k2] Cons h(1) by simp
    moreover have "\<forall>n < length xs. \<forall>c' k'. handle_all code (take n xs) (c2, k2) = Some (c', k') \<longrightarrow>
        current_tid k' \<noteq> t"
      using Cons.prems(4) h(1) by (auto dest: spec [of _ "Suc _"])
    ultimately show ?thesis using Cons.IH [OF h(2) _ s2] Cons h(1) by auto
  qed
qed simp

text \<open>Two SysTick exceptions: from task 1 to task 2, and from task 2 to task 1.\<close>

definition demo_exns :: "exn_entry list" where
  "demo_exns =
     [\<lparr>entry_exn = SysTickExn, entry_cpu = \<lparr>psp = 7, r4_r7 = [1, 2, 3, 4]\<rparr>, entry_ram = (\<lambda>_. 0),
       entry_signal_flag = 0, entry_signals_flags = 0\<rparr>]"

theorem context_isolation_witness:
  "\<exists>c1 k1. handle_all demo_svc_code demo_exns (\<lparr>psp = 9, r4_r7 = []\<rparr>, demo_free) = Some (c1, k1) \<and>
     saved_cpu k1 2 = \<lparr>psp = 0, r4_r7 = [0, 0, 0, 0]\<rparr> \<and>
     (demo_exns \<noteq> [] \<and> current_tid k1 = 2 \<longrightarrow> c1 = \<lparr>psp = 0, r4_r7 = [0, 0, 0, 0]\<rparr>)"
proof (rule context_isolation)
  show "kern_wf demo_free" by code_simp
  show "(2::nat) \<noteq> current_tid demo_free" by (simp add: demo_free_def demo_kern_def)
  show "saved_cpu demo_free 2 = \<lparr>psp = 0, r4_r7 = [0, 0, 0, 0]\<rparr>" by code_simp
  show "\<forall>n < length demo_exns. \<forall>c' k'.
      handle_all demo_svc_code (take n demo_exns) (\<lparr>psp = 9, r4_r7 = []\<rparr>, demo_free) = Some (c', k') \<longrightarrow>
      current_tid k' \<noteq> 2"
    by (simp add: demo_exns_def demo_free_def demo_kern_def)
qed

text \<open>
  The fault report is shifted. For a frame the processor has pushed, the variable \<open>r0\<close> of
  \<open>unwind_stack\<close> holds the stacked R12, \<open>r1\<close> the LR, \<open>r2\<close> the PC and \<open>r3\<close> the xPSR, whichever
  stack was in use; \<open>r12\<close>, \<open>lr\<close>, \<open>pc\<close> and \<open>psr\<close> are the four words above the frame.
\<close>

theorem fault_report_shifted:
  assumes "push_frame f (p, m) = (a, m')"
    and "(if lr AND 4 = 0 then msp else psp') = a"
  shows "HardFault_Handler lr msp psp' m' =
    \<lparr>rep_r0 = fr_r12 f, rep_r1 = fr_lr f, rep_r2 = fr_pc f, rep_r3 = fr_xpsr f,
     rep_r12 = m p, rep_lr = m (p + 4), rep_pc = m (p + 8), rep_psr = m (p + 12)\<rparr>"
proof -
  have a: "(if 4 AND lr = 0 then msp else psp') = a" using assms(2) by (simp only: and.commute)
  have "HardFault_Handler lr msp psp' m' = unwind_stack m' a"
    unfolding HardFault_Handler_def a by (rule refl)
  also have "\<dots> = unwind_stack (snd (push_frame f (p, m))) (p - 32)"
    using push_frame_sp [of f p m] assms(1) by simp
  also have "\<dots> = \<lparr>rep_r0 = fr_r12 f, rep_r1 = fr_lr f, rep_r2 = fr_pc f, rep_r3 = fr_xpsr f,
     rep_r12 = m p, rep_lr = m (p + 4), rep_pc = m (p + 8), rep_psr = m (p + 12)\<rparr>"
    by (simp add: unwind_stack_def Let_def push_frame_def push_def, simp only: add.commute [of p] simp_thms)
  finally show ?thesis .
qed

definition demo_frame :: exn_frame where
  "demo_frame = \<lparr>fr_r0 = 10, fr_r1 = 11, fr_r2 = 12, fr_r3 = 13, fr_r12 = 22, fr_lr = 33,
     fr_pc = 44, fr_xpsr = 55\<rparr>"

theorem fault_report_shifted_witness:
  "rep_r0 (HardFault_Handler 0xFFFFFFFD 0 0x1000 (snd (push_frame demo_frame (0x1020, \<lambda>_. 7)))) = 22"
proof -
  have f: "push_frame demo_frame (0x1020, \<lambda>_. 7) =
      (0x1000, snd (push_frame demo_frame (0x1020, \<lambda>_. 7)))"
    by (simp add: push_frame_def push_def)
  have "(if (0xFFFFFFFD :: u32) AND 4 = 0 then 0 else 0x1000) = (0x1000 :: u32)" by code_simp
  from fault_report_shifted [OF f this] show ?thesis by (simp add: demo_frame_def)
qed

end
