(* ===== verification/Kernel_Boot.thy ===== *)
theory Kernel_Boot
  imports Supervisor Heap_Sbrk
begin

text \<open>
  The start of the scheduler: \<open>scheduler_init\<close> and the registration loop of \<open>_kernel_entry\<close>
  (src/src/kernel.c), with the stacks \<open>k_task_register\<close> prepares and where the linker script
  (src/src/arch/arm/cortex-m0/linker_script.ld) puts them.
\<close>

section \<open>Registering the tasks\<close>

text \<open>\<open>fatal\<close>: interrupts off, then a loop that does nothing.\<close>

definition fatal :: "kern \<Rightarrow> kern" where
  "fatal k = k\<lparr>irq_enabled := False\<rparr>"

datatype boot = Idle kern | Halted kern

text \<open>
  \<open>OS_Tasks\<close> is an array that ends with a null pointer; reading past its end has no result.
\<close>

fun register_tasks :: "bool \<Rightarrow> u32 \<Rightarrow> u32 list \<Rightarrow> kern \<Rightarrow> boot option" where
  "register_tasks dbg stack_top [] k = None"
| "register_tasks dbg stack_top (f # fs) k =
     (if f \<noteq> 0 then
        (let (r, k1) = k_task_register dbg stack_top f k
         in if r \<noteq> 0 then Some (Halted (fatal k1)) else register_tasks dbg stack_top fs k1)
      else Some (Idle k))"

definition start_scheduler ::
    "(u32 \<Rightarrow> kern \<Rightarrow> kern) \<Rightarrow> u32 \<Rightarrow> bool \<Rightarrow> u32 \<Rightarrow> u32 list \<Rightarrow> kern \<Rightarrow> boot option" where
  "start_scheduler SysTick_Config SystemCoreClock dbg stack_top OS_Tasks k =
     (let (r, k1) = scheduler_init SysTick_Config SystemCoreClock k
      in if r \<noteq> 0 then Some (Halted (fatal k1)) else register_tasks dbg stack_top OS_Tasks k1)"

text \<open>The documented effect of the CMSIS function, for a period the 24-bit timer can hold.\<close>

definition systick_config_ok :: "(u32 \<Rightarrow> kern \<Rightarrow> kern) \<Rightarrow> bool" where
  "systick_config_ok cfg \<longleftrightarrow>
     (\<forall>n k. 0 < unat n \<and> unat n \<le> 2 ^ 24 \<longrightarrow> cfg n k = k\<lparr>SysTick_LOAD := n - 1, SysTick_VAL := 0\<rparr>)"

section \<open>Initial frames\<close>

lemma push_other:
  "(\<And>j. j < length ws \<Longrightarrow> a \<noteq> s - 4 * of_nat (Suc j)) \<Longrightarrow> snd (fold push ws (s, m)) a = m a"
proof (induction ws arbitrary: s m)
  case (Cons w ws)
  have "snd (fold push ws (s - 4, m(s - 4 := w))) a = (m(s - 4 := w)) a"
  proof (rule Cons.IH)
    fix j assume "j < length ws"
    then show "a \<noteq> s - 4 - 4 * of_nat (Suc j)"
      using Cons.prems [of "Suc j"] by (simp add: algebra_simps)
  qed
  moreover have "a \<noteq> s - 4" using Cons.prems [of 0] by simp
  moreover have "push w (s, m) = (s - 4, m(s - 4 := w))" by (simp add: push_def)
  ultimately show ?case by simp
qed simp

text \<open>The frame a task starts from: execution at its function, which is also its return address.\<close>

definition first_frame :: "u32 \<Rightarrow> exn_frame" where
  "first_frame f = \<lparr>fr_r0 = 0, fr_r1 = 0, fr_r2 = 0, fr_r3 = 0, fr_r12 = 0, fr_lr = f, fr_pc = f,
     fr_xpsr = 0x21000000\<rparr>"

definition frame_words :: "bool \<Rightarrow> nat" where
  "frame_words dbg = (if dbg then 9 else 8)"

lemma length_initial_frame: "length (initial_frame dbg f) = frame_words dbg"
  by (simp add: initial_frame_def frame_words_def)

lemma pop_initial_frame:
  "pop_frame (snd (fold push (initial_frame dbg f) (s, m))) (s - 4 * of_nat (frame_words dbg)) = first_frame f"
  by (cases dbg) (simp_all add: initial_frame_def push_def pop_frame_def first_frame_def frame_words_def)

text \<open>Where the frames are: different tasks have frames that do not meet.\<close>

definition frame_addrs :: "bool \<Rightarrow> u32 \<Rightarrow> nat \<Rightarrow> u32 set" where
  "frame_addrs dbg stack_top tid = {task_stack stack_top tid - 4 * of_nat (Suc j) |j. j < frame_words dbg}"

lemma frame_addrs_disjoint:
  assumes "i \<noteq> j" "i < 8" "j < 8"
  shows "frame_addrs dbg stack_top i \<inter> frame_addrs dbg stack_top j = {}"
proof -
  have "task_stack stack_top i - 4 * of_nat (Suc x) \<noteq> task_stack stack_top j - 4 * of_nat (Suc y)"
    if "x < 9" "y < 9" for x y
  proof
    assume e: "task_stack stack_top i - 4 * of_nat (Suc x) = task_stack stack_top j - 4 * of_nat (Suc y)"
    have s: "task_stack stack_top t - 4 * of_nat (Suc z) = stack_top - of_nat (2048 * t + 4 * Suc z)" for t z
      by (simp add: task_stack_def algebra_simps)
    have "of_nat (2048 * i + 4 * Suc x) = (of_nat (2048 * j + 4 * Suc y) :: u32)"
      using e unfolding s by (simp only: diff_right_commute diff_left_imp_eq [where a = stack_top])
    then have "unat (of_nat (2048 * i + 4 * Suc x) :: u32) = unat (of_nat (2048 * j + 4 * Suc y) :: u32)"
      by (rule arg_cong)
    moreover have "unat (of_nat (2048 * t + 4 * Suc z) :: u32) = 2048 * t + 4 * Suc z" if "t < 8" "z < 9" for t z
      using that by (subst unsigned_of_nat, subst take_bit_nat_eq_self) simp_all
    ultimately have eq: "2048 * i + 4 * Suc x = 2048 * j + 4 * Suc y"
      using assms that by metis
    have "Suc i \<le> j \<or> Suc j \<le> i" using assms(1) by linarith
    then show False
    proof
      assume "Suc i \<le> j" with eq that show False by simp
    next
      assume "Suc j \<le> i" with eq that show False by simp
    qed
  qed
  note distinct = this
  have w: "frame_words dbg \<le> 9" by (simp add: frame_words_def)
  show ?thesis
  proof (rule equals0I)
    fix a assume "a \<in> frame_addrs dbg stack_top i \<inter> frame_addrs dbg stack_top j"
    then obtain x y where "x < frame_words dbg" "a = task_stack stack_top i - 4 * of_nat (Suc x)"
      "y < frame_words dbg" "a = task_stack stack_top j - 4 * of_nat (Suc y)"
      unfolding frame_addrs_def by blast
    with distinct [of x y] w show False by simp
  qed
qed

section \<open>Registration\<close>

lemma register_spec:
  assumes "kern_wf k" "registered_tasks k < 7"
  shows "\<exists>k'. k_task_register dbg stack_top f k = (0, k') \<and> kern_wf k' \<and>
    registered_tasks k' = Suc (registered_tasks k) \<and> current_tid k' = current_tid k \<and>
    irq_enabled k' = irq_enabled k \<and> tasks k' = (tasks k)[Suc (registered_tasks k) := (tasks k ! Suc (registered_tasks k))
      \<lparr>sp := task_stack stack_top (Suc (registered_tasks k)) - 4 * of_nat (frame_words dbg), state := TASK_READY\<rparr>] \<and>
    ram k' = snd (fold push (initial_frame dbg f) (task_stack stack_top (Suc (registered_tasks k)), ram k))"
proof -
  let ?tid = "Suc (registered_tasks k)"
  let ?k' = "snd (k_task_register dbg stack_top f k)"
  have len: "length (tasks k) = 8" using assms(1) by (simp add: kern_wf_def kern_bounds_def MAX_TASKS_def)
  have r: "k_task_register dbg stack_top f k = (0, ?k')" "registered_tasks ?k' = ?tid"
    "current_tid ?k' = current_tid k" "irq_enabled ?k' = irq_enabled k"
    "tasks ?k' = (tasks k)[?tid := (tasks k ! ?tid)
      \<lparr>sp := task_stack stack_top ?tid - 4 * of_nat (frame_words dbg), state := TASK_READY\<rparr>]"
    "ram ?k' = snd (fold push (initial_frame dbg f) (task_stack stack_top ?tid, ram k))"
    using assms(2)
    by (auto simp: k_task_register_def MAX_TASKS_def Let_def frame_words_def split: prod.splits)
  have "state_of ?k' i = (if i = ?tid then TASK_READY else state_of k i)" for i
    using len assms(2) r(5) by (simp add: state_of_def nth_list_update_if)
  then have "kern_wf ?k'"
    using assms r(2-5) by (auto simp: kern_wf_def kern_bounds_def MAX_TASKS_def waiting_states_def le_Suc_eq)
  with r show ?thesis by (intro exI [of _ ?k']) simp
qed

lemma pop_frame_cong:
  "(\<And>j. j < 8 \<Longrightarrow> m (a + 4 * of_nat j) = m' (a + 4 * of_nat j)) \<Longrightarrow> pop_frame m a = pop_frame m' a"
proof -
  assume e: "\<And>j. j < 8 \<Longrightarrow> m (a + 4 * of_nat j) = m' (a + 4 * of_nat j)"
  show ?thesis
    using e [of 0] e [of 1] e [of 2] e [of 3] e [of 4] e [of 5] e [of 6] e [of 7]
    by (simp add: pop_frame_def)
qed

text \<open>Registering one more task keeps the frames of the others.\<close>

lemma register_keeps_frames:
  assumes "i < 8" "j < 8" "i \<noteq> j"
  shows "pop_frame (snd (fold push (initial_frame dbg f) (task_stack stack_top j, m)))
      (task_stack stack_top i - 4 * of_nat (frame_words dbg)) =
    pop_frame m (task_stack stack_top i - 4 * of_nat (frame_words dbg))"
proof (rule pop_frame_cong)
  fix x :: nat assume x: "x < 8"
  let ?a = "task_stack stack_top i - 4 * of_nat (frame_words dbg) + 4 * of_nat x"
  have w: "8 \<le> frame_words dbg" by (simp add: frame_words_def)
  obtain y where y: "frame_words dbg = Suc y + x" "y < frame_words dbg"
    using x w by (metis Suc_le_D add.commute add_Suc_right le_add_diff_inverse less_add_Suc2 less_le_trans less_imp_Suc_add)
  have "s - 4 * (g + z) + 4 * z = s - 4 * g" for s g z :: u32
    by (simp add: distrib_left)
  then have "?a = task_stack stack_top i - 4 * of_nat (Suc y)"
    unfolding y(1) of_nat_add .
  then have "?a \<in> frame_addrs dbg stack_top i"
    using y(2) unfolding frame_addrs_def by blast
  then have "?a \<notin> frame_addrs dbg stack_top j"
    using frame_addrs_disjoint [OF assms(3,1,2)] by blast
  then show "snd (fold push (initial_frame dbg f) (task_stack stack_top j, m)) ?a = m ?a"
    by (intro push_other) (auto simp: frame_addrs_def length_initial_frame)
qed

text \<open>
  A registered task that starts at \<open>f\<close> when it is first dispatched: it is ready, and its stack
  pointer is at a frame that the exception return pops to \<open>f\<close>.
\<close>

definition starts_at :: "bool \<Rightarrow> u32 \<Rightarrow> kern \<Rightarrow> nat \<Rightarrow> u32 \<Rightarrow> bool" where
  "starts_at dbg stack_top k tid f \<longleftrightarrow> state_of k tid = TASK_READY \<and>
     sp (tasks k ! tid) = task_stack stack_top tid - 4 * of_nat (frame_words dbg) \<and>
     pop_frame (ram k) (sp (tasks k ! tid)) = first_frame f"

lemma register_starts:
  assumes "kern_wf k" "registered_tasks k < 7"
  obtains k' where "k_task_register dbg stack_top f k = (0, k')" "kern_wf k'"
    "registered_tasks k' = Suc (registered_tasks k)" "current_tid k' = current_tid k"
    "irq_enabled k' = irq_enabled k" "starts_at dbg stack_top k' (Suc (registered_tasks k)) f"
    "\<And>t g. t \<le> registered_tasks k \<Longrightarrow> starts_at dbg stack_top k t g \<Longrightarrow> starts_at dbg stack_top k' t g"
proof -
  let ?tid = "Suc (registered_tasks k)"
  have len: "length (tasks k) = 8" using assms(1) by (simp add: kern_wf_def kern_bounds_def MAX_TASKS_def)
  obtain k' where k': "k_task_register dbg stack_top f k = (0, k')" "kern_wf k'"
    "registered_tasks k' = ?tid" "current_tid k' = current_tid k" "irq_enabled k' = irq_enabled k"
    "tasks k' = (tasks k)[?tid := (tasks k ! ?tid)
      \<lparr>sp := task_stack stack_top ?tid - 4 * of_nat (frame_words dbg), state := TASK_READY\<rparr>]"
    "ram k' = snd (fold push (initial_frame dbg f) (task_stack stack_top ?tid, ram k))"
    using register_spec [OF assms, of dbg stack_top f] by blast
  show ?thesis
  proof (rule that [OF k'(1-5)])
    show "starts_at dbg stack_top k' ?tid f"
      using len assms(2) k'(6,7)
      by (simp add: starts_at_def state_of_def pop_initial_frame)
    fix t g assume t: "t \<le> registered_tasks k" "starts_at dbg stack_top k t g"
    then show "starts_at dbg stack_top k' t g"
      using len assms(2) k'(6,7) register_keeps_frames [of t ?tid dbg f stack_top "ram k"]
      by (auto simp: starts_at_def state_of_def)
  qed
qed

lemma register_full:
  "registered_tasks k = 7 \<Longrightarrow> k_task_register dbg stack_top f k = (- 1, k)"
  by (simp add: k_task_register_def MAX_TASKS_def)

text \<open>The loop, after the tasks \<open>ds\<close>.\<close>

lemma register_tasks_spec:
  assumes "kern_wf k" "registered_tasks k = length ds" "length ds \<le> 7" "0 \<notin> set fs"
    and "\<forall>i < length ds. starts_at dbg stack_top k (Suc i) (ds ! i)"
  shows "if length ds + length fs \<le> 7 then
      \<exists>k'. register_tasks dbg stack_top (fs @ 0 # rest) k = Some (Idle k') \<and> kern_wf k' \<and>
        registered_tasks k' = length (ds @ fs) \<and> current_tid k' = current_tid k \<and>
        irq_enabled k' = irq_enabled k \<and>
        (\<forall>i < length (ds @ fs). starts_at dbg stack_top k' (Suc i) ((ds @ fs) ! i))
    else \<exists>k'. register_tasks dbg stack_top (fs @ 0 # rest) k = Some (Halted k') \<and>
        \<not> irq_enabled k' \<and> registered_tasks k' = 7"
  using assms
proof (induction fs arbitrary: k ds)
  case (Cons f fs)
  have f: "f \<noteq> 0" "0 \<notin> set fs" using Cons.prems(4) by auto
  show ?case
  proof (cases "length ds = 7")
    case True
    then show ?thesis
      using f register_full [of k dbg stack_top f] Cons.prems(2) by (simp add: fatal_def)
  next
    case False
    then have lt: "registered_tasks k < 7" using Cons.prems(2,3) by simp
    obtain k1 where k1: "k_task_register dbg stack_top f k = (0, k1)" "kern_wf k1"
      "registered_tasks k1 = Suc (registered_tasks k)" "current_tid k1 = current_tid k"
      "irq_enabled k1 = irq_enabled k" "starts_at dbg stack_top k1 (Suc (registered_tasks k)) f"
      "\<And>t g. t \<le> registered_tasks k \<Longrightarrow> starts_at dbg stack_top k t g \<Longrightarrow> starts_at dbg stack_top k1 t g"
      by (rule register_starts [OF Cons.prems(1) lt]) blast
    have "\<forall>i < length (ds @ [f]). starts_at dbg stack_top k1 (Suc i) ((ds @ [f]) ! i)"
      using Cons.prems(2,5) k1(6,7) by (auto simp: nth_append less_Suc_eq)
    from Cons.IH [OF k1(2) _ _ f(2) this] show ?thesis
      using Cons.prems(2) lt k1(1,3-5) f(1) by (simp cong: if_cong)
  qed
qed simp

section \<open>Starting\<close>

lemma scheduler_init_spec:
  assumes "systick_config_ok cfg" "0 < unat (clk div 1000)" "unat (clk div 1000) \<le> 2 ^ 24"
    and "length (tasks k) = MAX_TASKS"
  obtains k' where "scheduler_init cfg clk k = (0, k')" "kern_wf k'" "registered_tasks k' = 0"
    "current_tid k' = 0" "irq_enabled k'"
proof (rule that)
  let ?k' = "snd (scheduler_init cfg clk k)"
  have e: "?k' = (set_state 0 TASK_RUNNING (k\<lparr>registered_tasks := 0, current_tid := 0\<rparr>))
      \<lparr>SysTick_LOAD := clk div 1000 - 1, SysTick_VAL := 0, irq_enabled := True\<rparr>"
    using assms(1-3) by (simp add: scheduler_init_def systick_config_ok_def Let_def set_state_def)
  show "scheduler_init cfg clk k = (0, ?k')" by (simp add: scheduler_init_def Let_def)
  show "kern_wf ?k'" "registered_tasks ?k' = 0" "current_tid ?k' = 0" "irq_enabled ?k'"
    using assms(4) unfolding e
    by (simp_all add: kern_wf_def kern_bounds_def set_state_def state_of_def MAX_TASKS_def)
qed

lemma start_scheduler_spec:
  assumes "systick_config_ok cfg" "0 < unat (clk div 1000)" "unat (clk div 1000) \<le> 2 ^ 24"
    and "length (tasks k) = MAX_TASKS" "0 \<notin> set fs"
  shows "if length fs \<le> 7 then
      \<exists>k'. start_scheduler cfg clk dbg stack_top (fs @ 0 # rest) k = Some (Idle k') \<and> kern_wf k' \<and>
        registered_tasks k' = length fs \<and> current_tid k' = 0 \<and> irq_enabled k' \<and>
        (\<forall>i < length fs. starts_at dbg stack_top k' (Suc i) (fs ! i))
    else \<exists>k'. start_scheduler cfg clk dbg stack_top (fs @ 0 # rest) k = Some (Halted k') \<and>
        \<not> irq_enabled k' \<and> registered_tasks k' = 7"
proof -
  obtain k1 where k1: "scheduler_init cfg clk k = (0, k1)" "kern_wf k1" "registered_tasks k1 = 0"
    "current_tid k1 = 0" "irq_enabled k1"
    by (rule scheduler_init_spec [OF assms(1-4)])
  have "start_scheduler cfg clk dbg stack_top (fs @ 0 # rest) k = register_tasks dbg stack_top (fs @ 0 # rest) k1"
    by (simp add: start_scheduler_def k1(1))
  then show ?thesis
    using register_tasks_spec [of k1 "[]" fs dbg stack_top rest] assms(5) k1(2-5)
    by (simp cong: if_cong)
qed

text \<open>
  C6: starting the scheduler. From any state of the task table, with an interrupt period the
  timer can hold, and for a null-terminated list of at most seven tasks, the code gets to its
  idle loop with interrupts enabled: the kernel state is well-formed, the idle task is
  running, exactly the listed tasks are registered, and each of them is ready with a frame on
  its own stack from which the exception return enters its function, and returns to it. With
  more than seven tasks it registers seven and halts with interrupts off.
\<close>

theorem start_scheduler_registers:
  assumes "systick_config_ok cfg" "0 < unat (clk div 1000)" "unat (clk div 1000) \<le> 2 ^ 24"
    and "length (tasks k) = MAX_TASKS" "0 \<notin> set fs"
  shows "if length fs \<le> 7 then
      \<exists>k'. start_scheduler cfg clk dbg stack_top (fs @ 0 # rest) k = Some (Idle k') \<and> kern_wf k' \<and>
        registered_tasks k' = length fs \<and> current_tid k' = 0 \<and> irq_enabled k' \<and>
        (\<forall>i < length fs. starts_at dbg stack_top k' (Suc i) (fs ! i))
    else \<exists>k'. start_scheduler cfg clk dbg stack_top (fs @ 0 # rest) k = Some (Halted k') \<and>
        \<not> irq_enabled k' \<and> registered_tasks k' = 7"
  by (rule start_scheduler_spec [OF assms])

text \<open>The two tasks of main.c on a clock of 32 MHz, from an uninitialised kernel.\<close>

definition demo_systick :: "u32 \<Rightarrow> kern \<Rightarrow> kern" where
  "demo_systick n k = k\<lparr>SysTick_LOAD := n - 1, SysTick_VAL := 0\<rparr>"

theorem start_scheduler_registers_witness:
  "\<exists>k'. start_scheduler demo_systick 32000000 True 0x20003D00 [0x10001200, 0x10001300, 0] demo_kern = Some (Idle k') \<and>
     kern_wf k' \<and> registered_tasks k' = 2 \<and> starts_at True 0x20003D00 k' 2 0x10001300"
proof -
  let ?fs = "[0x10001200, 0x10001300] :: u32 list"
  have cfg: "systick_config_ok demo_systick" by (simp add: systick_config_ok_def demo_systick_def)
  have clk: "unat (32000000 div 1000 :: u32) = 32000" by (simp add: unat_div_distrib)
  have "0 < unat (32000000 div 1000 :: u32)" "unat (32000000 div 1000 :: u32) \<le> 2 ^ 24"
    unfolding clk by simp_all
  moreover have "length (tasks demo_kern) = MAX_TASKS" by (simp add: demo_kern_def MAX_TASKS_def)
  moreover have "0 \<notin> set ?fs" by simp
  moreover have few: "length ?fs \<le> 7" by simp
  ultimately obtain k' where
    "start_scheduler demo_systick 32000000 True 0x20003D00 (?fs @ 0 # []) demo_kern = Some (Idle k')"
    "kern_wf k'" "registered_tasks k' = length ?fs"
    "\<forall>i < length ?fs. starts_at True 0x20003D00 k' (Suc i) (?fs ! i)"
    using start_scheduler_registers [OF cfg, of 32000000 demo_kern ?fs True "0x20003D00" "[]",
        unfolded if_P [OF few]]
    by blast
  moreover from this(4) have "starts_at True 0x20003D00 k' (Suc 1) (?fs ! 1)"
    by (rule allE [of _ 1]) simp
  ultimately show ?thesis by (intro exI [of _ k']) (simp add: numeral_2_eq_2)
qed

end
