(* ===== verification/Memory_Layout.thy ===== *)
theory Memory_Layout
  imports Kernel_Boot
begin

text \<open>
  Where the linker script src/src/arch/arm/cortex-m0/linker_script.ld puts the heap and the
  stacks, and where \<open>k_task_register\<close> puts the task stacks.
\<close>

section \<open>The layout\<close>

definition HEAP_SIZE :: u32 where "HEAP_SIZE = 4096"
definition THREAD_STACK_SIZE :: u32 where "THREAD_STACK_SIZE = 4096"
definition MAIN_STACK_SIZE :: u32 where "MAIN_STACK_SIZE = 512"

text \<open>The symbols, from \<open>__heap\<close>, which is a multiple of four, as are the sizes.\<close>

definition heap_end_sym :: "u32 \<Rightarrow> u32" where
  "heap_end_sym heap_sym = heap_sym + HEAP_SIZE"

definition THREAD_STACK_TOP :: "u32 \<Rightarrow> u32" where
  "THREAD_STACK_TOP heap_sym = heap_end_sym heap_sym + THREAD_STACK_SIZE"

definition MAIN_STACK_TOP :: "u32 \<Rightarrow> u32" where
  "MAIN_STACK_TOP heap_sym = THREAD_STACK_TOP heap_sym + MAIN_STACK_SIZE"

text \<open>The sections lie in the 16 kB of RAM from 0x20000000.\<close>

definition layout_ok :: "u32 \<Rightarrow> bool" where
  "layout_ok heap_sym \<longleftrightarrow> 0x20000000 \<le> unat heap_sym \<and> unat heap_sym + 8704 \<le> 0x20004000"

definition fresh_heap :: "u32 \<Rightarrow> heap" where
  "fresh_heap heap_sym = \<lparr>heap_top = heap_sym, heap_end = heap_end_sym heap_sym, sbrk_c = 0, errno = EPERM\<rparr>"

text \<open>
  Below the heap lie the copies of the exception vectors and the variables of the program
  (.data and .bss), from the start of the RAM on.
\<close>

definition static_size :: "u32 \<Rightarrow> nat" where
  "static_size heap_sym = unat heap_sym - 0x20000000"

definition static_bytes :: "u32 \<Rightarrow> nat set" where
  "static_bytes heap_sym = {0x20000000 ..< unat heap_sym}"

lemma unat_layout:
  assumes "layout_ok h"
  shows "unat (heap_end_sym h) = unat h + 4096" "unat (THREAD_STACK_TOP h) = unat h + 8192"
proof -
  have "unat (h + 4096) = unat h + unat (4096 :: u32)"
    using assms by (intro unat_add_lem [THEN iffD1]) (simp add: layout_ok_def)
  moreover have "unat (h + 8192) = unat h + unat (8192 :: u32)"
    using assms by (intro unat_add_lem [THEN iffD1]) (simp add: layout_ok_def)
  ultimately show "unat (heap_end_sym h) = unat h + 4096" "unat (THREAD_STACK_TOP h) = unat h + 8192"
    by (simp_all add: heap_end_sym_def THREAD_STACK_TOP_def HEAP_SIZE_def THREAD_STACK_SIZE_def add.assoc)
qed

lemma unat_frame_addr:
  assumes "layout_ok h" "tid < 8" "a \<in> frame_addrs dbg (THREAD_STACK_TOP h) tid"
  shows "\<exists>j < 9. unat a + 2048 * tid + 4 * Suc j = unat h + 8192"
proof -
  obtain j where j: "j < frame_words dbg" "a = task_stack (THREAD_STACK_TOP h) tid - 4 * of_nat (Suc j)"
    using assms(3) by (auto simp: frame_addrs_def)
  then have j9: "j < 9" by (auto simp: frame_words_def split: if_splits)
  let ?d = "of_nat (2048 * tid + 4 * Suc j) :: u32"
  have a: "a = THREAD_STACK_TOP h - ?d"
    by (simp add: j(2) task_stack_def algebra_simps)
  have d: "unat ?d = 2048 * tid + 4 * Suc j"
    using assms(2) j9 by (simp add: unsigned_of_nat take_bit_nat_eq_self del: of_nat_add of_nat_mult of_nat_Suc)
  have "?d \<le> THREAD_STACK_TOP h"
    using assms(1,2) j9 unat_layout [OF assms(1)] d
    by (simp add: word_le_nat_alt layout_ok_def del: of_nat_add of_nat_mult of_nat_Suc)
  then have "unat a = unat h + 8192 - (2048 * tid + 4 * Suc j)"
    unfolding a using d unat_layout(2) [OF assms(1)]
    by (simp add: unat_sub del: of_nat_add of_nat_mult of_nat_Suc)
  then show ?thesis
    using assms(1,2) j9 by (intro exI [of _ j]) (simp add: layout_ok_def)
qed

section \<open>Properties\<close>

text \<open>
  C34: the task stacks leave the stack section. \<open>&THREAD_STACK_TOP - 512 * tid\<close> steps by 2048 bytes,
  and the section has 4096 bytes, half of which the idle task uses. So the initial frame of task
  1 is the only one inside the section: the frames of tasks 2 and 3 are inside the heap, in
  bytes that the first call of \<open>sys_sbrk\<close> hands out if it asks for the 4096 bytes of the heap.
  The frames of tasks 4 to 7 lie below the heap, in the 36 bytes that end \<open>2048 * (tid - 4)\<close> bytes
  below its start. There they are over the vectors and variables of the program if these reach
  that far down, that is if they take at least \<open>2048 * (tid - 4) + 36\<close> bytes; if they take no more than
  \<open>2048 * (tid - 4)\<close> bytes, the frame lies below the RAM.
\<close>

theorem task_stacks_overlap_heap:
  assumes "layout_ok h" "1 \<le> tid" "tid \<le> 7" "a \<in> frame_addrs dbg (THREAD_STACK_TOP h) tid"
  shows "sys_sbrk 4096 (fresh_heap h) = (h, (fresh_heap h)\<lparr>sbrk_c := 1, heap_top := heap_end_sym h\<rparr>) \<and>
    (if tid = 1 then unat (heap_end_sym h) \<le> unat a \<and> unat a < unat (THREAD_STACK_TOP h)
     else if tid \<le> 3 then unat a \<in> block_bytes (h, 4096)
     else unat a + 2048 * (tid - 4) < unat h \<and> unat h \<le> unat a + 2048 * (tid - 4) + 36 \<and>
       (2048 * (tid - 4) + 36 \<le> static_size h \<longrightarrow> unat a \<in> static_bytes h) \<and>
       (static_size h \<le> 2048 * (tid - 4) \<longrightarrow> unat a < 0x20000000))"
proof
  show "sys_sbrk 4096 (fresh_heap h) = (h, (fresh_heap h)\<lparr>sbrk_c := 1, heap_top := heap_end_sym h\<rparr>)"
    by (simp add: sys_sbrk_def fresh_heap_def heap_end_sym_def HEAP_SIZE_def)
  obtain j where j: "j < 9" "unat a + 2048 * tid + 4 * Suc j = unat h + 8192"
    using unat_frame_addr [OF assms(1) _ assms(4)] assms(3) by auto
  have ram: "0x20000000 \<le> unat h" using assms(1) by (simp add: layout_ok_def)
  consider "tid = 1" | "tid = 2 \<or> tid = 3" | "4 \<le> tid" using assms(2) by linarith
  then show "if tid = 1 then unat (heap_end_sym h) \<le> unat a \<and> unat a < unat (THREAD_STACK_TOP h)
     else if tid \<le> 3 then unat a \<in> block_bytes (h, 4096)
     else unat a + 2048 * (tid - 4) < unat h \<and> unat h \<le> unat a + 2048 * (tid - 4) + 36 \<and>
       (2048 * (tid - 4) + 36 \<le> static_size h \<longrightarrow> unat a \<in> static_bytes h) \<and>
       (static_size h \<le> 2048 * (tid - 4) \<longrightarrow> unat a < 0x20000000)"
  proof cases
    case 3
    then have "unat a + 2048 * (tid - 4) + 4 * Suc j = unat h" using j(2) by simp
    then show ?thesis using 3 j(1) ram by (auto simp: static_size_def static_bytes_def)
  qed (use j unat_layout [OF assms(1)] in \<open>auto simp: block_bytes_def\<close>)
qed

text \<open>
  The topmost words of the frames of task 2, with the heap at the start of the RAM, and of task 4, with a kilobyte
  of variables.
\<close>

theorem task_stacks_overlap_heap_witness:
  "unat (0x20000FFC :: u32) \<in> block_bytes (0x20000000, 4096) \<and>
   unat (0x200003FC :: u32) \<in> static_bytes 0x20000400"
proof -
  have addr: "task_stack (THREAD_STACK_TOP h) tid - 4 \<in> frame_addrs True (THREAD_STACK_TOP h) tid" for h tid
    unfolding frame_addrs_def frame_words_def by (intro CollectI exI [of _ 0]) simp
  have h: "layout_ok 0x20000000" "layout_ok 0x20000400" by (simp_all add: layout_ok_def)
  have top: "task_stack (THREAD_STACK_TOP 0x20000000) 2 - 4 = 0x20000FFC"
    "task_stack (THREAD_STACK_TOP 0x20000400) 4 - 4 = 0x200003FC"
    by (simp_all add: task_stack_def THREAD_STACK_TOP_def heap_end_sym_def HEAP_SIZE_def THREAD_STACK_SIZE_def)
  show ?thesis
    using task_stacks_overlap_heap [OF h(1) _ _ addr, of 2] task_stacks_overlap_heap [OF h(2) _ _ addr, of 4]
    unfolding top by (simp add: static_size_def)
qed

end
