(* ===== verification/Device_Switch.thy ===== *)
theory Device_Switch
  imports Pascal_Prelude
begin

text \<open>
  The device switch of src/src/sys/dev.c and src/src/include/sys/dev.h: nodes, transfer
  descriptors, the table of drivers, and the calls that dispatch through it. A driver
  runs on a state \<open>'s\<close> of the devices. The contract of a driver that transfers whole
  buffers is the locale \<open>stream_device\<close>.
\<close>

section \<open>Data\<close>

datatype uio_rw = UIO_READ | UIO_WRITE

datatype seek_whence = SEEK_SET | SEEK_CUR | SEEK_END

datatype dev_type = I2C | SPI | UART | PWM | LCD | MMC | DEV_T_RTC

datatype dev_id = DEV_I2C | DEV_SPI | DEV_UART | DEV_PWM | DEV_LCD | DEV_MMC | DEV_RTC

definition DRIVER_NB :: nat where
  "DRIVER_NB = 7"

text \<open>The C values of \<open>enum dev_id\<close>.\<close>

fun dev_id_code :: "dev_id \<Rightarrow> nat" where
  "dev_id_code DEV_I2C = 0"
| "dev_id_code DEV_SPI = 1"
| "dev_id_code DEV_UART = 2"
| "dev_id_code DEV_PWM = 3"
| "dev_id_code DEV_LCD = 4"
| "dev_id_code DEV_MMC = 5"
| "dev_id_code DEV_RTC = 6"

lemma dev_id_code_less: "dev_id_code i < DRIVER_NB"
  by (cases i) (simp_all add: DRIVER_NB_def)

lemma dev_id_code_inj [simp]: "dev_id_code i = dev_id_code j \<longleftrightarrow> i = j"
  by (cases i; cases j) simp_all

text \<open>The order of the device numbers.\<close>

instantiation dev_id :: linorder
begin

definition less_eq_dev_id :: "dev_id \<Rightarrow> dev_id \<Rightarrow> bool" where
  "less_eq_dev_id i j \<longleftrightarrow> dev_id_code i \<le> dev_id_code j"

definition less_dev_id :: "dev_id \<Rightarrow> dev_id \<Rightarrow> bool" where
  "less_dev_id i j \<longleftrightarrow> dev_id_code i < dev_id_code j"

instance
  by standard (auto simp: less_eq_dev_id_def less_dev_id_def)

end

text \<open>
  A node, with \<open>'d\<close> for what its data pointer may refer to. The number of its device is an
  int, as in the code.
\<close>

record 'd vnode =
  dev_type :: dev_type
  dev_id :: cint
  endpt :: cint
  offset :: cint
  data :: 'd

text \<open>
  \<open>iov_base\<close> is a pointer into an object of the caller: the object, and the index in it.
  \<open>uio_offset\<close> is never set nor read.
\<close>

record iovec =
  iov_obj :: "u8 list"
  iov_base :: nat
  iov_len :: cint

record uio =
  uio_iov :: iovec
  uio_resid :: cint
  uio_rw :: uio_rw

record tm =
  tm_sec :: cint
  tm_min :: cint
  tm_hour :: cint
  tm_mday :: cint
  tm_mon :: cint
  tm_year :: cint

text \<open>What the data pointer of an ioctl refers to.\<close>

datatype ioctl_data = NULL | Int_data cint | Tm_data tm

record ('d, 's) dev_ops =
  d_open :: "'d vnode \<Rightarrow> 's \<Rightarrow> (cint \<times> 'd vnode \<times> 's) option"
  d_close :: "'d vnode \<Rightarrow> 's \<Rightarrow> (cint \<times> 'd vnode \<times> 's) option"
  d_read :: "'d vnode \<Rightarrow> uio \<Rightarrow> 's \<Rightarrow> (cint \<times> 'd vnode \<times> uio \<times> 's) option"
  d_write :: "'d vnode \<Rightarrow> uio \<Rightarrow> 's \<Rightarrow> (cint \<times> 'd vnode \<times> uio \<times> 's) option"
  d_ioctl :: "'d vnode \<Rightarrow> u8 \<Rightarrow> ioctl_data \<Rightarrow> 's \<Rightarrow> (cint \<times> 'd vnode \<times> ioctl_data \<times> 's) option"

section \<open>The switch\<close>

text \<open>The table \<open>devices\<close>: a global array, so its entries are NULL until they are mapped.\<close>

type_synonym ('d, 's) dev_table = "('d, 's) dev_ops option list"

definition no_devices :: "('d, 's) dev_table" where
  "no_devices = replicate DRIVER_NB None"

definition driver_map :: "dev_id \<Rightarrow> ('d, 's) dev_ops \<Rightarrow> ('d, 's) dev_table \<Rightarrow> ('d, 's) dev_table" where
  "driver_map i ops devices = devices[dev_id_code i := Some ops]"

text \<open>\<open>devices[vnode->dev_id]->\<close>: an index outside the array or a NULL entry has no result.\<close>

definition driver :: "('d, 's) dev_table \<Rightarrow> 'd vnode \<Rightarrow> ('d, 's) dev_ops option" where
  "driver devices v =
     (if 0 \<le> sint (dev_id v) \<and> sint (dev_id v) < int (length devices)
      then devices ! nat (sint (dev_id v)) else None)"

definition dev_open :: "('d, 's) dev_table \<Rightarrow> 'd vnode \<Rightarrow> 's \<Rightarrow> (cint \<times> 'd vnode \<times> 's) option" where
  "dev_open devices v s = do { ops \<leftarrow> driver devices v; d_open ops v s }"

definition dev_close :: "('d, 's) dev_table \<Rightarrow> 'd vnode \<Rightarrow> 's \<Rightarrow> (cint \<times> 'd vnode \<times> 's) option" where
  "dev_close devices v s = do { ops \<leftarrow> driver devices v; d_close ops v s }"

definition dev_ioctl ::
    "('d, 's) dev_table \<Rightarrow> 'd vnode \<Rightarrow> u8 \<Rightarrow> ioctl_data \<Rightarrow> 's \<Rightarrow> (cint \<times> 'd vnode \<times> ioctl_data \<times> 's) option" where
  "dev_ioctl devices v code d s = do { ops \<leftarrow> driver devices v; d_ioctl ops v code d s }"

text \<open>The result of \<open>d_write\<close> is dropped; the returned count is computed unsigned.\<close>

definition dev_write ::
    "('d, 's) dev_table \<Rightarrow> u8 list \<Rightarrow> u32 \<Rightarrow> 'd vnode \<Rightarrow> 's \<Rightarrow> (cint \<times> 'd vnode \<times> 's) option" where
  "dev_write devices ptr count v s = do {
     ops \<leftarrow> driver devices v;
     (_, v', u', s') \<leftarrow> d_write ops v
        \<lparr>uio_iov = \<lparr>iov_obj = ptr, iov_base = 0, iov_len = count\<rparr>,
         uio_resid = count, uio_rw = UIO_WRITE\<rparr> s;
     Some (count - uio_resid u', v', s')
   }"

partial_function (option) dev_read_loop ::
    "('d, 's) dev_ops \<Rightarrow> u32 \<Rightarrow> 'd vnode \<Rightarrow> uio \<Rightarrow> 's \<Rightarrow> ('d vnode \<times> uio \<times> 's) option" where
  "dev_read_loop ops count v u s =
     (if cless 0 (uio_resid u)
      then Option.bind
             (d_read ops v
               (u\<lparr>uio_iov := (uio_iov u)\<lparr>iov_base := unat (count - uio_resid u)\<rparr>\<rparr>) s)
             (\<lambda>(_, v', u', s'). dev_read_loop ops count v' u' s')
      else Some (v, u, s))"

declare dev_read_loop.simps [code]

definition dev_read ::
    "('d, 's) dev_table \<Rightarrow> u8 list \<Rightarrow> u32 \<Rightarrow> 'd vnode \<Rightarrow> 's \<Rightarrow> (cint \<times> u8 list \<times> 'd vnode \<times> 's) option" where
  "dev_read devices ptr count v s = do {
     ops \<leftarrow> driver devices v;
     (v', u', s') \<leftarrow> dev_read_loop ops count v
        \<lparr>uio_iov = \<lparr>iov_obj = ptr, iov_base = 0, iov_len = 0\<rparr>,
         uio_resid = count, uio_rw = UIO_READ\<rparr> s;
     Some (count - uio_resid u', iov_obj (uio_iov u'), v', s')
   }"

definition dev_seek :: "cint \<Rightarrow> seek_whence \<Rightarrow> 'd vnode \<Rightarrow> cint \<times> 'd vnode" where
  "dev_seek off whence v = (case whence of
       SEEK_SET \<Rightarrow>
         if cless off 0 then (- 1, v)
         else let v' = v\<lparr>offset := off\<rparr> in (offset v', v')
     | SEEK_CUR \<Rightarrow>
         if cless off 0 \<and> cless (offset v) (- off) then (- 1, v)
         else let v' = v\<lparr>offset := offset v + off\<rparr> in (offset v', v')
     | _ \<Rightarrow> (- 1, v))"

section \<open>Mapping drivers\<close>

lemma length_driver_map [simp]: "length (driver_map i ops devices) = length devices"
  by (simp add: driver_map_def)

lemma length_no_devices [simp]: "length no_devices = DRIVER_NB"
  by (simp add: no_devices_def)

text \<open>A node of device \<open>i\<close>.\<close>

definition node_of :: "dev_id \<Rightarrow> 'd vnode \<Rightarrow> bool" where
  "node_of i v \<longleftrightarrow> sint (dev_id v) = int (dev_id_code i)"

lemma driver_map_same:
  "length devices = DRIVER_NB \<Longrightarrow> node_of i v \<Longrightarrow> driver (driver_map i ops devices) v = Some ops"
  using dev_id_code_less [of i] by (simp add: driver_def driver_map_def node_of_def)

lemma driver_map_other:
  "node_of j v \<Longrightarrow> i \<noteq> j \<Longrightarrow> driver (driver_map i ops devices) v = driver devices v"
  by (simp add: driver_def driver_map_def node_of_def)

lemma driver_unmapped: "driver no_devices v = None"
  by (auto simp: driver_def no_devices_def)

section \<open>Whole transfers\<close>

text \<open>The bytes a write descriptor designates, and a descriptor after a whole read of \<open>bs\<close>.\<close>

definition uio_bytes :: "uio \<Rightarrow> u8 list" where
  "uio_bytes u = take (unat (uio_resid u)) (drop (iov_base (uio_iov u)) (iov_obj (uio_iov u)))"

definition uio_in_bounds :: "uio \<Rightarrow> bool" where
  "uio_in_bounds u \<longleftrightarrow> unat (uio_resid u) < 2 ^ 31 \<and>
     iov_base (uio_iov u) + unat (uio_resid u) \<le> length (iov_obj (uio_iov u))"

definition overwrite :: "nat \<Rightarrow> 'a list \<Rightarrow> 'a list \<Rightarrow> 'a list" where
  "overwrite p bs xs = take p xs @ bs @ drop (p + length bs) xs"

lemma length_overwrite [simp]: "p + length bs \<le> length xs \<Longrightarrow> length (overwrite p bs xs) = length xs"
  by (simp add: overwrite_def)

definition uio_done :: "u8 list \<Rightarrow> uio \<Rightarrow> uio" where
  "uio_done bs u = u\<lparr>uio_iov := (uio_iov u)\<lparr>iov_obj := overwrite (iov_base (uio_iov u)) bs (iov_obj (uio_iov u))\<rparr>,
     uio_resid := 0\<rparr>"

text \<open>
  The contract of a driver that transfers whole buffers: a write hands all the bytes of
  the descriptor to the device, in order, a read fills the descriptor with as many bytes
  as it asks for; both leave nothing to transfer and return 0.
\<close>

locale stream_device =
  fixes rd :: "'d vnode \<Rightarrow> uio \<Rightarrow> 's \<Rightarrow> (cint \<times> 'd vnode \<times> uio \<times> 's) option"
    and wr :: "'d vnode \<Rightarrow> uio \<Rightarrow> 's \<Rightarrow> (cint \<times> 'd vnode \<times> uio \<times> 's) option"
    and fetch :: "'d vnode \<Rightarrow> nat \<Rightarrow> 's \<Rightarrow> (u8 list \<times> 's) option"
    and emit :: "'d vnode \<Rightarrow> u8 list \<Rightarrow> 's \<Rightarrow> 's option"
  assumes write_law: "uio_in_bounds u \<Longrightarrow>
      wr v u s = map_option (\<lambda>s'. (0, v, u\<lparr>uio_resid := 0\<rparr>, s')) (emit v (uio_bytes u) s)"
    and read_law: "uio_in_bounds u \<Longrightarrow>
      rd v u s = map_option (\<lambda>(bs, s'). (0, v, uio_done bs u, s')) (fetch v (unat (uio_resid u)) s)"
    and fetch_length: "fetch v n s = Some (bs, s') \<Longrightarrow> length bs = n"
begin

lemma dev_write_emits:
  assumes "driver devices v = Some ops" "d_write ops = wr"
    and "unat count < 2 ^ 31" "unat count \<le> length ptr"
  shows "dev_write devices ptr count v s =
    map_option (\<lambda>s'. (count, v, s')) (emit v (take (unat count) ptr) s)"
  using assms
  by (cases "emit v (take (unat count) ptr) s")
    (simp_all add: dev_write_def write_law uio_in_bounds_def uio_bytes_def)

text \<open>One call of the driver satisfies the whole read.\<close>

lemma dev_read_fetches:
  assumes "driver devices v = Some ops" "d_read ops = rd"
    and "0 < unat count" "unat count < 2 ^ 31" "unat count \<le> length ptr"
  shows "dev_read devices ptr count v s =
    map_option (\<lambda>(bs, s'). (count, overwrite 0 bs ptr, v, s')) (fetch v (unat count) s)"
proof -
  let ?u = "\<lparr>uio_iov = \<lparr>iov_obj = ptr, iov_base = 0, iov_len = 0\<rparr>,
             uio_resid = count, uio_rw = UIO_READ\<rparr>"
  have "rd v ?u s = map_option (\<lambda>(bs, s'). (0, v, uio_done bs ?u, s')) (fetch v (unat count) s)"
    using assms by (simp add: read_law uio_in_bounds_def)
  moreover have "dev_read_loop ops count v' u' s' = Some (v', u', s')"
    if "uio_resid u' = 0" for v' u' s'
    using that by (simp add: dev_read_loop.simps [of ops count v' u'] cless_0)
  ultimately have "dev_read_loop ops count v ?u s =
      map_option (\<lambda>(bs, s'). (v, uio_done bs ?u, s')) (fetch v (unat count) s)"
    using assms
    by (subst dev_read_loop.simps, cases "fetch v (unat count) s") (auto simp: cless_0 uio_done_def)
  then show ?thesis
    using assms
    by (cases "fetch v (unat count) s") (auto simp: dev_read_def uio_done_def)
qed

lemma dev_read_nothing:
  assumes "driver devices v = Some ops"
  shows "dev_read devices ptr 0 v s = Some (0, ptr, v, s)"
  using assms
  by (simp add: dev_read_def dev_read_loop.simps cless_0)

end

section \<open>Devices without data\<close>

text \<open>
  A driver whose read transfers nothing: the loop of \<open>dev_read\<close> never ends, whatever the
  driver does to its device.
\<close>

definition transfers_nothing :: "('d, 's) dev_ops \<Rightarrow> bool" where
  "transfers_nothing ops \<longleftrightarrow>
     (\<forall>v u s r v' u' s'. d_read ops v u s = Some (r, v', u', s') \<longrightarrow> uio_resid u' = uio_resid u)"

lemma dev_read_loop_stuck:
  assumes "dev_read_loop ops count v u s = Some res"
  shows "transfers_nothing ops \<longrightarrow> \<not> cless 0 (uio_resid u)"
  using assms
proof (rule dev_read_loop.raw_induct
    [where P = "\<lambda>ops count v u s res. transfers_nothing ops \<longrightarrow> \<not> cless 0 (uio_resid u)", rotated])
  fix f :: "('d, 's) dev_ops \<Rightarrow> u32 \<Rightarrow> 'd vnode \<Rightarrow> uio \<Rightarrow> 's \<Rightarrow> ('d vnode \<times> uio \<times> 's) option"
    and ops count v s res and u :: uio
  assume IH: "\<And>ops count v u s res. f ops count v u s = Some res \<Longrightarrow>
      transfers_nothing ops \<longrightarrow> \<not> cless 0 (uio_resid u)"
  let ?u = "u\<lparr>uio_iov := (uio_iov u)\<lparr>iov_base := unat (count - uio_resid u)\<rparr>\<rparr>"
  assume r: "(if cless 0 (uio_resid u)
      then Option.bind (d_read ops v ?u s) (\<lambda>(_, v', u', s'). f ops count v' u' s')
      else Some (v, u, s)) = Some res"
  show "transfers_nothing ops \<longrightarrow> \<not> cless 0 (uio_resid u)"
  proof (intro impI notI)
    assume n: "transfers_nothing ops" and c: "cless 0 (uio_resid u)"
    with r obtain x v' u' s' where d: "d_read ops v ?u s = Some (x, v', u', s')"
      "f ops count v' u' s' = Some res"
      by (auto simp: Option.bind_eq_Some_conv)
    from n d(1) have "uio_resid u' = uio_resid u" by (fastforce simp: transfers_nothing_def)
    with IH [OF d(2)] n c show False by simp
  qed
qed

lemma dev_read_stuck:
  assumes "driver devices v = Some ops"
    and "transfers_nothing ops"
    and "0 < unat count" "unat count < 2 ^ 31"
  shows "dev_read devices ptr count v s = None"
proof -
  have "dev_read_loop ops count v \<lparr>uio_iov = \<lparr>iov_obj = ptr, iov_base = 0, iov_len = 0\<rparr>,
      uio_resid = count, uio_rw = UIO_READ\<rparr> s = None"
    (is "?r = None")
  proof (cases ?r)
    case (Some res)
    from dev_read_loop_stuck [OF this] assms show ?thesis by (simp add: cless_0)
  qed
  then show ?thesis by (simp add: dev_read_def assms(1))
qed

section \<open>Seeking\<close>

text \<open>The position a seek asks for, over the integers; none for the end of the device.\<close>

fun seek_target :: "seek_whence \<Rightarrow> int \<Rightarrow> int \<Rightarrow> int option" where
  "seek_target SEEK_SET pos off = Some off"
| "seek_target SEEK_CUR pos off = Some (pos + off)"
| "seek_target SEEK_END pos off = None"

lemma sint_minus: "sint (x :: cint) \<noteq> - (2 ^ 31) \<Longrightarrow> sint (- x) = - sint x"
proof -
  assume n: "sint x \<noteq> - (2 ^ 31)"
  have "- (2 ^ 31) \<le> sint x" "sint x < 2 ^ 31"
    using sint_cint [of x] by simp_all
  moreover have "sint (- x) = signed_take_bit 31 (- sint x)"
    by (simp add: sint_word_ariths)
  ultimately show ?thesis using n by (simp add: signed_take_bit_int_eq_self)
qed

text \<open>
  Seeking. From a position in the device (not negative), and unless the sum overflows an
  int, \<open>dev_seek\<close> moves the node to the position asked for and returns it; for a position
  before the start, and for \<open>SEEK_END\<close>, it returns -1 and leaves the node unchanged.
\<close>

theorem dev_seek_moves:
  assumes "0 \<le> sint (offset v)" "sint off \<noteq> - (2 ^ 31)" "sint (offset v) + sint off < 2 ^ 31"
  shows "case seek_target whence (sint (offset v)) (sint off) of
      None \<Rightarrow> dev_seek off whence v = (- 1, v)
    | Some t \<Rightarrow> if t < 0 then dev_seek off whence v = (- 1, v)
        else \<exists>r. dev_seek off whence v = (r, v\<lparr>offset := r\<rparr>) \<and> sint r = t"
proof (cases whence)
  case SEEK_CUR
  have lo: "- (2 ^ 31) \<le> sint off" "sint (offset v) < 2 ^ 31"
    using sint_cint [of off] sint_cint [of "offset v"] by simp_all
  have sum: "sint (offset v + off) = sint (offset v) + sint off"
    using assms lo by (intro sint_add_no_overflow) auto
  have "cless off 0 \<and> cless (offset v) (- off) \<longleftrightarrow> sint (offset v) + sint off < 0"
    using assms(1) sint_minus [OF assms(2)] by (auto simp: cless_def)
  then show ?thesis using sum by (simp add: dev_seek_def SEEK_CUR Let_def)
qed (auto simp: dev_seek_def cless_def Let_def)

definition demo_vnode :: "unit vnode" where
  "demo_vnode = \<lparr>dev_type = MMC, dev_id = 5, endpt = 0, offset = 512, data = ()\<rparr>"

theorem dev_seek_moves_witness:
  "\<exists>r. dev_seek (- 12) SEEK_CUR demo_vnode = (r, demo_vnode\<lparr>offset := r\<rparr>) \<and> sint r = 500"
  using dev_seek_moves [of demo_vnode "- 12" SEEK_CUR]
  by (simp add: demo_vnode_def)

text \<open>
  Seeking by the least int escapes the check. The test \<open>-offset > vnode->offset\<close>
  overflows for -2147483648, so from any position the seek is accepted and leaves the node
  at a negative position.
\<close>

theorem dev_seek_int_min:
  assumes "0 \<le> sint (offset v)"
  shows "\<exists>r. dev_seek (- (2 ^ 31)) SEEK_CUR v = (r, v\<lparr>offset := r\<rparr>) \<and>
    sint r = sint (offset v) - 2 ^ 31 \<and> sint r < 0"
proof -
  have m: "sint (- (2 ^ 31) :: cint) = - (2 ^ 31)" "- (- (2 ^ 31) :: cint) = - (2 ^ 31)"
    by code_simp+
  have hi: "sint (offset v) < 2 ^ 31" using sint_cint [of "offset v"] by simp
  then have "sint (offset v + - (2 ^ 31)) = sint (offset v) - 2 ^ 31"
    using assms m(1) sint_add_no_overflow [of "offset v" "- (2 ^ 31)"] by simp
  moreover have "\<not> cless (offset v) (- (- (2 ^ 31)))"
    using assms unfolding cless_def m by simp
  ultimately show ?thesis
    using hi by (auto simp: dev_seek_def Let_def)
qed

theorem dev_seek_int_min_witness:
  "\<exists>r. dev_seek (- (2 ^ 31)) SEEK_CUR demo_vnode = (r, demo_vnode\<lparr>offset := r\<rparr>) \<and>
     sint r = 512 - 2 ^ 31 \<and> sint r < 0"
  using dev_seek_int_min [of demo_vnode] by (simp add: demo_vnode_def)

end
