(* ===== verification/Byte_Transfer.thy ===== *)
theory Byte_Transfer
  imports Device_Switch
begin

text \<open>
  Loops the drivers share: busy waiting on a device, and the transfer of a descriptor byte
  by byte (the \<open>for(; uio->uio_resid > 0; uio->uio_resid--, ptr++)\<close> of the drivers), with
  the byte-list transfers they amount to.
\<close>

section \<open>Busy waiting\<close>

text \<open>
  \<open>while (busy());\<close> The condition reads a device register and so may change the device.
  The loop ends in \<open>s'\<close> exactly if \<open>settles busy s s'\<close>.
\<close>

partial_function (option) spin :: "('s \<Rightarrow> bool \<times> 's) \<Rightarrow> 's \<Rightarrow> 's option" where
  "spin busy s = (if fst (busy s) then spin busy (snd (busy s)) else Some (snd (busy s)))"

declare spin.simps [code]

inductive settles :: "('s \<Rightarrow> bool \<times> 's) \<Rightarrow> 's \<Rightarrow> 's \<Rightarrow> bool" for busy where
  settles_now: "busy s = (False, s') \<Longrightarrow> settles busy s s'"
| settles_later: "busy s = (True, s1) \<Longrightarrow> settles busy s1 s' \<Longrightarrow> settles busy s s'"

lemma spin_settles: "spin busy s = Some s' \<longleftrightarrow> settles busy s s'"
proof
  show "spin busy s = Some s' \<Longrightarrow> settles busy s s'"
  proof (rule spin.raw_induct [where P = settles, rotated])
    fix f :: "('s \<Rightarrow> bool \<times> 's) \<Rightarrow> 's \<Rightarrow> 's option" and busy s y
    assume "\<And>busy s y. f busy s = Some y \<Longrightarrow> settles busy s y"
      "(if fst (busy s) then f busy (snd (busy s)) else Some (snd (busy s))) = Some y"
    then show "settles busy s y"
      by (cases "busy s") (auto split: if_splits intro: settles_now settles_later)
  qed
  show "settles busy s s' \<Longrightarrow> spin busy s = Some s'"
    by (induction rule: settles.induct) (simp_all add: spin.simps)
qed

text \<open>What every poll keeps holds when the wait is over.\<close>

lemma spin_keeps:
  assumes "spin busy s = Some s'" "P s" "\<And>s. P s \<Longrightarrow> P (snd (busy s))"
  shows "P s' \<and> (\<exists>s0. P s0 \<and> busy s0 = (False, s'))"
proof -
  have "settles busy s s'" using assms(1) by (simp add: spin_settles)
  then show ?thesis using assms(2)
  proof (induction rule: settles.induct)
    case (settles_now s s')
    then show ?case using assms(3) by (metis snd_conv)
  next
    case (settles_later s s1 s')
    then show ?case using assms(3) by (metis snd_conv)
  qed
qed

section \<open>Byte transfers\<close>

function write_loop :: "(u8 \<Rightarrow> 's \<Rightarrow> 's option) \<Rightarrow> nat \<Rightarrow> uio \<Rightarrow> 's \<Rightarrow> (uio \<times> 's) option" where
  "write_loop send p u s =
     (if cless 0 (uio_resid u) then
        (if p < length (iov_obj (uio_iov u)) then
           Option.bind (send (iov_obj (uio_iov u) ! p) s)
             (write_loop send (Suc p) (u\<lparr>uio_resid := uio_resid u - 1\<rparr>))
         else None)
      else Some (u, s))"
  by pat_completeness auto
termination
  by (relation "measure (\<lambda>(send, p, u, s). unat (uio_resid u))") (auto dest: cless_0_step)

function read_loop ::
    "(cint \<Rightarrow> 's \<Rightarrow> (u8 \<times> 's) option) \<Rightarrow> nat \<Rightarrow> uio \<Rightarrow> 's \<Rightarrow> (uio \<times> 's) option" where
  "read_loop recv p u s =
     (if cless 0 (uio_resid u) then
        Option.bind (recv (uio_resid u) s) (\<lambda>(ans, s').
          if p < length (iov_obj (uio_iov u)) then
            read_loop recv (Suc p)
              (u\<lparr>uio_iov := (uio_iov u)\<lparr>iov_obj := (iov_obj (uio_iov u))[p := ans]\<rparr>,
                 uio_resid := uio_resid u - 1\<rparr>) s'
          else None)
      else Some (u, s))"
  by pat_completeness auto
termination
  by (relation "measure (\<lambda>(recv, p, u, s). unat (uio_resid u))") (auto dest: cless_0_step)

declare write_loop.simps [simp del] read_loop.simps [simp del]

text \<open>The same transfers over byte lists.\<close>

fun send_all :: "(u8 \<Rightarrow> 's \<Rightarrow> 's option) \<Rightarrow> u8 list \<Rightarrow> 's \<Rightarrow> 's option" where
  "send_all send [] s = Some s"
| "send_all send (b # bs) s = Option.bind (send b s) (send_all send bs)"

fun recv_all :: "(cint \<Rightarrow> 's \<Rightarrow> (u8 \<times> 's) option) \<Rightarrow> nat \<Rightarrow> 's \<Rightarrow> (u8 list \<times> 's) option" where
  "recv_all recv 0 s = Some ([], s)"
| "recv_all recv (Suc n) s = do {
     (b, s1) \<leftarrow> recv (of_nat (Suc n)) s;
     (bs, s2) \<leftarrow> recv_all recv n s1;
     Some (b # bs, s2)
   }"

lemma recv_all_length: "recv_all recv n s = Some (bs, s') \<Longrightarrow> length bs = n"
  by (induction n arbitrary: s bs s') (auto simp: Option.bind_eq_Some_conv)

lemma send_all_append: "send_all send (as @ bs) s = Option.bind (send_all send as s) (send_all send bs)"
proof (induction as arbitrary: s)
  case (Cons a as)
  then show ?case by (cases "send a s") auto
qed simp

lemma drop_overwrite:
  "p < length xs \<Longrightarrow> overwrite (Suc p) bs (xs[p := b]) = overwrite p (b # bs) xs"
  by (simp add: overwrite_def take_Suc_conv_app_nth)

lemma write_loop_spec:
  assumes "unat (uio_resid u) < 2 ^ 31" "p + unat (uio_resid u) \<le> length (iov_obj (uio_iov u))"
  shows "write_loop send p u s =
    map_option (\<lambda>s'. (u\<lparr>uio_resid := 0\<rparr>, s'))
      (send_all send (take (unat (uio_resid u)) (drop p (iov_obj (uio_iov u)))) s)"
  using assms
proof (induction send p u s rule: write_loop.induct)
  case (1 send p u s)
  let ?obj = "iov_obj (uio_iov u)" and ?n = "unat (uio_resid u)"
  show ?case
  proof (cases "cless 0 (uio_resid u)")
    case True
    note n = cless_0_step [OF True]
    then have p: "p < length ?obj" using "1.prems" by simp
    then have "take ?n (drop p ?obj) = ?obj ! p # take (unat (uio_resid u - 1)) (drop (Suc p) ?obj)"
      using n by (simp add: Cons_nth_drop_Suc [symmetric])
    then show ?thesis
      using "1.IH" [OF True p] "1.prems" n p True
      by (cases "send (?obj ! p) s") (simp_all add: write_loop.simps [of send p u])
  next
    case False
    then have "uio_resid u = 0" using "1.prems" by (simp add: cless_0 unat_eq_zero)
    then show ?thesis using False by (simp add: write_loop.simps [of send p u])
  qed
qed

lemma read_loop_spec:
  assumes "unat (uio_resid u) < 2 ^ 31" "p + unat (uio_resid u) \<le> length (iov_obj (uio_iov u))"
  shows "read_loop recv p u s =
    map_option (\<lambda>(bs, s'). (u\<lparr>uio_iov := (uio_iov u)\<lparr>iov_obj := overwrite p bs (iov_obj (uio_iov u))\<rparr>,
        uio_resid := 0\<rparr>, s'))
      (recv_all recv (unat (uio_resid u)) s)"
  using assms
proof (induction recv p u s rule: read_loop.induct)
  case (1 recv p u s)
  let ?obj = "iov_obj (uio_iov u)" and ?n = "unat (uio_resid u)"
  show ?case
  proof (cases "cless 0 (uio_resid u)")
    case True
    note n = cless_0_step [OF True]
    then have p: "p < length ?obj" using "1.prems" by simp
    have w: "of_nat (Suc (unat (uio_resid u - 1))) = uio_resid u"
    proof -
      have "of_nat (unat (uio_resid u)) = uio_resid u" by simp
      then show ?thesis using n by (simp only:)
    qed
    show ?thesis
    proof (cases "recv (uio_resid u) s")
      case None
      then show ?thesis using True n w by (simp add: read_loop.simps [of recv p u])
    next
      case (Some r)
      obtain b s1 where r: "r = (b, s1)" by (cases r)
      let ?u = "u\<lparr>uio_iov := (uio_iov u)\<lparr>iov_obj := ?obj[p := b]\<rparr>, uio_resid := uio_resid u - 1\<rparr>"
      have IH: "read_loop recv (Suc p) ?u s1 =
        map_option (\<lambda>(bs, s'). (?u\<lparr>uio_iov := (uio_iov ?u)\<lparr>iov_obj := overwrite (Suc p) bs (iov_obj (uio_iov ?u))\<rparr>,
            uio_resid := 0\<rparr>, s'))
          (recv_all recv (unat (uio_resid ?u)) s1)"
        using "1.IH" [OF True Some r [symmetric] p] "1.prems" n by simp
      have "read_loop recv p u s = read_loop recv (Suc p) ?u s1"
        using True Some r p by (simp add: read_loop.simps [of recv p u])
      moreover have "recv_all recv ?n s =
          map_option (\<lambda>(bs, s'). (b # bs, s')) (recv_all recv (unat (uio_resid ?u)) s1)"
        using Some r n w by (cases "recv_all recv (unat (uio_resid ?u)) s1") auto
      ultimately show ?thesis
        using p unfolding IH
        by (cases "recv_all recv (unat (uio_resid ?u)) s1") (auto simp: drop_overwrite)
    qed
  next
    case False
    then have "uio_resid u = 0" using "1.prems" by (simp add: cless_0 unat_eq_zero)
    then show ?thesis using False by (simp add: read_loop.simps [of recv p u] overwrite_def)
  qed
qed

end
