(* ===== verification/Libc_String.thy ===== *)
theory Libc_String
  imports Byte_Transfer
begin

text \<open>
  The string functions of src/src/lib/libc/string. A pointer to characters is the list of the bytes from
  there to the end of the object it points into; reading or writing past that end has no
  result.
\<close>

section \<open>strcpy and strncpy\<close>

text \<open>\<open>strcpy\<close> stops at the NUL of the source without copying it.\<close>

fun strcpy :: "u8 list \<Rightarrow> u8 list \<Rightarrow> u8 list option" where
  "strcpy dst [] = None"
| "strcpy dst (c # cs) =
     (if c = 0 then Some dst
      else case dst of [] \<Rightarrow> None | d # ds \<Rightarrow> map_option (Cons c) (strcpy ds cs))"

text \<open>The two loops of \<open>strncpy\<close>, with \<open>n = num - i\<close>.\<close>

fun strncpy_pad :: "nat \<Rightarrow> u8 list \<Rightarrow> u8 list option" where
  "strncpy_pad 0 dst = Some dst"
| "strncpy_pad (Suc n) [] = None"
| "strncpy_pad (Suc n) (d # ds) = map_option (Cons 0) (strncpy_pad n ds)"

fun strncpy_copy :: "nat \<Rightarrow> u8 list \<Rightarrow> u8 list \<Rightarrow> u8 list option" where
  "strncpy_copy 0 dst src = Some dst"
| "strncpy_copy (Suc n) dst [] = None"
| "strncpy_copy (Suc n) dst (c # cs) =
     (if c = 0 then strncpy_pad (Suc n) dst
      else case dst of [] \<Rightarrow> None | d # ds \<Rightarrow> map_option (Cons c) (strncpy_copy n ds cs))"

definition strncpy :: "u8 list \<Rightarrow> u8 list \<Rightarrow> u32 \<Rightarrow> u8 list option" where
  "strncpy destination source num = strncpy_copy (unat num) destination source"

text \<open>The bytes of a C string and its terminator.\<close>

definition c_string :: "u8 list \<Rightarrow> bool" where
  "c_string s \<longleftrightarrow> 0 \<notin> set s"

lemma strcpy_eq:
  "c_string s \<Longrightarrow> strcpy dst (s @ 0 # rest) =
     (if length s \<le> length dst then Some (overwrite 0 s dst) else None)"
proof (induction s arbitrary: dst)
  case (Cons c s)
  then show ?case by (cases dst) (auto simp: c_string_def overwrite_def)
qed (simp add: overwrite_def)

lemma strncpy_pad_eq:
  "n \<le> length dst \<Longrightarrow> strncpy_pad n dst = Some (replicate n 0 @ drop n dst)"
  by (induction n dst rule: strncpy_pad.induct) auto

lemma strncpy_copy_eq:
  assumes "c_string s" "n \<le> length dst"
  shows "strncpy_copy n dst (s @ 0 # rest) = Some (take n (s @ replicate n 0) @ drop n dst)"
  using assms
proof (induction s arbitrary: n dst)
  case Nil
  then show ?case by (cases n) (auto simp: strncpy_pad_eq simp del: strncpy_pad.simps replicate.simps)
next
  case (Cons c s)
  show ?case
  proof (cases n)
    case (Suc m)
    then obtain d ds where d: "dst = d # ds" using Cons.prems(2) by (cases dst) auto
    have "strncpy_copy m ds (s @ 0 # rest) = Some (take m (s @ replicate m 0) @ drop m ds)"
      using Cons Suc d by (intro Cons.IH) (auto simp: c_string_def)
    moreover have "take m (s @ replicate m 0) = take m (s @ replicate (Suc m) 0)"
      by (simp add: take_replicate min_def del: replicate.simps)
    ultimately show ?thesis using Cons.prems(1) Suc d by (simp add: c_string_def)
  qed simp
qed

text \<open>
  \<open>strncpy\<close> copies a terminated string into a large enough buffer: the first \<open>num\<close> bytes of
  the buffer become the string, cut off or filled up with NULs to \<open>num\<close> bytes, and the rest of
  the buffer is unchanged.
\<close>

theorem strncpy_copies:
  assumes "c_string s" "unat num \<le> length dst"
  shows "strncpy dst (s @ 0 # rest) num =
    Some (take (unat num) (s @ replicate (unat num) 0) @ drop (unat num) dst)"
  using strncpy_copy_eq [OF assms] by (simp add: strncpy_def)

theorem strncpy_copies_witness:
  "strncpy [1, 2, 3, 4, 5] ([65, 66] @ 0 # [9]) 4 = Some [65, 66, 0, 0, 5]"
proof -
  have "replicate 4 (0 :: u8) = [0, 0, 0, 0]" by code_simp
  then show ?thesis
    using strncpy_copies [of "[65, 66]" 4 "[1, 2, 3, 4, 5]" "[9]"] by (simp add: c_string_def)
qed

text \<open>
  \<open>strcpy\<close> does not terminate its copy. It writes the characters of the string and leaves
  the byte after them, where the NUL belongs, as it was.
\<close>

theorem strcpy_leaves_terminator:
  assumes "c_string s" "length s < length dst"
  shows "\<exists>dst'. strcpy dst (s @ 0 # rest) = Some dst' \<and> take (length s) dst' = s \<and>
    drop (length s) dst' = drop (length s) dst"
  using strcpy_eq [OF assms(1), of dst rest] assms(2) by (simp add: overwrite_def)

theorem strcpy_leaves_terminator_witness:
  "\<exists>dst'. strcpy [7, 7, 7, 7] ([65, 66] @ 0 # []) = Some dst' \<and> take 2 dst' = [65, 66] \<and> drop 2 dst' = [7, 7]"
  using strcpy_leaves_terminator [of "[65, 66]" "[7, 7, 7, 7]" "[]"]
  by (simp add: c_string_def)

end
