(* ===== verification/Libc_Digits.thy ===== *)
theory Libc_Digits
  imports Libc_String
begin

text \<open>
  The conversions of numbers to text of src/src/lib/libc/stdio/printf.c, \<open>ui2a\<close> and \<open>i2a\<close>: the
  loops on machine words, the digits they compute, and the space the texts need.
\<close>

section \<open>Numbers to text\<close>

text \<open>
  The two loops of \<open>ui2a\<close>: \<open>num\<close> has 64 bits, \<open>base\<close> and \<open>d\<close> have 32, \<open>dgt\<close> is an int. A
  division by zero has no result; \<open>p\<close> is the index of \<open>bf\<close> in the array it points into.
\<close>

partial_function (option) ui2a_scale :: "u64 \<Rightarrow> u32 \<Rightarrow> u32 \<Rightarrow> u32 option" where
  "ui2a_scale num base d =
     (if d = 0 then None
      else if ucast base \<le> num div ucast d then ui2a_scale num base (d * base)
      else Some d)"

partial_function (option) ui2a_digits ::
    "u64 \<Rightarrow> u32 \<Rightarrow> u32 \<Rightarrow> cint \<Rightarrow> nat \<Rightarrow> u8 list \<Rightarrow> (nat \<times> u8 list) option" where
  "ui2a_digits num base d n p bf =
     (if d = 0 then Some (p, bf)
      else if base = 0 then None
      else
        let dgt = ucast (num div ucast d);
            num' = num - ucast (dgt * d);
            d' = d div base
        in if n \<noteq> 0 \<or> cless 0 dgt \<or> d' = 0
           then if p < length bf
                then ui2a_digits num' base d' (n + 1) (Suc p)
                       (bf[p := ucast (dgt + (if cless dgt 10 then 0x30 else 0x41 - 10))])
                else None
           else ui2a_digits num' base d' n p bf)"

declare ui2a_scale.simps [code] ui2a_digits.simps [code]

definition ui2a :: "u64 \<Rightarrow> u32 \<Rightarrow> nat \<Rightarrow> u8 list \<Rightarrow> u8 list option" where
  "ui2a num base p bf = do {
     d \<leftarrow> ui2a_scale num base 1;
     (p', bf') \<leftarrow> ui2a_digits num base d 0 p bf;
     if p' < length bf' then Some (bf'[p' := 0]) else None
   }"

definition i2a :: "u64 \<Rightarrow> u32 \<Rightarrow> nat \<Rightarrow> u8 list \<Rightarrow> u8 list option" where
  "i2a num base p bf =
     (if sint num < 0
      then if p < length bf then ui2a (- num) base (Suc p) (bf[p := 0x2D]) else None
      else ui2a num base p bf)"

section \<open>The digits they print\<close>

fun digits_of :: "nat \<Rightarrow> nat \<Rightarrow> nat list" where
  "digits_of b n = (if b < 2 \<or> n < b then [n] else digits_of b (n div b) @ [n mod b])"

declare digits_of.simps [simp del]

definition digit_char :: "nat \<Rightarrow> u8" where
  "digit_char d = of_nat (if d < 10 then 48 + d else 55 + d)"

definition nat_text :: "nat \<Rightarrow> nat \<Rightarrow> u8 list" where
  "nat_text b n = map digit_char (digits_of b n)"

definition int_text :: "nat \<Rightarrow> int \<Rightarrow> u8 list" where
  "int_text b i = (if i < 0 then [0x2D] else []) @ nat_text b (nat \<bar>i\<bar>)"

text \<open>The digits from the most significant position \<open>k\<close> down.\<close>

fun pos_digits :: "nat \<Rightarrow> nat \<Rightarrow> nat \<Rightarrow> nat list" where
  "pos_digits b 0 n = [n]"
| "pos_digits b (Suc k) n = n div b ^ Suc k # pos_digits b k (n mod b ^ Suc k)"

lemma length_pos_digits [simp]: "length (pos_digits b k n) = Suc k"
  by (induction k arbitrary: n) auto

lemma mod_mult_div: "0 < b \<Longrightarrow> n mod (b * m) div b = n div b mod (m :: nat)"
  by (simp add: mod_mult2_eq)

lemma pos_digits_snoc:
  "0 < b \<Longrightarrow> pos_digits b (Suc k) n = pos_digits b k (n div b) @ [n mod b]"
proof (induction k arbitrary: n)
  case (Suc k)
  let ?n = "n mod b ^ Suc (Suc k)"
  have "pos_digits b (Suc (Suc k)) n = n div b ^ Suc (Suc k) # pos_digits b (Suc k) ?n"
    by simp
  also have "pos_digits b (Suc k) ?n = pos_digits b k (?n div b) @ [?n mod b]"
    by (rule Suc.IH [OF Suc.prems])
  also have "?n mod b = n mod b" by (simp add: mod_mod_cancel)
  also have "?n div b = (n div b) mod b ^ Suc k"
    using mod_mult_div [OF Suc.prems, of n "b ^ Suc k"] by simp
  also have "n div b ^ Suc (Suc k) = n div b div b ^ Suc k"
    by (simp add: div_mult2_eq)
  finally show ?case by simp
qed simp

lemma pos_digits_eq:
  assumes "2 \<le> b" "n < b ^ Suc k" "k = 0 \<or> b ^ k \<le> n"
  shows "pos_digits b k n = digits_of b n"
  using assms
proof (induction k arbitrary: n)
  case 0
  then show ?case by (simp add: digits_of.simps)
next
  case (Suc k)
  have "b \<le> n"
    using Suc.prems by (auto intro: order_trans [rotated])
  have "n div b < b ^ Suc k" using Suc.prems by (simp add: less_mult_imp_div_less mult.commute)
  moreover have "b ^ k \<le> n div b"
    using Suc.prems by (simp add: less_eq_div_iff_mult_less_eq mult.commute)
  ultimately have "pos_digits b k (n div b) = digits_of b (n div b)"
    using Suc.IH [of "n div b"] Suc.prems(1) by blast
  then show ?case
    using \<open>b \<le> n\<close> Suc.prems(1) pos_digits_snoc [of b k n] digits_of.simps [of b n] by simp
qed

section \<open>The conversion is right\<close>

lemma ui2a_scale_spec:
  assumes "unat num < 2 ^ 32" "2 \<le> unat base" "unat d = unat base ^ j" "j = 0 \<or> unat base ^ j \<le> unat num"
  shows "\<exists>k d'. ui2a_scale num base d = Some d' \<and> unat d' = unat base ^ k \<and>
    unat num < unat base ^ Suc k \<and> (k = 0 \<or> unat base ^ k \<le> unat num)"
  using assms(3,4)
proof (induction "unat num div unat d" arbitrary: d j rule: less_induct)
  case less
  have d: "d \<noteq> 0" "0 < unat d" using less.prems(1) assms(2) by (auto simp: unat_eq_0 [symmetric] simp del: unat_eq_0)
  have q: "unat (num div ucast d) = unat num div unat d"
    by (simp add: unat_div unat_ucast_up)
  have le: "ucast base \<le> num div ucast d \<longleftrightarrow> unat base \<le> unat num div unat d"
    by (simp add: word_le_nat_alt q unat_ucast_up)
  show ?case
  proof (cases "unat base \<le> unat num div unat d")
    case True
    then have "unat base * unat d \<le> unat num"
      using d(2) by (simp add: less_eq_div_iff_mult_less_eq)
    then have up: "unat d * unat base \<le> unat num" by (simp add: mult.commute)
    then have "unat (d * base) = unat d * unat base"
      using assms(1) by (intro unat_mult_lem [THEN iffD1]) simp
    then have e: "unat (d * base) = unat base ^ Suc j" using less.prems(1) by simp
    have "unat num div unat (d * base) < unat num div unat d"
    proof -
      have "unat num div unat (d * base) = unat num div unat d div unat base"
        using \<open>unat (d * base) = unat d * unat base\<close> by (simp add: div_mult2_eq)
      also have "\<dots> < unat num div unat d"
        using True assms(2) by (intro div_less_dividend) auto
      finally show ?thesis .
    qed
    from less.hyps [OF this e] show ?thesis
      using True le d up e less.prems by (subst ui2a_scale.simps) (simp add: mult.commute)
  next
    case False
    then have "unat num div unat d < unat base" by simp
    then have "unat num < unat base * unat d"
      using div_less_iff_less_mult [OF d(2)] by blast
    then have "unat num < unat base ^ Suc j" using less.prems(1) by simp
    then show ?thesis
      using False le d less.prems by (subst ui2a_scale.simps) auto
  qed
qed

text \<open>The character the loop stores for a digit.\<close>

definition ui2a_char :: "cint \<Rightarrow> u8" where
  "ui2a_char dgt = ucast (dgt + (if cless dgt 10 then 0x30 else 0x41 - 10))"

lemma ui2a_char_eq:
  assumes "unat dgt < 36"
  shows "ui2a_char dgt = digit_char (unat dgt)"
proof -
  have "\<forall>x \<in> set [0 ..< 36]. ui2a_char (of_nat x) = digit_char x" by code_simp
  from bspec [OF this, of "unat dgt"] assms show ?thesis by simp
qed

lemma overwrite_single: "p < length xs \<Longrightarrow> overwrite p [x] xs = xs[p := x]"
  by (simp add: overwrite_def upd_conv_take_nth_drop)

lemma overwrite_snoc:
  "p + length bs < length xs \<Longrightarrow> (overwrite p bs xs)[p + length bs := b] = overwrite p (bs @ [b]) xs"
  by (simp add: overwrite_def list_update_append upd_conv_take_nth_drop min_def)

text \<open>One round of the digit loop.\<close>

lemma ui2a_digits_round:
  assumes "unat num < 2 ^ 32" "2 \<le> unat base" "unat base \<le> 36" "unat d = unat base ^ k"
    and "unat num < unat base ^ Suc k" "n \<noteq> 0 \<or> k = 0 \<or> unat base ^ k \<le> unat num" "p < length bf"
  shows "\<exists>num' d'. ui2a_digits num base d n p bf =
      ui2a_digits num' base d' (n + 1) (Suc p) (bf[p := digit_char (unat num div unat base ^ k)]) \<and>
    unat num' = unat num mod unat base ^ k \<and>
    unat d' = (if k = 0 then 0 else unat base ^ (k - 1))"
proof -
  define dgt :: cint where "dgt = ucast (num div ucast d)"
  have B: "0 < unat base" using assms(2) by simp
  have d0: "d \<noteq> 0" using assms(4) B by (auto simp: unat_eq_0 [symmetric] simp del: unat_eq_0)
  have b0: "base \<noteq> 0" using B by auto
  have q: "unat (num div ucast d) = unat num div unat base ^ k"
    by (simp add: unat_div unat_ucast_up assms(4))
  have lt: "unat num div unat base ^ k < unat base"
    using assms(5) B by (simp add: less_mult_imp_div_less)
  have dg: "unat dgt = unat num div unat base ^ k"
  proof -
    have "unat dgt = take_bit 32 (unat num div unat base ^ k)"
      by (simp add: dgt_def unsigned_ucast_eq q)
    then show ?thesis using lt assms(3) by (simp add: take_bit_nat_eq_self)
  qed
  have le: "unat dgt * unat d \<le> unat num" unfolding dg assms(4) by simp
  then have m: "unat (dgt * d) = unat dgt * unat d"
    using assms(1) by (intro unat_mult_lem [THEN iffD1]) simp
  have "unat (ucast (dgt * d) :: u64) = unat dgt * unat d"
    by (simp only: m unat_ucast_up [where 'a = 32 and 'b = 64, simplified])
  moreover from this have "ucast (dgt * d) \<le> num" using le by (simp add: word_le_nat_alt)
  ultimately have num': "unat (num - ucast (dgt * d)) = unat num - unat dgt * unat d"
    by (simp add: unat_sub)
  then have num'': "unat (num - ucast (dgt * d)) = unat num mod unat base ^ k"
    unfolding dg assms(4) by (simp add: minus_div_mult_eq_mod)
  have d': "unat (d div base) = (if k = 0 then 0 else unat base ^ (k - 1))"
    using assms(2,4) B by (cases k) (simp_all add: unat_div)
  have emit: "n \<noteq> 0 \<or> cless 0 dgt \<or> d div base = 0"
  proof -
    have "cless 0 dgt" if "unat base ^ k \<le> unat num"
      using that lt assms(3) B by (simp add: cless_0 dg div_greater_zero_iff)
    moreover have "d div base = 0" if "k = 0" using d' that by (simp add: unat_eq_0)
    ultimately show ?thesis using assms(6) by blast
  qed
  have "ui2a_char dgt = digit_char (unat num div unat base ^ k)"
    using ui2a_char_eq [of dgt] lt assms(3) dg by simp
  then have "ui2a_digits num base d n p bf =
      ui2a_digits (num - ucast (dgt * d)) base (d div base) (n + 1) (Suc p)
        (bf[p := digit_char (unat num div unat base ^ k)])"
    using d0 b0 emit assms(7)
    by (subst ui2a_digits.simps) (simp add: Let_def ui2a_char_def flip: dgt_def)
  with num'' d' show ?thesis by blast
qed

lemma ui2a_digits_spec:
  assumes "unat num < 2 ^ 32" "2 \<le> unat base" "unat base \<le> 36" "unat d = unat base ^ k"
    and "unat num < unat base ^ Suc k" "m \<noteq> 0 \<or> k = 0 \<or> unat base ^ k \<le> unat num"
    and "p + Suc k \<le> length bf" "m + k < 2 ^ 31"
  shows "ui2a_digits num base d (of_nat m) p bf =
    Some (p + Suc k, overwrite p (map digit_char (pos_digits (unat base) k (unat num))) bf)"
  using assms
proof (induction k arbitrary: num d m p bf)
  case 0
  have p: "p < length bf" using "0.prems" by simp
  from ui2a_digits_round [OF "0.prems"(1-5) _ p, of "of_nat m"]
  obtain num' d' where "ui2a_digits num base d (of_nat m) p bf =
      ui2a_digits num' base d' (of_nat m + 1) (Suc p) (bf[p := digit_char (unat num)])" "unat d' = 0"
    by auto
  moreover from this(2) have "d' = 0" by (simp add: unat_eq_0)
  ultimately show ?case using p by (simp add: ui2a_digits.simps [of num'] overwrite_single)
next
  case (Suc k)
  have p: "p < length bf" using Suc.prems by simp
  have n: "(of_nat m :: cint) \<noteq> 0 \<or> Suc k = 0 \<or> unat base ^ Suc k \<le> unat num"
  proof -
    have "unat (of_nat m :: cint) = m"
      using Suc.prems(8) by (simp add: unsigned_of_nat take_bit_nat_eq_self)
    then show ?thesis using Suc.prems(6) by auto
  qed
  from ui2a_digits_round [OF Suc.prems(1-5) n p]
  obtain num' d' where r: "ui2a_digits num base d (of_nat m) p bf =
      ui2a_digits num' base d' (of_nat (Suc m)) (Suc p)
        (bf[p := digit_char (unat num div unat base ^ Suc k)])"
    "unat num' = unat num mod unat base ^ Suc k" "unat d' = unat base ^ k"
    by (auto simp: add.commute)
  have "ui2a_digits num' base d' (of_nat (Suc m)) (Suc p) (bf[p := digit_char (unat num div unat base ^ Suc k)]) =
      Some (Suc p + Suc k, overwrite (Suc p) (map digit_char (pos_digits (unat base) k (unat num')))
        (bf[p := digit_char (unat num div unat base ^ Suc k)]))"
    using Suc.prems r(2,3) by (intro Suc.IH) (auto intro: le_less_trans [OF mod_less_eq_dividend])
  then show ?case
    using r p by (simp add: drop_overwrite)
qed

lemma ui2a_spec:
  assumes "unat num < 2 ^ 32" "2 \<le> unat base" "unat base \<le> 36"
    and "p + length (nat_text (unat base) (unat num)) < length bf"
  shows "ui2a num base p bf = Some (overwrite p (nat_text (unat base) (unat num) @ [0]) bf)"
proof -
  obtain k d where k: "ui2a_scale num base 1 = Some d" "unat d = unat base ^ k"
    "unat num < unat base ^ Suc k" "k = 0 \<or> unat base ^ k \<le> unat num"
    using ui2a_scale_spec [OF assms(1,2), of 1 0] by auto
  have t: "nat_text (unat base) (unat num) = map digit_char (pos_digits (unat base) k (unat num))"
    using pos_digits_eq [OF assms(2) k(3,4)] by (simp add: nat_text_def)
  have len: "p + Suc k < length bf" using assms(4) by (simp add: t)
  have "k < 2 ^ 31"
  proof (cases "k = 0")
    case False
    have "k < 2 ^ k" by (rule less_exp)
    also have "2 ^ k \<le> unat base ^ k" using assms(2) by (rule power_mono) simp
    finally have "2 ^ k < (2 :: nat) ^ 32"
      using k(4) False assms(1) \<open>2 ^ k \<le> unat base ^ k\<close> by linarith
    then have "k < 32" by (rule power_less_imp_less_exp [rotated]) simp
    then show ?thesis by simp
  qed simp
  then have "ui2a_digits num base d 0 p bf =
      Some (p + Suc k, overwrite p (map digit_char (pos_digits (unat base) k (unat num))) bf)"
    using ui2a_digits_spec [OF assms(1-3) k(2,3), of 0 p bf] k(4) len by simp
  then show ?thesis
    using k(1) len
      overwrite_snoc [of p "map digit_char (pos_digits (unat base) k (unat num))" bf 0]
    by (simp add: ui2a_def t)
qed

lemma sint_u64_cases:
  assumes "- (2 ^ 31) \<le> sint (x :: u64)" "sint x < 2 ^ 31"
  shows "unat (if sint x < 0 then - x else x) = nat \<bar>sint x\<bar>"
proof (cases "sint x < 0")
  case True
  have "sint (- x) = - sint x"
  proof -
    have "sint (- x) = signed_take_bit 63 (- sint x)" by (simp add: sint_word_ariths)
    then show ?thesis using assms by (simp add: signed_take_bit_int_eq_self)
  qed
  then have "uint (- x) = - sint x"
    using True assms by (simp add: uint_sint take_bit_int_eq_self)
  then have "nat (uint (- x)) = nat \<bar>sint x\<bar>" using True by (simp del: nat_uint_eq)
  then show ?thesis using True by simp
next
  case False
  then have "uint x = sint x" using assms by (simp add: uint_sint take_bit_int_eq_self)
  then have "nat (uint x) = nat \<bar>sint x\<bar>" using False by (simp del: nat_uint_eq)
  then show ?thesis using False by simp
qed

text \<open>A number of 32 bits in base \<open>base\<close>, with its sign, at \<open>bf[p]\<close>.\<close>

lemma i2a_spec:
  assumes "- (2 ^ 31) \<le> sint num" "sint num < 2 ^ 31" "2 \<le> unat base" "unat base \<le> 36"
    and "p + length (int_text (unat base) (sint num)) < length bf"
  shows "i2a num base p bf = Some (overwrite p (int_text (unat base) (sint num) @ [0]) bf)"
proof -
  have u: "unat (if sint num < 0 then - num else num) = nat \<bar>sint num\<bar>"
    by (rule sint_u64_cases [OF assms(1,2)])
  have lt: "nat \<bar>sint num\<bar> < 2 ^ 32" using assms(1,2) by simp
  show ?thesis
  proof (cases "sint num < 0")
    case True
    then show ?thesis
      using assms(3-5) u lt ui2a_spec [of "- num" base "Suc p" "bf[p := 0x2D]"]
      by (simp add: i2a_def int_text_def drop_overwrite)
  next
    case False
    then show ?thesis
      using assms(3-5) u lt ui2a_spec [of num base p bf] by (simp add: i2a_def int_text_def)
  qed
qed

section \<open>How long the texts are\<close>

lemma length_digits_of:
  "2 \<le> b \<Longrightarrow> n < b ^ k \<Longrightarrow> 0 < k \<Longrightarrow> length (digits_of b n) \<le> k"
proof (induction k arbitrary: n)
  case (Suc k)
  show ?case
  proof (cases "n < b")
    case True
    then show ?thesis by (simp add: digits_of.simps)
  next
    case False
    then have "0 < k" using Suc.prems(2) by (cases k) auto
    moreover have "n div b < b ^ k" using Suc.prems by (simp add: less_mult_imp_div_less mult.commute)
    ultimately show ?thesis
      using Suc.IH [of "n div b"] Suc.prems(1) False by (simp add: digits_of.simps [of b n])
  qed
qed simp

lemma int_text_10_length: "length (int_text 10 (sint (x :: cint))) \<le> 11"
proof -
  have "nat \<bar>sint x\<bar> < 10 ^ 10" using sint_cint [of x] by auto
  then have "length (digits_of 10 (nat \<bar>sint x\<bar>)) \<le> 10" by (intro length_digits_of) auto
  then show ?thesis by (auto simp: int_text_def nat_text_def abs_if split: if_splits)
qed

lemma nat_text_10_length: "length (nat_text 10 (unat (x :: u32))) \<le> 10"
proof -
  have "unat x < 2 ^ LENGTH(32)" by (rule unsigned_less)
  then have "unat x < 10 ^ 10" by simp
  then have "length (digits_of 10 (unat x)) \<le> 10" by (intro length_digits_of) auto
  then show ?thesis by (simp add: nat_text_def)
qed

lemma int_text_16_length: "length (int_text 16 (sint (x :: cint))) \<le> 9"
proof -
  have "nat \<bar>sint x\<bar> < 16 ^ 8" using sint_cint [of x] by auto
  then have "length (digits_of 16 (nat \<bar>sint x\<bar>)) \<le> 8" by (intro length_digits_of) auto
  then show ?thesis by (auto simp: int_text_def nat_text_def abs_if split: if_splits)
qed

section \<open>Reading a number back\<close>

definition digit_value :: "u8 \<Rightarrow> nat" where
  "digit_value c = (if unat c < 58 then unat c - 48 else unat c - 55)"

definition parse_nat :: "nat \<Rightarrow> u8 list \<Rightarrow> nat" where
  "parse_nat b cs = foldl (\<lambda>a c. a * b + digit_value c) 0 cs"

definition parse_int :: "nat \<Rightarrow> u8 list \<Rightarrow> int" where
  "parse_int b cs = (case cs of
     [] \<Rightarrow> 0
   | c # ds \<Rightarrow> if c = 0x2D then - int (parse_nat b ds) else int (parse_nat b cs))"

lemma digits_of_less: "2 \<le> b \<Longrightarrow> d \<in> set (digits_of b n) \<Longrightarrow> d < b"
proof (induction b n rule: digits_of.induct)
  case (1 b n)
  then show ?case by (cases "n < b") (auto simp: digits_of.simps [of b n])
qed

lemma digit_char_facts:
  assumes "d < 36"
  shows "digit_value (digit_char d) = d" "digit_char d \<noteq> 0" "digit_char d \<noteq> 0x2D" "digit_char d \<noteq> 0x25"
proof -
  have "\<forall>d \<in> set [0 ..< 36]. digit_value (digit_char d) = d \<and> digit_char d \<noteq> 0 \<and>
      digit_char d \<noteq> 0x2D \<and> digit_char d \<noteq> 0x25"
    by code_simp
  from bspec [OF this, of d] assms
  show "digit_value (digit_char d) = d" "digit_char d \<noteq> 0" "digit_char d \<noteq> 0x2D" "digit_char d \<noteq> 0x25"
    by auto
qed

lemma parse_nat_text:
  assumes "2 \<le> b" "b \<le> 36"
  shows "parse_nat b (nat_text b n) = n"
  using assms
proof (induction b n rule: digits_of.induct)
  case (1 b n)
  show ?case
  proof (cases "n < b")
    case True
    then show ?thesis
      using "1.prems" by (simp add: parse_nat_def nat_text_def digits_of.simps digit_char_facts)
  next
    case False
    have "n mod b < 36" using "1.prems" by (intro less_le_trans [OF mod_less_divisor]) auto
    moreover have "parse_nat b (nat_text b (n div b)) = n div b"
      using "1.IH" "1.prems" False by simp
    ultimately show ?thesis
      using False "1.prems"
      by (simp add: parse_nat_def nat_text_def digits_of.simps [of b n] digit_char_facts)
  qed
qed

lemma nat_text_chars:
  assumes "2 \<le> b" "b \<le> 36" "c \<in> set (nat_text b n)"
  shows "c \<noteq> 0 \<and> c \<noteq> 0x2D"
  using assms digits_of_less [OF assms(1), of _ n] digit_char_facts
  by (fastforce simp: nat_text_def)

lemma nat_text_not_Nil: "nat_text b n \<noteq> []"
  by (simp add: nat_text_def digits_of.simps [of b n])

lemma parse_int_text: "2 \<le> b \<Longrightarrow> b \<le> 36 \<Longrightarrow> parse_int b (int_text b i) = i"
  using nat_text_chars [of b _ "nat \<bar>i\<bar>"] parse_nat_text [of b "nat \<bar>i\<bar>"] nat_text_not_Nil [of b "nat \<bar>i\<bar>"]
  by (cases "nat_text b (nat \<bar>i\<bar>)") (auto simp: parse_int_def int_text_def)

lemma c_string_nat_text: "2 \<le> b \<Longrightarrow> b \<le> 36 \<Longrightarrow> c_string (nat_text b n)"
  using nat_text_chars [of b 0 n] by (auto simp: c_string_def)

lemma c_string_int_text: "2 \<le> b \<Longrightarrow> b \<le> 36 \<Longrightarrow> c_string (int_text b i)"
  using c_string_nat_text [of b] by (auto simp: c_string_def int_text_def)

section \<open>Properties\<close>

lemma sint_scast_cint: "sint (scast (x :: cint) :: u64) = sint x"
  using sint_cint [of x] by (simp add: signed_scast_eq signed_take_bit_int_eq_self)

text \<open>The three conversions \<open>cnprintf\<close> makes, in its buffer of 12 bytes.\<close>

lemma i2a_decimal:
  "length bf = 12 \<Longrightarrow> i2a (scast (x :: cint)) 10 0 bf = Some (overwrite 0 (int_text 10 (sint x) @ [0]) bf)"
  using i2a_spec [of "scast x" 10 0 bf] int_text_10_length [of x] sint_cint [of x]
  by (simp add: sint_scast_cint)

lemma ui2a_decimal:
  "length bf = 12 \<Longrightarrow> ui2a (ucast (x :: u32)) 10 0 bf = Some (overwrite 0 (nat_text 10 (unat x) @ [0]) bf)"
  using ui2a_spec [of "ucast x" 10 0 bf] nat_text_10_length [of x] unsigned_less [of x]
  by (simp add: unat_ucast_up)

lemma i2a_hex:
  "length bf = 12 \<Longrightarrow> i2a (scast (x :: cint)) 16 2 bf = Some (overwrite 2 (int_text 16 (sint x) @ [0]) bf)"
  using i2a_spec [of "scast x" 16 2 bf] int_text_16_length [of x] sint_cint [of x]
  by (simp add: sint_scast_cint)

text \<open>
  C21: the number conversions stay in the buffer and are right. In the 12 bytes of \<open>cnprintf\<close>,
  \<open>i2a\<close> of any int in decimal, \<open>ui2a\<close> of any unsigned int in decimal, and \<open>i2a\<close> of any int in
  base 16 at offset 2 return, without writing outside, a terminated text that reads back
  as the number; the bytes before the offset stay as they were.
\<close>

theorem number_conversions:
  assumes "length bf = 12"
  shows "(\<exists>txt rest. i2a (scast (x :: cint)) 10 0 bf = Some (txt @ 0 # rest) \<and> c_string txt \<and>
      parse_int 10 txt = sint x) \<and>
    (\<exists>txt rest. ui2a (ucast x) 10 0 bf = Some (txt @ 0 # rest) \<and> c_string txt \<and>
      parse_nat 10 txt = unat x) \<and>
    (\<exists>txt rest. i2a (scast x) 16 2 bf = Some (take 2 bf @ txt @ 0 # rest) \<and> c_string txt \<and>
      parse_int 16 txt = sint x)"
proof (intro conjI)
  show "\<exists>txt rest. i2a (scast x) 10 0 bf = Some (txt @ 0 # rest) \<and> c_string txt \<and> parse_int 10 txt = sint x"
    unfolding i2a_decimal [OF assms] overwrite_def
    by (rule exI [of _ "int_text 10 (sint x)"]) (simp add: c_string_int_text parse_int_text)
  show "\<exists>txt rest. ui2a (ucast x) 10 0 bf = Some (txt @ 0 # rest) \<and> c_string txt \<and> parse_nat 10 txt = unat x"
    unfolding ui2a_decimal [OF assms] overwrite_def
    by (rule exI [of _ "nat_text 10 (unat x)"]) (simp add: c_string_nat_text parse_nat_text)
  show "\<exists>txt rest. i2a (scast x) 16 2 bf = Some (take 2 bf @ txt @ 0 # rest) \<and> c_string txt \<and>
      parse_int 16 txt = sint x"
    unfolding i2a_hex [OF assms] overwrite_def
    by (rule exI [of _ "int_text 16 (sint x)"]) (simp add: c_string_int_text parse_int_text)
qed

text \<open>The longest text, of the least int: eleven characters and the NUL fill the buffer.\<close>

theorem number_conversions_witness:
  "\<exists>txt rest. i2a (scast (0x80000000 :: cint)) 10 0 (replicate 12 0xEE) = Some (txt @ 0 # rest) \<and>
     c_string txt \<and> parse_int 10 txt = - 2147483648"
proof -
  have "sint (0x80000000 :: cint) = - 2147483648" by code_simp
  then show ?thesis
    using number_conversions [of "replicate 12 0xEE" "0x80000000", THEN conjunct1] by simp
qed

end
