(* ===== verification/Libc_Printf.thy ===== *)
theory Libc_Printf
  imports Libc_Digits
begin

text \<open>
  The formatted output of src/src/lib/libc/stdio/printf.c: the directive parser, \<open>cnprintf\<close>
  with its 12-byte buffer, and what it prints for a format made of plain characters and
  directives.
\<close>

section \<open>Directives\<close>

text \<open>The characters of the format language, by their codes.\<close>

abbreviation CH_PLUS :: u8 where "CH_PLUS \<equiv> 0x2B"
abbreviation CH_MINUS :: u8 where "CH_MINUS \<equiv> 0x2D"
abbreviation CH_SPACE :: u8 where "CH_SPACE \<equiv> 0x20"
abbreviation CH_SHARP :: u8 where "CH_SHARP \<equiv> 0x23"
abbreviation CH_0 :: u8 where "CH_0 \<equiv> 0x30"
abbreviation CH_h :: u8 where "CH_h \<equiv> 0x68"
abbreviation CH_l :: u8 where "CH_l \<equiv> 0x6C"
abbreviation CH_i :: u8 where "CH_i \<equiv> 0x69"
abbreviation CH_d :: u8 where "CH_d \<equiv> 0x64"
abbreviation CH_u :: u8 where "CH_u \<equiv> 0x75"
abbreviation CH_c :: u8 where "CH_c \<equiv> 0x63"
abbreviation CH_s :: u8 where "CH_s \<equiv> 0x73"
abbreviation CH_x :: u8 where "CH_x \<equiv> 0x78"
abbreviation CH_9 :: u8 where "CH_9 \<equiv> 0x39"
abbreviation CH_PERCENT :: u8 where "CH_PERCENT \<equiv> 0x25"

definition FMT_FLAG_PLUS :: cint where "FMT_FLAG_PLUS = 1"
definition FMT_FLAG_MINUS :: cint where "FMT_FLAG_MINUS = 2"
definition FMT_FLAG_SPACE :: cint where "FMT_FLAG_SPACE = 4"
definition FMT_FLAG_SHARP :: cint where "FMT_FLAG_SHARP = 8"
definition FMT_FLAG_ZERO :: cint where "FMT_FLAG_ZERO = 16"

definition FMT_LEN_HH :: cint where "FMT_LEN_HH = 1"
definition FMT_LEN_H :: cint where "FMT_LEN_H = 2"
definition FMT_LEN_L :: cint where "FMT_LEN_L = 4"
definition FMT_LEN_LL :: cint where "FMT_LEN_LL = 8"

definition FMT_SPEC_I :: cint where "FMT_SPEC_I = 1"
definition FMT_SPEC_U :: cint where "FMT_SPEC_U = 2"
definition FMT_SPEC_C :: cint where "FMT_SPEC_C = 4"
definition FMT_SPEC_S :: cint where "FMT_SPEC_S = 8"
definition FMT_SPEC_X :: cint where "FMT_SPEC_X = 16"

lemmas fmt_const_defs = FMT_LEN_HH_def FMT_LEN_H_def FMT_LEN_L_def FMT_LEN_LL_def
  FMT_SPEC_I_def FMT_SPEC_U_def FMT_SPEC_C_def FMT_SPEC_S_def FMT_SPEC_X_def

text \<open>The pointer \<open>p\<close> is what is left of the format.\<close>

record s_fmt =
  fmt_p :: "u8 list"
  flags :: cint
  width :: cint
  len :: cint
  specifier :: cint

definition fmt_flags :: "s_fmt \<Rightarrow> s_fmt option" where
  "fmt_flags f = (case fmt_p f of [] \<Rightarrow> None | c # cs \<Rightarrow> Some (
     if c = CH_PLUS then f\<lparr>flags := flags f OR FMT_FLAG_PLUS, fmt_p := cs\<rparr>
     else if c = CH_MINUS then f\<lparr>flags := flags f OR FMT_FLAG_MINUS, fmt_p := cs\<rparr>
     else if c = CH_SPACE then f\<lparr>flags := flags f OR FMT_FLAG_SPACE, fmt_p := cs\<rparr>
     else if c = CH_SHARP then f\<lparr>flags := flags f OR FMT_FLAG_SHARP, fmt_p := cs\<rparr>
     else if c = CH_0 then f\<lparr>flags := flags f OR FMT_FLAG_ZERO, fmt_p := cs\<rparr>
     else f))"

text \<open>The loop of \<open>fmt_width\<close>; the switch over the ten digits adds the digit's value.\<close>

fun fmt_width_loop :: "u8 list \<Rightarrow> cint \<Rightarrow> (u8 list \<times> cint) option" where
  "fmt_width_loop [] w = None"
| "fmt_width_loop (c # cs) w =
     (if c \<le> CH_9 \<and> CH_0 \<le> c then fmt_width_loop cs (w * 10 + ucast (c - CH_0))
      else Some (c # cs, w))"

definition fmt_width :: "s_fmt \<Rightarrow> s_fmt option" where
  "fmt_width f = do {
     (cs, w) \<leftarrow> fmt_width_loop (fmt_p f) 0;
     Some (f\<lparr>fmt_p := cs, width := w\<rparr>)
   }"

definition fmt_length :: "s_fmt \<Rightarrow> s_fmt option" where
  "fmt_length f = (case fmt_p f of [] \<Rightarrow> None | c # cs \<Rightarrow>
     if c = CH_h then
       (case cs of [] \<Rightarrow> None | c' # cs' \<Rightarrow>
          if c' = CH_h then Some (f\<lparr>fmt_p := cs', len := len f OR FMT_LEN_HH\<rparr>)
          else Some (f\<lparr>fmt_p := cs, len := len f OR FMT_LEN_H\<rparr>))
     else if c = CH_l then
       (case cs of [] \<Rightarrow> None | c' # cs' \<Rightarrow>
          if c' = CH_l then Some (f\<lparr>fmt_p := cs', len := len f OR FMT_LEN_LL\<rparr>)
          else Some (f\<lparr>fmt_p := cs, len := len f OR FMT_LEN_L\<rparr>))
     else Some f)"

definition fmt_specifier :: "s_fmt \<Rightarrow> s_fmt option" where
  "fmt_specifier f = (case fmt_p f of [] \<Rightarrow> None | c # cs \<Rightarrow> Some (
     if c = CH_i \<or> c = CH_d then f\<lparr>fmt_p := cs, specifier := specifier f OR FMT_SPEC_I\<rparr>
     else if c = CH_u then f\<lparr>fmt_p := cs, specifier := specifier f OR FMT_SPEC_U\<rparr>
     else if c = CH_c then f\<lparr>fmt_p := cs, specifier := specifier f OR FMT_SPEC_C\<rparr>
     else if c = CH_s then f\<lparr>fmt_p := cs, specifier := specifier f OR FMT_SPEC_S\<rparr>
     else if c = CH_x then f\<lparr>fmt_p := cs, specifier := specifier f OR FMT_SPEC_X\<rparr>
     else f))"

definition fmt_directive :: "u8 list \<Rightarrow> s_fmt option" where
  "fmt_directive cs = do {
     f1 \<leftarrow> fmt_flags \<lparr>fmt_p = cs, flags = 0, width = 0, len = 0, specifier = 0\<rparr>;
     f2 \<leftarrow> fmt_width f1;
     f3 \<leftarrow> fmt_length f2;
     fmt_specifier f3
   }"

section \<open>cnprintf\<close>

text \<open>The variable arguments, as va_arg takes them: int, unsigned and long have one size.\<close>

datatype va = Va_int cint | Va_str "u8 list"

text \<open>\<open>while (*b != '\0') { cb(*b); b++; }\<close>\<close>

fun put_string :: "(u8 \<Rightarrow> 's \<Rightarrow> 's option) \<Rightarrow> u8 list \<Rightarrow> 's \<Rightarrow> 's option" where
  "put_string cb [] s = None"
| "put_string cb (c # cs) s = (if c = 0 then Some s else Option.bind (cb c s) (put_string cb cs))"

fun va_int :: "va list \<Rightarrow> (cint \<times> va list) option" where
  "va_int (Va_int x # va) = Some (x, va)"
| "va_int _ = None"

fun va_str :: "va list \<Rightarrow> (u8 list \<times> va list) option" where
  "va_str (Va_str x # va) = Some (x, va)"
| "va_str _ = None"

definition str_NaN :: "u8 list" where
  "str_NaN = [0x4E, 0x61, 0x4E, 0]"

definition str_0x :: "u8 list" where
  "str_0x = [CH_0, CH_x, 0]"

text \<open>The switch over the specifier: the arguments left, the buffer, and what has been printed.\<close>

definition cnprintf_convert ::
    "(u8 \<Rightarrow> 's \<Rightarrow> 's option) \<Rightarrow> s_fmt \<Rightarrow> va list \<Rightarrow> u8 list \<Rightarrow> 's \<Rightarrow> (va list \<times> u8 list \<times> 's) option" where
  "cnprintf_convert cb f va bf s =
     (let int_length = (\<not> cless FMT_LEN_H (len f)) in
      if specifier f = FMT_SPEC_I then
        (if int_length \<or> len f = FMT_LEN_L then do {
           (x, va') \<leftarrow> va_int va; bf' \<leftarrow> i2a (scast x) 10 0 bf; Some (va', bf', s) }
         else if len f = FMT_LEN_LL then do { bf' \<leftarrow> strcpy bf str_NaN; Some (va, bf', s) }
         else Some (va, bf, s))
      else if specifier f = FMT_SPEC_U then
        (if int_length \<or> len f = FMT_LEN_L then do {
           (x, va') \<leftarrow> va_int va; bf' \<leftarrow> ui2a (ucast x) 10 0 bf; Some (va', bf', s) }
         else if len f = FMT_LEN_LL then do { bf' \<leftarrow> strcpy bf str_NaN; Some (va, bf', s) }
         else Some (va, bf, s))
      else if specifier f = FMT_SPEC_C then do {
        (x, va') \<leftarrow> va_int va; Some (va', (bf[0 := ucast x])[1 := 0], s) }
      else if specifier f = FMT_SPEC_S then do {
        (bp, va') \<leftarrow> va_str va; s' \<leftarrow> put_string cb bp s; Some (va', bf[0 := 0], s') }
      else if specifier f = FMT_SPEC_X then do {
        bf1 \<leftarrow> strcpy bf str_0x;
        (if int_length \<or> len f = FMT_LEN_L then do {
           (x, va') \<leftarrow> va_int va; bf' \<leftarrow> i2a (scast x) 16 2 bf1; Some (va', bf', s) }
         else if len f = FMT_LEN_LL then do { bf' \<leftarrow> strcpy bf1 str_NaN; Some (va, bf', s) }
         else Some (va, bf1, s)) }
      else Some (va, bf, s))"

text \<open>The loop; \<open>n\<close> is \<open>p - fmt\<close>.\<close>

partial_function (option) cnprintf_loop ::
    "(u8 \<Rightarrow> 's \<Rightarrow> 's option) \<Rightarrow> cint \<Rightarrow> nat \<Rightarrow> u8 list \<Rightarrow> va list \<Rightarrow> u8 list \<Rightarrow> 's \<Rightarrow> 's option" where
  "cnprintf_loop cb sz n p va bf s =
     (case p of [] \<Rightarrow> None
      | c # cs \<Rightarrow>
          if c = 0 \<or> sint sz \<le> int n then Some s
          else if c \<noteq> CH_PERCENT then
            Option.bind (cb c s) (cnprintf_loop cb sz (Suc n) cs va bf)
          else
            Option.bind (fmt_directive cs) (\<lambda>f.
            Option.bind (cnprintf_convert cb f va bf s) (\<lambda>(va', bf', s').
            Option.bind (put_string cb bf' s')
              (cnprintf_loop cb sz (n + (length p - length (fmt_p f))) (fmt_p f) va' bf'))))"

declare cnprintf_loop.simps [code]

text \<open>The buffer \<open>bf[12]\<close> is not initialised: its bytes \<open>bf0\<close> are an argument.\<close>

definition cnprintf ::
    "(u8 \<Rightarrow> 's \<Rightarrow> 's option) \<Rightarrow> cint \<Rightarrow> u8 list \<Rightarrow> va list \<Rightarrow> u8 list \<Rightarrow> 's \<Rightarrow> (cint \<times> 's) option" where
  "cnprintf cb sz fmt va bf0 s = map_option (Pair 0) (cnprintf_loop cb sz 0 fmt va bf0 s)"

section \<open>Formats and what they print\<close>

datatype conv =
    Dec cint | Uns u32 | Chr cint | Str "u8 list" "u8 list" | Hex cint

text \<open>
  A format is a list of plain characters and directives; a directive has an optional flag,
  digits for the width, a length (none, h, hh or l) and a conversion with its argument. A
  string argument is its characters and what follows its NUL.
\<close>

datatype piece = Lit u8 | Conv "u8 option" "u8 list" "u8 list" conv

fun conv_char :: "conv \<Rightarrow> u8" where
  "conv_char (Dec x) = CH_d"
| "conv_char (Uns x) = CH_u"
| "conv_char (Chr x) = CH_c"
| "conv_char (Str s r) = CH_s"
| "conv_char (Hex x) = CH_x"

fun conv_arg :: "conv \<Rightarrow> va" where
  "conv_arg (Dec x) = Va_int x"
| "conv_arg (Uns x) = Va_int x"
| "conv_arg (Chr x) = Va_int x"
| "conv_arg (Str s r) = Va_str (s @ 0 # r)"
| "conv_arg (Hex x) = Va_int x"

fun conv_text :: "conv \<Rightarrow> u8 list" where
  "conv_text (Dec x) = int_text 10 (sint x)"
| "conv_text (Uns x) = nat_text 10 (unat x)"
| "conv_text (Chr x) = (if (ucast x :: u8) = 0 then [] else [ucast x])"
| "conv_text (Str s r) = s"
| "conv_text (Hex x) = CH_0 # CH_x # int_text 16 (sint x)"

fun piece_fmt :: "piece \<Rightarrow> u8 list" where
  "piece_fmt (Lit c) = [c]"
| "piece_fmt (Conv fl w l cv) =
     CH_PERCENT # (case fl of None \<Rightarrow> [] | Some c \<Rightarrow> [c]) @ w @ l @ [conv_char cv]"

fun piece_args :: "piece \<Rightarrow> va list" where
  "piece_args (Lit c) = []"
| "piece_args (Conv fl w l cv) = [conv_arg cv]"

fun piece_text :: "piece \<Rightarrow> u8 list" where
  "piece_text (Lit c) = [c]"
| "piece_text (Conv fl w l cv) = conv_text cv"

fun piece_ok :: "piece \<Rightarrow> bool" where
  "piece_ok (Lit c) = (c \<noteq> 0 \<and> c \<noteq> CH_PERCENT)"
| "piece_ok (Conv fl w l cv) =
     ((case fl of None \<Rightarrow> True | Some c \<Rightarrow> c \<in> {CH_PLUS, CH_MINUS, CH_SPACE, CH_SHARP, CH_0}) \<and>
      (\<forall>c \<in> set w. CH_0 \<le> c \<and> c \<le> CH_9) \<and>
      l \<in> {[], [CH_h], [CH_h, CH_h], [CH_l]} \<and>
      (case cv of Str s r \<Rightarrow> c_string s | _ \<Rightarrow> True))"

text \<open>The pieces that start within the first \<open>n\<close> characters of the format.\<close>

fun shown :: "nat \<Rightarrow> piece list \<Rightarrow> piece list" where
  "shown n [] = []"
| "shown n (q # qs) = (if n = 0 then [] else q # shown (n - length (piece_fmt q)) qs)"

definition pieces_fmt :: "piece list \<Rightarrow> u8 list" where
  "pieces_fmt ps = concat (map piece_fmt ps)"

definition pieces_args :: "piece list \<Rightarrow> va list" where
  "pieces_args ps = concat (map piece_args ps)"

definition pieces_text :: "piece list \<Rightarrow> u8 list" where
  "pieces_text ps = concat (map piece_text ps)"

section \<open>The parser\<close>

lemma fmt_width_loop_eq:
  assumes "\<forall>c \<in> set ws. CH_0 \<le> c \<and> c \<le> CH_9" "\<not> (CH_0 \<le> c \<and> c \<le> CH_9)"
  shows "\<exists>n'. fmt_width_loop (ws @ c # cs) n = Some (c # cs, n')"
  using assms(1)
proof (induction ws arbitrary: n)
  case Nil
  then show ?case using assms(2) by auto
qed auto

lemma conv_char_cases: "conv_char cv \<in> {CH_d, CH_u, CH_c, CH_s, CH_x}"
  by (cases cv) auto

definition conv_spec :: "conv \<Rightarrow> cint" where
  "conv_spec cv = (case cv of Dec x \<Rightarrow> FMT_SPEC_I | Uns x \<Rightarrow> FMT_SPEC_U | Chr x \<Rightarrow> FMT_SPEC_C
     | Str s r \<Rightarrow> FMT_SPEC_S | Hex x \<Rightarrow> FMT_SPEC_X)"

text \<open>What a directive with an accepted length is parsed to.\<close>

lemma fmt_tail_parse:
  assumes "l \<in> {[], [CH_h], [CH_h, CH_h], [CH_l]}" "len f = 0" "specifier f = 0"
    and "fmt_p f = l @ conv_char cv # cs"
  shows "\<exists>f'. Option.bind (fmt_length f) fmt_specifier = Some f' \<and> fmt_p f' = cs \<and>
    specifier f' = conv_spec cv \<and> len f' \<in> {0, 1, 2, 4}"
  using assms
  by (cases cv) (auto simp: fmt_length_def fmt_specifier_def conv_spec_def fmt_const_defs)

lemma fmt_directive_parse:
  assumes "piece_ok (Conv fl w l cv)"
  shows "\<exists>f'. fmt_directive (tl (piece_fmt (Conv fl w l cv)) @ cs) = Some f' \<and> fmt_p f' = cs \<and>
    specifier f' = conv_spec cv \<and> len f' \<in> {0, 1, 2, 4}"
proof -
  define rest where "rest = l @ conv_char cv # cs"
  obtain r rs where r: "rest = r # rs" "\<not> (CH_0 \<le> r \<and> r \<le> CH_9)"
    "r \<notin> {CH_PLUS, CH_MINUS, CH_SPACE, CH_SHARP, CH_0}"
    using assms conv_char_cases [of cv] by (auto simp: rest_def)
  let ?f = "\<lparr>fmt_p = tl (piece_fmt (Conv fl w l cv)) @ cs, flags = 0, width = 0, len = 0, specifier = 0\<rparr>"
  have "\<exists>ws f1. (\<forall>c \<in> set ws. CH_0 \<le> c \<and> c \<le> CH_9) \<and> fmt_flags ?f = Some f1 \<and>
      fmt_p f1 = ws @ rest \<and> len f1 = 0 \<and> specifier f1 = 0"
  proof (cases fl)
    case (Some c)
    then show ?thesis
      using assms by (intro exI [of _ w]) (auto simp: fmt_flags_def rest_def)
  next
    case None
    show ?thesis
    proof (cases w)
      case Nil
      then show ?thesis
        using None r(3) by (intro exI [of _ "[]"]) (auto simp: fmt_flags_def r(1) simp flip: rest_def)
    next
      case (Cons d ds)
      then have "CH_0 \<le> d" using assms None by simp
      then have "d \<notin> {CH_PLUS, CH_MINUS, CH_SPACE, CH_SHARP}" by (auto simp: word_le_nat_alt)
      then show ?thesis
        using None Cons assms
        by (intro exI [of _ "if d = CH_0 then ds else w"]) (auto simp: fmt_flags_def rest_def)
    qed
  qed
  then obtain ws f1 where 1: "fmt_flags ?f = Some f1" "fmt_p f1 = ws @ rest" "len f1 = 0"
    "specifier f1 = 0" "\<forall>c \<in> set ws. CH_0 \<le> c \<and> c \<le> CH_9"
    by blast
  obtain n where 2: "fmt_width f1 = Some (f1\<lparr>fmt_p := rest, width := n\<rparr>)"
    using fmt_width_loop_eq [OF 1(5) r(2), of rs 0] 1(2) by (auto simp: fmt_width_def r(1))
  have "\<exists>f'. Option.bind (fmt_length (f1\<lparr>fmt_p := rest, width := n\<rparr>)) fmt_specifier = Some f' \<and>
      fmt_p f' = cs \<and> specifier f' = conv_spec cv \<and> len f' \<in> {0, 1, 2, 4}"
    using assms 1(3,4) by (intro fmt_tail_parse [where l = l]) (auto simp: rest_def)
  then show ?thesis by (simp only: fmt_directive_def 1(1) 2 Option.bind.simps)
qed

section \<open>Conversions\<close>

lemma put_string_eq: "c_string s \<Longrightarrow> put_string cb (s @ 0 # r) t = send_all cb s t"
proof (induction s arbitrary: t)
  case (Cons c s)
  then show ?case by (cases "cb c t") (auto simp: c_string_def)
qed simp

lemma c_string_conv: "piece_ok (Conv fl w l cv) \<Longrightarrow> c_string (conv_text cv)"
  by (cases cv) (auto simp: c_string_nat_text c_string_int_text, auto simp: c_string_def c_string_int_text [unfolded c_string_def])

lemma strcpy_0x: "length bf = 12 \<Longrightarrow> \<exists>bf'. strcpy bf str_0x = Some bf' \<and> length bf' = 12 \<and> take 2 bf' = [CH_0, CH_x]"
  using strcpy_eq [of "[CH_0, CH_x]" bf "[]"]
  by (simp add: str_0x_def c_string_def overwrite_def)

text \<open>
  A conversion takes its argument and leaves a terminated text in the buffer; together with
  what it prints itself (a string argument) this is the text of the conversion.
\<close>

lemma cnprintf_convert_eq:
  assumes "piece_ok (Conv fl w l cv)" "length bf = 12"
    and "specifier f = conv_spec cv" "len f \<in> {0, 1, 2, 4}"
  shows "\<exists>bf'. length bf' = 12 \<and>
    Option.bind (cnprintf_convert cb f (conv_arg cv # va) bf s)
      (\<lambda>(va', bf', s'). map_option (\<lambda>s''. (va', bf', s'')) (put_string cb bf' s')) =
    map_option (\<lambda>s''. (va, bf', s'')) (send_all cb (conv_text cv) s)"
proof -
  have len: "\<not> cless FMT_LEN_H (len f) \<or> len f = FMT_LEN_L"
  proof -
    have "\<forall>x \<in> set [0, 1, 2, 4]. \<not> cless FMT_LEN_H x \<or> x = FMT_LEN_L" by code_simp
    then show ?thesis using assms(4) by auto
  qed
  show ?thesis
  proof (cases cv)
    case (Dec x)
    have "put_string cb (overwrite 0 (int_text 10 (sint x) @ [0]) bf) s = send_all cb (conv_text cv) s"
      by (simp add: Dec overwrite_def put_string_eq c_string_int_text)
    then show ?thesis
      using assms(2) len int_text_10_length [of x]
      by (intro exI [of _ "overwrite 0 (int_text 10 (sint x) @ [0]) bf"])
        (simp add: cnprintf_convert_def assms(3) conv_spec_def Dec i2a_decimal)
  next
    case (Uns x)
    have "put_string cb (overwrite 0 (nat_text 10 (unat x) @ [0]) bf) s = send_all cb (conv_text cv) s"
      by (simp add: Uns overwrite_def put_string_eq c_string_nat_text)
    then show ?thesis
      using assms(2) len nat_text_10_length [of x]
      by (intro exI [of _ "overwrite 0 (nat_text 10 (unat x) @ [0]) bf"])
        (simp add: cnprintf_convert_def assms(3) conv_spec_def Uns ui2a_decimal fmt_const_defs)
  next
    case (Chr x)
    obtain b0 b1 bs where bf: "bf = b0 # b1 # bs"
      using assms(2) by (auto simp: numeral_eq_Suc length_Suc_conv)
    have "put_string cb (ucast x # 0 # bs) s = send_all cb (conv_text cv) s"
      by (cases "cb (ucast x) s") (simp_all add: Chr)
    then show ?thesis
      using assms(2)
      by (intro exI [of _ "ucast x # 0 # bs"])
        (simp add: cnprintf_convert_def assms(3) conv_spec_def Chr fmt_const_defs bf)
  next
    case (Str t r)
    obtain b0 bs where bf: "bf = b0 # bs" using assms(2) by (cases bf) auto
    have "put_string cb (t @ 0 # r) s = send_all cb (conv_text cv) s"
      using assms(1) by (simp add: Str put_string_eq)
    then show ?thesis
      using assms(2)
      by (intro exI [of _ "0 # bs"], cases "send_all cb (conv_text cv) s")
        (simp_all add: cnprintf_convert_def assms(3) conv_spec_def Str fmt_const_defs bf)
  next
    case (Hex x)
    from strcpy_0x [OF assms(2)] obtain bf1 where
      bf1: "strcpy bf str_0x = Some bf1" "length bf1 = 12" "take 2 bf1 = [CH_0, CH_x]" by blast
    let ?bf = "overwrite 2 (int_text 16 (sint x) @ [0]) bf1"
    have "c_string (conv_text cv)" by (rule c_string_conv [OF assms(1)])
    then have "put_string cb ?bf s = send_all cb (conv_text cv) s"
      using put_string_eq [of "conv_text cv" cb _ s] by (simp add: Hex overwrite_def bf1(3))
    then show ?thesis
      using bf1 len int_text_16_length [of x]
      by (intro exI [of _ ?bf])
        (simp add: cnprintf_convert_def assms(3) conv_spec_def Hex fmt_const_defs i2a_hex)
  qed
qed

section \<open>The whole format\<close>

lemma cnprintf_loop_eq:
  assumes "\<forall>q \<in> set ps. piece_ok q" "length bf = 12"
  shows "cnprintf_loop cb sz n (pieces_fmt ps @ 0 # r) (pieces_args ps @ va) bf s =
    send_all cb (pieces_text (shown (nat (sint sz) - n) ps)) s"
  using assms
proof (induction ps arbitrary: n bf s)
  case Nil
  then show ?case
    by (simp add: cnprintf_loop.simps pieces_fmt_def pieces_text_def)
next
  case (Cons q ps)
  have ok: "piece_ok q" using Cons.prems(1) by simp
  let ?p = "pieces_fmt (q # ps) @ 0 # r"
  have p: "?p = piece_fmt q @ pieces_fmt ps @ 0 # r" by (simp add: pieces_fmt_def)
  have fmt_Cons: "\<exists>c cs. piece_fmt q = c # cs" by (cases q) auto
  show ?case
  proof (cases "sint sz \<le> int n")
    case True
    then have "nat (sint sz) - n = 0" by simp
    moreover obtain c cs where "?p = c # cs" using p fmt_Cons by fastforce
    ultimately show ?thesis
      using True by (subst cnprintf_loop.simps) (simp add: pieces_text_def)
  next
    case False
    let ?rest = "\<lambda>k bf s. cnprintf_loop cb sz (n + k) (pieces_fmt ps @ 0 # r) (pieces_args ps @ va) bf s"
    have IH: "?rest k bf' s' = send_all cb (pieces_text (shown (nat (sint sz) - n - k) ps)) s'"
      if "length bf' = 12" for k bf' s'
      using Cons.IH [of bf' "n + k" s'] Cons.prems(1) that by simp
    have "cnprintf_loop cb sz n ?p (pieces_args (q # ps) @ va) bf s =
      Option.bind (send_all cb (piece_text q) s)
        (\<lambda>s'. send_all cb (pieces_text (shown (nat (sint sz) - n - length (piece_fmt q)) ps)) s')"
    proof (cases q)
      case (Lit c)
      then have head: "?p = c # pieces_fmt ps @ 0 # r" "pieces_args (q # ps) = pieces_args ps"
        by (simp_all add: pieces_fmt_def pieces_args_def)
      show ?thesis
        unfolding head using ok False IH [OF Cons.prems(2), of 1] Lit
        by (subst cnprintf_loop.simps, cases "cb c s") simp_all
    next
      case (Conv fl w l cv)
      obtain f where f: "fmt_directive (tl (piece_fmt q) @ pieces_fmt ps @ 0 # r) = Some f"
        "fmt_p f = pieces_fmt ps @ 0 # r" "specifier f = conv_spec cv" "len f \<in> {0, 1, 2, 4}"
        using fmt_directive_parse [of fl w l cv "pieces_fmt ps @ 0 # r"] ok Conv by auto
      obtain bf' where bf': "length bf' = 12"
        "Option.bind (cnprintf_convert cb f (conv_arg cv # pieces_args ps @ va) bf s)
          (\<lambda>(va', bf', s'). map_option (\<lambda>s''. (va', bf', s'')) (put_string cb bf' s')) =
        map_option (\<lambda>s''. (pieces_args ps @ va, bf', s'')) (send_all cb (conv_text cv) s)"
        using cnprintf_convert_eq [OF ok [unfolded Conv] Cons.prems(2) f(3,4), of cb "pieces_args ps @ va" s]
        by blast
      have head: "?p = CH_PERCENT # tl (piece_fmt q) @ pieces_fmt ps @ 0 # r"
        using Conv by (simp add: pieces_fmt_def)
      let ?k = "length (piece_fmt q)"
      have k: "length ?p - length (fmt_p f) = ?k" by (simp add: p f(2))
      have "cnprintf_loop cb sz n ?p (pieces_args (q # ps) @ va) bf s =
        Option.bind (Option.bind (cnprintf_convert cb f (conv_arg cv # pieces_args ps @ va) bf s)
          (\<lambda>(va', bf', s'). map_option (\<lambda>s''. (va', bf', s'')) (put_string cb bf' s')))
          (\<lambda>(va', bf', s''). cnprintf_loop cb sz (n + ?k) (fmt_p f) va' bf' s'')"
      proof -
        have "cnprintf_loop cb sz n ?p (pieces_args (q # ps) @ va) bf s =
          Option.bind (cnprintf_convert cb f (conv_arg cv # pieces_args ps @ va) bf s)
            (\<lambda>(va', bf', s'). Option.bind (put_string cb bf' s')
              (cnprintf_loop cb sz (n + (length ?p - length (fmt_p f))) (fmt_p f) va' bf'))"
          unfolding head using False f(1) Conv
          by (subst cnprintf_loop.simps) (simp add: pieces_args_def)
        then show ?thesis
          unfolding k
          by (cases "cnprintf_convert cb f (conv_arg cv # pieces_args ps @ va) bf s")
            (auto simp: bind_map_option comp_def)
      qed
      also have "\<dots> = Option.bind (send_all cb (conv_text cv) s) (?rest ?k bf')"
        unfolding bf'(2) by (cases "send_all cb (conv_text cv) s") (simp_all add: f(2))
      also have "?rest ?k bf' = (\<lambda>s'. send_all cb
          (pieces_text (shown (nat (sint sz) - n - length (piece_fmt q)) ps)) s')"
        by (intro ext IH bf'(1))
      finally show ?thesis unfolding Conv piece_text.simps .
    qed
    moreover have "\<not> nat (sint sz) \<le> n" using False by linarith
    ultimately show ?thesis by (simp add: pieces_text_def send_all_append)
  qed
qed

text \<open>
  C16: what \<open>cnprintf\<close> prints. For every format made of plain characters and directives d, u, c, s
  and x, with any flag, width and length h, hh or l, and with the arguments it asks for,
  \<open>cnprintf\<close> returns 0 after handing to the callback, character by character and in order,
  the text of the pieces that start within the first \<open>size\<close> characters of the format:
  plain characters as they are, decimal numerals, the character, the string, and \<open>0x\<close> with the
  signed number in base 16. Flags and widths make no difference.
\<close>

theorem cnprintf_prints:
  assumes "\<forall>q \<in> set ps. piece_ok q" "length bf0 = 12"
  shows "cnprintf cb sz (pieces_fmt ps @ 0 # r) (pieces_args ps @ va) bf0 s =
    map_option (Pair 0) (send_all cb (pieces_text (shown (nat (sint sz)) ps)) s)"
  using cnprintf_loop_eq [OF assms, of cb sz 0] by (simp add: cnprintf_def)

text \<open>The format \<open>" -- Flash : %dkB"\<close>, shortened, with -5 for the number.\<close>

theorem cnprintf_prints_witness:
  "cnprintf (\<lambda>c out. Some (out @ [c])) 128 [0x3A, CH_PERCENT, CH_0, CH_d, 0x6B, 0] [Va_int (- 5)]
     (replicate 12 0xEE) [] = Some (0, [0x3A, CH_MINUS, 0x35, 0x6B])"
proof -
  let ?ps = "[Lit 0x3A, Conv (Some CH_0) [] [] (Dec (- 5)), Lit 0x6B]"
  have "send_all (\<lambda>c out. Some (out @ [c])) (pieces_text (shown (nat (sint (128 :: cint))) ?ps)) [] =
      Some [0x3A, CH_MINUS, 0x35, 0x6B]"
    by code_simp
  then show ?thesis
    using cnprintf_prints [of ?ps "replicate 12 0xEE" "\<lambda>c out. Some (out @ [c])" 128 "[]" "[]" "[]"]
    by (simp add: pieces_fmt_def pieces_args_def)
qed

text \<open>
  A percent sign cannot be printed. In the format \<open>"%%"\<close> the second character is taken for an
  unknown directive: \<open>cnprintf\<close> prints whatever text an earlier conversion (or nothing, the stack)
  has left in the buffer, and goes on with the second percent sign as the start of a new
  directive, which is unknown as well and prints the buffer again.
\<close>

theorem cnprintf_percent_stale:
  assumes "c_string t" "2 \<le> sint sz"
  shows "cnprintf cb sz [CH_PERCENT, CH_PERCENT, 0] va (t @ 0 # rest) s =
    map_option (Pair 0) (send_all cb (t @ t) s)"
proof -
  let ?bf = "t @ 0 # rest"
  define f :: s_fmt where "f = \<lparr>fmt_p = [CH_PERCENT, 0], flags = 0, width = 0, len = 0, specifier = 0\<rparr>"
  have 1: "fmt_directive [CH_PERCENT, 0] = Some f"
    "fmt_directive [0] = Some (f\<lparr>fmt_p := [0]\<rparr>)"
    by (simp_all add: f_def fmt_directive_def fmt_flags_def fmt_width_def fmt_length_def fmt_specifier_def)
  have 2: "cnprintf_convert cb (f\<lparr>fmt_p := p\<rparr>) va bf s = Some (va, bf, s)" for p bf s
    by (simp add: f_def cnprintf_convert_def fmt_const_defs)
  have 3: "cnprintf_convert cb f va bf s = Some (va, bf, s)" for bf s
    by (simp add: f_def cnprintf_convert_def fmt_const_defs)
  have fp: "fmt_p f = [CH_PERCENT, 0]" by (simp add: f_def)
  have last: "cnprintf_loop cb sz n [0] va ?bf s = Some s" for n s
    by (subst cnprintf_loop.simps) simp
  have second: "cnprintf_loop cb sz 1 [CH_PERCENT, 0] va ?bf s = send_all cb t s" for s
    using assms
    by (subst cnprintf_loop.simps, cases "send_all cb t s") (simp_all add: 1 2 put_string_eq last)
  have "cnprintf_loop cb sz 0 [CH_PERCENT, CH_PERCENT, 0] va ?bf s =
      Option.bind (send_all cb t s) (send_all cb t)"
    using assms second
    by (subst cnprintf_loop.simps, cases "send_all cb t s") (simp_all add: 1 3 put_string_eq fp)
  then show ?thesis by (simp add: cnprintf_def send_all_append)
qed

theorem cnprintf_percent_stale_witness:
  "cnprintf (\<lambda>c out. Some (out @ [c])) 128 [CH_PERCENT, CH_PERCENT, 0] [] ([0x37] @ 0 # replicate 10 0) [] =
     Some (0, [0x37, 0x37])"
  using cnprintf_percent_stale [of "[0x37]" 128 "\<lambda>c out. Some (out @ [c])" "[]" "replicate 10 0" "[]"]
  by (simp add: c_string_def)

end
