(* ===== verification/Device_Data.thy ===== *)
theory Device_Data
  imports Byte_Transfer
begin

text \<open>
  What the data pointer of a node refers to (the configurations of the USIC drivers, the
  card information of src/src/dev/mmc/mmc.h), and the calls of the XMC peripheral library and
  of CMSIS. The library is not part of the repository: it is a parameter, the record \<open>xmc\<close>, with the
  effect of every call, the result of every query and the value of every constant. Its
  constants are symbols.
\<close>

section \<open>The XMC library\<close>

datatype xmc_const =
    XMC_USIC_CH_PARITY_MODE_NONE | XMC_UART_CH_INPUT_RXD | USIC0_C0_DX0_P2_0 | USIC0_C1_DX0_P1_3
  | USIC0_C0_DX0_P2_1 | USIC0_C0_DX1_P2_0 | XMC_USIC_CH_FIFO_SIZE_16WORDS
  | XMC_GPIO_MODE_OUTPUT_PUSH_PULL | XMC_GPIO_MODE_OUTPUT_PUSH_PULL_ALT6
  | XMC_GPIO_MODE_OUTPUT_PUSH_PULL_ALT7 | XMC_GPIO_MODE_INPUT_TRISTATE
  | XMC_GPIO_MODE_OUTPUT_OPEN_DRAIN_ALT6 | XMC_GPIO_MODE_OUTPUT_OPEN_DRAIN_ALT7
  | XMC_SPI_CH_BUS_MODE_MASTER | XMC_SPI_CH_SLAVE_SEL_INV_TO_MSLS
  | XMC_SPI_CH_BRG_SHIFT_CLOCK_PASSIVE_LEVEL_0_DELAY_ENABLED
  | XMC_SPI_CH_BRG_SHIFT_CLOCK_OUTPUT_SCLK | XMC_SPI_CH_INPUT_DIN0 | XMC_SPI_CH_MODE_STANDARD
  | XMC_SPI_CH_STATUS_FLAG_TRANSMIT_SHIFT_INDICATION
  | XMC_I2C_CH_INPUT_SDA | XMC_I2C_CH_INPUT_SCL | XMC_I2C_CH_CMD_WRITE | XMC_I2C_CH_CMD_READ
  | XMC_I2C_CH_STATUS_FLAG_ACK_RECEIVED | XMC_I2C_CH_STATUS_FLAG_RECEIVE_INDICATION
  | XMC_I2C_CH_STATUS_FLAG_ALTERNATIVE_RECEIVE_INDICATION

datatype xmc_channel = XMC_UART0_CH0 | XMC_UART0_CH1 | XMC_SPI0_CH0 | XMC_I2C0_CH0 | XMC_I2C0_CH1

text \<open>A port pin, \<open>P2_1\<close> as \<open>(2, 1)\<close>.\<close>

type_synonym xmc_pin = "nat \<times> nat"

text \<open>The fields of the configuration structures that the drivers set.\<close>

record uart_config_t =
  uart_baudrate :: u32
  uart_data_bits :: u8
  uart_parity_mode :: xmc_const
  uart_stop_bits :: u8

record spi_config_t =
  spi_baudrate :: u32
  spi_bus_mode :: xmc_const
  spi_selo_inversion :: xmc_const
  spi_parity_mode :: xmc_const

record i2c_config_t =
  i2c_baudrate :: u32

datatype xmc_irq = SVCall_IRQn | SysTick_IRQn

datatype xmc_call =
    SystemCoreClockUpdate
  | NVIC_SetPriority xmc_irq nat
  | XMC_UART_CH_Init xmc_channel uart_config_t
  | XMC_UART_CH_SetInputSource xmc_channel xmc_const xmc_const
  | XMC_UART_CH_Start xmc_channel
  | XMC_UART_CH_Stop xmc_channel
  | XMC_USIC_CH_RXFIFO_Configure xmc_channel nat xmc_const nat
  | XMC_USIC_CH_TXFIFO_Configure xmc_channel nat xmc_const nat
  | XMC_USIC_CH_TXFIFO_PutData xmc_channel u16
  | XMC_GPIO_SetMode xmc_pin xmc_const
  | XMC_GPIO_Init xmc_pin xmc_const
  | XMC_GPIO_SetOutputHigh xmc_pin
  | XMC_GPIO_SetOutputLow xmc_pin
  | XMC_GPIO_EnableDigitalInput xmc_pin
  | XMC_SPI_CH_Init xmc_channel spi_config_t
  | XMC_SPI_CH_ConfigureShiftClockOutput xmc_channel xmc_const xmc_const
  | XMC_SPI_CH_SetFrameLength xmc_channel nat
  | XMC_SPI_CH_SetWordLength xmc_channel nat
  | XMC_SPI_CH_SetBitOrderMsbFirst xmc_channel
  | XMC_SPI_CH_SetInputSource xmc_channel xmc_const xmc_const
  | XMC_SPI_CH_Start xmc_channel
  | XMC_SPI_CH_Stop xmc_channel
  | XMC_SPI_CH_EnableMasterClock xmc_channel
  | XMC_SPI_CH_EnableSlaveSelect xmc_channel cint
  | XMC_SPI_CH_DisableSlaveSelect xmc_channel
  | XMC_SPI_CH_Transmit xmc_channel u16 xmc_const
  | XMC_SPI_CH_Receive xmc_channel xmc_const
  | XMC_SPI_CH_ClearStatusFlag xmc_channel u32
  | XMC_I2C_CH_Init xmc_channel i2c_config_t
  | XMC_I2C_CH_SetInputSource xmc_channel xmc_const xmc_const
  | XMC_I2C_CH_Start xmc_channel
  | XMC_I2C_CH_Stop xmc_channel
  | XMC_I2C_CH_MasterStart xmc_channel cint xmc_const
  | XMC_I2C_CH_MasterStop xmc_channel
  | XMC_I2C_CH_MasterReceiveAck xmc_channel
  | XMC_I2C_CH_MasterReceiveNack xmc_channel
  | XMC_I2C_CH_ClearStatusFlag xmc_channel u32

datatype xmc_query =
    XMC_USIC_CH_TXFIFO_IsFull xmc_channel
  | XMC_USIC_CH_RXFIFO_IsEmpty xmc_channel
  | XMC_USIC_CH_RXFIFO_GetData xmc_channel
  | XMC_SPI_CH_GetStatusFlag xmc_channel
  | XMC_SPI_CH_GetReceivedData xmc_channel
  | XMC_I2C_CH_GetStatusFlag xmc_channel

record 's xmc =
  xmc_do :: "xmc_call \<Rightarrow> 's \<Rightarrow> 's"
  xmc_get :: "xmc_query \<Rightarrow> 's \<Rightarrow> u32 \<times> 's"
  xmc_value :: "xmc_const \<Rightarrow> u32"

text \<open>A sequence of calls.\<close>

definition xmc_run :: "'s xmc \<Rightarrow> xmc_call list \<Rightarrow> 's \<Rightarrow> 's" where
  "xmc_run hw = fold (xmc_do hw)"

text \<open>
  An observer of the library: \<open>log\<close> lists the calls made so far, and queries are not logged.
\<close>

definition xmc_log :: "'s xmc \<Rightarrow> ('s \<Rightarrow> xmc_call list) \<Rightarrow> bool" where
  "xmc_log hw log \<longleftrightarrow> (\<forall>c s. log (xmc_do hw c s) = log s @ [c]) \<and>
     (\<forall>q s. log (snd (xmc_get hw q s)) = log s)"

lemma xmc_log_do: "xmc_log hw log \<Longrightarrow> log (xmc_do hw c s) = log s @ [c]"
  by (simp add: xmc_log_def)

lemma xmc_log_get: "xmc_log hw log \<Longrightarrow> xmc_get hw q s = (r, s') \<Longrightarrow> log s' = log s"
  by (metis snd_conv xmc_log_def)

lemma xmc_log_run: "xmc_log hw log \<Longrightarrow> log (xmc_run hw cs s) = log s @ cs"
  by (induction cs arbitrary: s) (simp_all add: xmc_run_def xmc_log_do)

section \<open>Memory cards\<close>

record mmc_cid =
  psn :: u32
  pnm :: "u8 list"
  mdt_year :: u16
  oid :: "u8 list"
  mdt_month :: u8
  cid_crc7 :: u8
  prv :: u8
  mid :: u8

record mmc_csd =
  c_size :: u32
  c_mult :: u8
  read_bl_len :: u8
  write_bl_len :: u8
  c_structure :: u8

record mmc_info =
  csd :: mmc_csd
  cid :: mmc_cid
  spi_channel :: u32
  mem_size :: u32
  read_block_size :: u32
  write_block_size :: u32
  mmc_flags :: u8

section \<open>Node data\<close>

text \<open>A node refers to one object, through a pointer that may be NULL.\<close>

datatype node_data =
    No_data
  | Uart_config uart_config_t
  | Spi_config spi_config_t
  | I2c_config i2c_config_t
  | Mmc_data mmc_info

type_synonym node = "node_data vnode"

end
