(* ===== verification/Uart_Usic.thy ===== *)
theory Uart_Usic
  imports Device_Data
begin

text \<open>
  The UART driver of src/src/dev/uart/ifx_usic.c with the options of ifx_usic.h. The
  channel and the baud rate are build options: \<open>UART_USIC\<close> and \<open>UART_BAUD\<close> of Config.inc.
\<close>

section \<open>Build options\<close>

datatype usic_ch = CH0 | CH1

datatype uart_baud = UART_19200 | UART_115200

fun UART_CHANNEL :: "usic_ch \<Rightarrow> xmc_channel" where
  "UART_CHANNEL CH0 = XMC_UART0_CH0"
| "UART_CHANNEL CH1 = XMC_UART0_CH1"

fun UART_INPUT_SOURCE :: "usic_ch \<Rightarrow> xmc_const" where
  "UART_INPUT_SOURCE CH0 = USIC0_C0_DX0_P2_0"
| "UART_INPUT_SOURCE CH1 = USIC0_C1_DX0_P1_3"

fun UART_TX_PIN :: "usic_ch \<Rightarrow> xmc_pin" where
  "UART_TX_PIN CH0 = (2, 1)"
| "UART_TX_PIN CH1 = (1, 2)"

fun UART_RX_PIN :: "usic_ch \<Rightarrow> xmc_pin" where
  "UART_RX_PIN CH0 = (2, 0)"
| "UART_RX_PIN CH1 = (1, 3)"

fun UART_TX_ALT :: "usic_ch \<Rightarrow> xmc_const" where
  "UART_TX_ALT CH0 = XMC_GPIO_MODE_OUTPUT_PUSH_PULL_ALT6"
| "UART_TX_ALT CH1 = XMC_GPIO_MODE_OUTPUT_PUSH_PULL_ALT7"

definition UART_RX_ALT :: xmc_const where
  "UART_RX_ALT = XMC_GPIO_MODE_INPUT_TRISTATE"

fun UART_BAUD_RATE :: "uart_baud \<Rightarrow> u32" where
  "UART_BAUD_RATE UART_19200 = 19200"
| "UART_BAUD_RATE UART_115200 = 115200"

section \<open>The driver\<close>

definition uart_tx_full :: "'s xmc \<Rightarrow> usic_ch \<Rightarrow> 's \<Rightarrow> bool \<times> 's" where
  "uart_tx_full hw ch s = (case xmc_get hw (XMC_USIC_CH_TXFIFO_IsFull (UART_CHANNEL ch)) s of
     (r, s') \<Rightarrow> (r = 1, s'))"

definition usic_uart_send :: "'s xmc \<Rightarrow> usic_ch \<Rightarrow> u8 \<Rightarrow> 's \<Rightarrow> 's option" where
  "usic_uart_send hw ch uwData s = do {
     s' \<leftarrow> spin (uart_tx_full hw ch) s;
     Some (xmc_do hw (XMC_USIC_CH_TXFIFO_PutData (UART_CHANNEL ch) (ucast uwData)) s')
   }"

definition uart_rx_empty :: "'s xmc \<Rightarrow> usic_ch \<Rightarrow> 's \<Rightarrow> bool \<times> 's" where
  "uart_rx_empty hw ch s = (case xmc_get hw (XMC_USIC_CH_RXFIFO_IsEmpty (UART_CHANNEL ch)) s of
     (r, s') \<Rightarrow> (r = 1, s'))"

definition usic_uart_recv :: "'s xmc \<Rightarrow> usic_ch \<Rightarrow> 's \<Rightarrow> (u8 \<times> 's) option" where
  "usic_uart_recv hw ch s = do {
     s1 \<leftarrow> spin (uart_rx_empty hw ch) s;
     let (r, s2) = xmc_get hw (XMC_USIC_CH_RXFIFO_GetData (UART_CHANNEL ch)) s1;
     Some (ucast r, s2)
   }"

definition usic_uart_open ::
    "'s xmc \<Rightarrow> usic_ch \<Rightarrow> uart_baud \<Rightarrow> node \<Rightarrow> 's \<Rightarrow> (cint \<times> node \<times> 's) option" where
  "usic_uart_open hw ch baud v s =
     (let cfg = \<lparr>uart_baudrate = UART_BAUD_RATE baud, uart_data_bits = 8,
                 uart_parity_mode = XMC_USIC_CH_PARITY_MODE_NONE, uart_stop_bits = 1\<rparr>
      in Some (0, v\<lparr>data := Uart_config cfg\<rparr>, xmc_run hw
           [XMC_UART_CH_Init (UART_CHANNEL ch) cfg,
            XMC_UART_CH_SetInputSource (UART_CHANNEL ch) XMC_UART_CH_INPUT_RXD (UART_INPUT_SOURCE ch),
            XMC_USIC_CH_RXFIFO_Configure (UART_CHANNEL ch) 32 XMC_USIC_CH_FIFO_SIZE_16WORDS 8,
            XMC_USIC_CH_TXFIFO_Configure (UART_CHANNEL ch) 48 XMC_USIC_CH_FIFO_SIZE_16WORDS 8,
            XMC_UART_CH_Start (UART_CHANNEL ch),
            XMC_GPIO_SetMode (UART_TX_PIN ch) (UART_TX_ALT ch),
            XMC_GPIO_SetMode (UART_RX_PIN ch) UART_RX_ALT] s))"

definition usic_uart_close :: "'s xmc \<Rightarrow> usic_ch \<Rightarrow> node \<Rightarrow> 's \<Rightarrow> (cint \<times> node \<times> 's) option" where
  "usic_uart_close hw ch v s = Some (0, v, xmc_run hw [XMC_UART_CH_Stop (UART_CHANNEL ch)] s)"

definition usic_uart_write ::
    "'s xmc \<Rightarrow> usic_ch \<Rightarrow> node \<Rightarrow> uio \<Rightarrow> 's \<Rightarrow> (cint \<times> node \<times> uio \<times> 's) option" where
  "usic_uart_write hw ch v u s = do {
     (u', s') \<leftarrow> write_loop (usic_uart_send hw ch) (iov_base (uio_iov u)) u s;
     Some (0, v, u', s')
   }"

definition usic_uart_read ::
    "'s xmc \<Rightarrow> usic_ch \<Rightarrow> node \<Rightarrow> uio \<Rightarrow> 's \<Rightarrow> (cint \<times> node \<times> uio \<times> 's) option" where
  "usic_uart_read hw ch v u s = do {
     (u', s') \<leftarrow> read_loop (\<lambda>_. usic_uart_recv hw ch) (iov_base (uio_iov u)) u s;
     Some (0, v, u', s')
   }"

definition usic_uart_ioctl ::
    "node \<Rightarrow> u8 \<Rightarrow> ioctl_data \<Rightarrow> 's \<Rightarrow> (cint \<times> node \<times> ioctl_data \<times> 's) option" where
  "usic_uart_ioctl v code d s = Some (0, v, d, s)"

definition uart :: "'s xmc \<Rightarrow> usic_ch \<Rightarrow> uart_baud \<Rightarrow> (node_data, 's) dev_ops" where
  "uart hw ch baud =
     \<lparr>d_open = usic_uart_open hw ch baud, d_close = usic_uart_close hw ch,
      d_read = usic_uart_read hw ch, d_write = usic_uart_write hw ch, d_ioctl = usic_uart_ioctl\<rparr>"

section \<open>The driver keeps the contract\<close>

definition uart_fetch :: "'s xmc \<Rightarrow> usic_ch \<Rightarrow> node \<Rightarrow> nat \<Rightarrow> 's \<Rightarrow> (u8 list \<times> 's) option" where
  "uart_fetch hw ch v n s = recv_all (\<lambda>_. usic_uart_recv hw ch) n s"

definition uart_emit :: "'s xmc \<Rightarrow> usic_ch \<Rightarrow> node \<Rightarrow> u8 list \<Rightarrow> 's \<Rightarrow> 's option" where
  "uart_emit hw ch v bs s = send_all (usic_uart_send hw ch) bs s"

interpretation uart_stream: stream_device "usic_uart_read hw ch" "usic_uart_write hw ch"
    "uart_fetch hw ch" "uart_emit hw ch"
proof
  fix u :: uio and v s
  assume u: "uio_in_bounds u"
  show "usic_uart_write hw ch v u s =
      map_option (\<lambda>s'. (0, v, u\<lparr>uio_resid := 0\<rparr>, s')) (uart_emit hw ch v (uio_bytes u) s)"
    using u write_loop_spec [of u "iov_base (uio_iov u)" "usic_uart_send hw ch" s]
    by (cases "uart_emit hw ch v (uio_bytes u) s")
      (simp_all add: usic_uart_write_def uart_emit_def uio_in_bounds_def uio_bytes_def)
  show "usic_uart_read hw ch v u s =
      map_option (\<lambda>(bs, s'). (0, v, uio_done bs u, s')) (uart_fetch hw ch v (unat (uio_resid u)) s)"
    using u read_loop_spec [of u "iov_base (uio_iov u)" "\<lambda>_. usic_uart_recv hw ch" s]
    by (cases "uart_fetch hw ch v (unat (uio_resid u)) s")
      (auto simp: usic_uart_read_def uart_fetch_def uio_in_bounds_def uio_done_def)
next
  fix v n s bs s'
  show "uart_fetch hw ch v n s = Some (bs, s') \<Longrightarrow> length bs = n"
    by (simp add: uart_fetch_def recv_all_length)
qed

section \<open>On a line\<close>

text \<open>
  The documented behaviour of the transmit FIFO, observed on the line: \<open>wire\<close> is what has
  been handed to the channel so far. Asking whether the FIFO is full sends nothing; after
  some polls it is not full; a word put into a FIFO that is not full is appended.
\<close>

definition uart_line :: "'s xmc \<Rightarrow> usic_ch \<Rightarrow> ('s \<Rightarrow> u16 list) \<Rightarrow> bool" where
  "uart_line hw ch wire \<longleftrightarrow>
     (\<forall>s. wire (snd (uart_tx_full hw ch s)) = wire s) \<and>
     (\<forall>s. \<exists>s'. settles (uart_tx_full hw ch) s s') \<and>
     (\<forall>s s' w. uart_tx_full hw ch s = (False, s') \<longrightarrow>
        wire (xmc_do hw (XMC_USIC_CH_TXFIFO_PutData (UART_CHANNEL ch) w) s') = wire s' @ [w])"

lemma uart_send_line:
  assumes "uart_line hw ch wire"
  obtains s' where "usic_uart_send hw ch b s = Some s'" "wire s' = wire s @ [ucast b]"
proof -
  obtain s1 where s1: "spin (uart_tx_full hw ch) s = Some s1"
    using assms unfolding uart_line_def spin_settles by blast
  have "wire s1 = wire s \<and> (\<exists>s0. wire s0 = wire s \<and> uart_tx_full hw ch s0 = (False, s1))"
    using assms by (intro spin_keeps [OF s1]) (auto simp: uart_line_def)
  then have "wire (xmc_do hw (XMC_USIC_CH_TXFIFO_PutData (UART_CHANNEL ch) (ucast b)) s1) =
      wire s @ [ucast b]"
    using assms by (auto simp: uart_line_def)
  then show ?thesis using that s1 by (simp add: usic_uart_send_def)
qed

lemma uart_emit_line:
  assumes "uart_line hw ch wire"
  shows "\<exists>s'. uart_emit hw ch v bs s = Some s' \<and> wire s' = wire s @ map ucast bs"
proof (induction bs arbitrary: s)
  case (Cons b bs)
  obtain s1 where s1: "usic_uart_send hw ch b s = Some s1" "wire s1 = wire s @ [ucast b]"
    by (rule uart_send_line [OF assms])
  with Cons.IH [of s1] show ?case by (auto simp: uart_emit_def)
qed (simp add: uart_emit_def)

text \<open>
  The documented behaviour of the receive FIFO: \<open>taken\<close> is what has been read out of it so
  far; polling takes nothing and eventually finds a word.
\<close>

definition uart_input :: "'s xmc \<Rightarrow> usic_ch \<Rightarrow> ('s \<Rightarrow> u32 list) \<Rightarrow> bool" where
  "uart_input hw ch taken \<longleftrightarrow>
     (\<forall>s. taken (snd (uart_rx_empty hw ch s)) = taken s) \<and>
     (\<forall>s. \<exists>s'. settles (uart_rx_empty hw ch) s s') \<and>
     (\<forall>s s' r. xmc_get hw (XMC_USIC_CH_RXFIFO_GetData (UART_CHANNEL ch)) s = (r, s') \<longrightarrow>
        taken s' = taken s @ [r])"

lemma uart_recv_input:
  assumes "uart_input hw ch taken"
  obtains r s' where "usic_uart_recv hw ch s = Some (ucast r, s')" "taken s' = taken s @ [r]"
proof -
  obtain s1 where s1: "spin (uart_rx_empty hw ch) s = Some s1"
    using assms unfolding uart_input_def spin_settles by blast
  have "taken s1 = taken s \<and> (\<exists>s0. taken s0 = taken s \<and> uart_rx_empty hw ch s0 = (False, s1))"
    using assms by (intro spin_keeps [OF s1]) (auto simp: uart_input_def)
  moreover obtain r s2 where
    "xmc_get hw (XMC_USIC_CH_RXFIFO_GetData (UART_CHANNEL ch)) s1 = (r, s2)"
    by (cases "xmc_get hw (XMC_USIC_CH_RXFIFO_GetData (UART_CHANNEL ch)) s1")
  moreover from this have "taken s2 = taken s1 @ [r]"
    using assms by (simp add: uart_input_def)
  ultimately show ?thesis
    using that [of r s2] s1 by (simp add: usic_uart_recv_def)
qed

lemma uart_fetch_input:
  assumes "uart_input hw ch taken"
  shows "\<exists>rs s'. uart_fetch hw ch v n s = Some (map ucast rs, s') \<and> taken s' = taken s @ rs \<and>
    length rs = n"
proof (induction n arbitrary: s)
  case (Suc n)
  obtain r s1 where r: "usic_uart_recv hw ch s = Some (ucast r, s1)" "taken s1 = taken s @ [r]"
    by (rule uart_recv_input [OF assms])
  from Suc.IH [of s1] obtain rs s2 where
    "uart_fetch hw ch v n s1 = Some (map ucast rs, s2)" "taken s2 = taken s1 @ rs" "length rs = n"
    by blast
  with r show ?case
    by (intro exI [of _ "r # rs"] exI [of _ s2]) (simp add: uart_fetch_def)
qed (simp add: uart_fetch_def)

text \<open>
  A channel for the examples: the transmit FIFO is full for two polls after every word; the
  receive FIFO delivers 65, 66, 67, ...
\<close>

record demo_channel =
  dc_full :: nat
  dc_wire :: "u16 list"
  dc_taken :: "u32 list"

definition demo_get :: "xmc_query \<Rightarrow> demo_channel \<Rightarrow> u32 \<times> demo_channel" where
  "demo_get q s = (case q of
     XMC_USIC_CH_TXFIFO_IsFull _ \<Rightarrow>
       (if dc_full s = 0 then (0, s) else (1, s\<lparr>dc_full := dc_full s - 1\<rparr>))
   | XMC_USIC_CH_RXFIFO_GetData _ \<Rightarrow>
       (let r = of_nat (65 + length (dc_taken s)) in (r, s\<lparr>dc_taken := dc_taken s @ [r]\<rparr>))
   | _ \<Rightarrow> (0, s))"

definition demo_do :: "xmc_call \<Rightarrow> demo_channel \<Rightarrow> demo_channel" where
  "demo_do c s = (case c of
     XMC_USIC_CH_TXFIFO_PutData _ w \<Rightarrow> s\<lparr>dc_full := 2, dc_wire := dc_wire s @ [w]\<rparr>
   | _ \<Rightarrow> s)"

definition demo_xmc :: "demo_channel xmc" where
  "demo_xmc = \<lparr>xmc_do = demo_do, xmc_get = demo_get, xmc_value = (\<lambda>_. 0)\<rparr>"

definition demo_quiet :: demo_channel where
  "demo_quiet = \<lparr>dc_full = 1, dc_wire = [], dc_taken = []\<rparr>"

lemma demo_uart_line: "uart_line demo_xmc ch dc_wire"
proof -
  have full: "uart_tx_full demo_xmc ch s =
      (if dc_full s = 0 then (False, s) else (True, s\<lparr>dc_full := dc_full s - 1\<rparr>))" for s
    by (simp add: uart_tx_full_def demo_xmc_def demo_get_def)
  have "\<exists>s'. settles (uart_tx_full demo_xmc ch) s s'" for s
  proof (induction "dc_full s" arbitrary: s)
    case 0
    then show ?case using full [of s] by (auto intro: settles_now)
  next
    case (Suc n)
    from Suc(1) [of "s\<lparr>dc_full := n\<rparr>"] obtain s'
      where "settles (uart_tx_full demo_xmc ch) (s\<lparr>dc_full := n\<rparr>) s'" by auto
    moreover have "uart_tx_full demo_xmc ch s = (True, s\<lparr>dc_full := n\<rparr>)"
      using full [of s] Suc(2) [symmetric] by simp
    ultimately show ?case by (blast intro: settles_later)
  qed
  then show ?thesis
    by (simp add: uart_line_def full) (simp add: demo_xmc_def demo_do_def)
qed

lemma demo_uart_input: "uart_input demo_xmc ch dc_taken"
proof -
  have empty: "uart_rx_empty demo_xmc ch s = (False, s)" for s
    by (simp add: uart_rx_empty_def demo_xmc_def demo_get_def)
  then have "settles (uart_rx_empty demo_xmc ch) s s" for s by (rule settles_now)
  then show ?thesis
    by (auto simp: uart_input_def empty) (auto simp: demo_xmc_def demo_get_def Let_def)
qed

definition demo_uart_table :: "(node_data, demo_channel) dev_table" where
  "demo_uart_table = driver_map DEV_UART (uart demo_xmc CH1 UART_19200) no_devices"

definition demo_uart_node :: node where
  "demo_uart_node = \<lparr>dev_type = UART, dev_id = 2, endpt = 0, offset = 0, data = No_data\<rparr>"

lemma demo_uart_driver: "driver demo_uart_table demo_uart_node = Some (uart demo_xmc CH1 UART_19200)"
  unfolding demo_uart_table_def
  by (rule driver_map_same) (simp_all add: node_of_def demo_uart_node_def)

section \<open>Properties\<close>

text \<open>
  C23: writing to the UART. When the transmit FIFO behaves as documented, \<open>dev_write\<close> on a
  node of the UART returns, reports all the bytes as written, and the line has received
  exactly these bytes, in order, after what was sent before.
\<close>

theorem uart_write_on_wire:
  assumes "uart_line hw ch wire" "driver devices v = Some (uart hw ch baud)"
    and "unat count < 2 ^ 31" "unat count \<le> length ptr"
  shows "\<exists>s'. dev_write devices ptr count v s = Some (count, v, s') \<and>
    wire s' = wire s @ map ucast (take (unat count) ptr)"
  using uart_emit_line [OF assms(1), of v "take (unat count) ptr" s]
    uart_stream.dev_write_emits [OF assms(2) _ assms(3,4), of hw ch s]
  by (auto simp: uart_def)

theorem uart_write_on_wire_witness:
  "\<exists>s'. dev_write demo_uart_table [72, 105, 33] 2 demo_uart_node demo_quiet = Some (2, demo_uart_node, s') \<and>
     dc_wire s' = [72, 105]"
  using uart_write_on_wire [OF demo_uart_line demo_uart_driver, of 2 "[72, 105, 33]" demo_quiet]
  by (simp add: demo_quiet_def)

text \<open>
  Reading from the UART. When the receive FIFO behaves as documented, \<open>dev_read\<close> on a node
  of the UART returns, reports as many bytes as asked for, and has stored in the buffer,
  from its start and in order, the low bytes of the words it took out of the FIFO, leaving
  the rest of the buffer alone.
\<close>

theorem uart_read_in_order:
  assumes "uart_input hw ch taken" "driver devices v = Some (uart hw ch baud)"
    and "unat count < 2 ^ 31" "unat count \<le> length ptr"
  shows "\<exists>rs s'. dev_read devices ptr count v s =
      Some (count, map ucast rs @ drop (unat count) ptr, v, s') \<and>
    taken s' = taken s @ rs \<and> length rs = unat count"
proof (cases "count = 0")
  case True
  then show ?thesis using uart_stream.dev_read_nothing [OF assms(2)] by simp
next
  case False
  then have "0 < unat count" by (simp add: unat_gt_0)
  then have "dev_read devices ptr count v s =
      map_option (\<lambda>(bs, s'). (count, overwrite 0 bs ptr, v, s')) (uart_fetch hw ch v (unat count) s)"
    using assms by (intro uart_stream.dev_read_fetches [OF assms(2)]) (simp_all add: uart_def)
  then show ?thesis
    using uart_fetch_input [OF assms(1), of v "unat count" s] by (auto simp: overwrite_def)
qed

theorem uart_read_in_order_witness:
  "\<exists>rs s'. dev_read demo_uart_table [0, 0, 9] 2 demo_uart_node demo_quiet =
      Some (2, map ucast rs @ [9], demo_uart_node, s') \<and> dc_taken s' = rs \<and> length rs = 2"
  using uart_read_in_order [OF demo_uart_input demo_uart_driver, of 2 "[0, 0, 9]" demo_quiet]
  by (simp add: demo_quiet_def)

end
