(* ===== verification/Console_Calls.thy ===== *)
theory Console_Calls
  imports Libc_Printf Heap_Sbrk Uart_Usic
begin

text \<open>
  The file calls of src/src/syscall.c and the console functions over them: \<open>cb_printf\<close> and
  \<open>printf\<close> of printf.c and \<open>getchar\<close> of getchar.c. The state is the global \<open>errno\<close> and the state
  of the devices; the local \<open>struct vnode\<close>, of which only two fields are set, is an argument.
\<close>

section \<open>System calls\<close>

definition STDIN_FILENO :: cint where "STDIN_FILENO = 0"
definition STDOUT_FILENO :: cint where "STDOUT_FILENO = 1"
definition STDERR_FILENO :: cint where "STDERR_FILENO = 2"

lemmas fileno_defs = STDIN_FILENO_def STDOUT_FILENO_def STDERR_FILENO_def

definition sys_open :: "u8 list \<Rightarrow> cint \<Rightarrow> cint \<Rightarrow> cint" where
  "sys_open name fl mode = - 1"

definition sys_close :: "cint \<Rightarrow> cint" where
  "sys_close fd = - 1"

definition uart_vnode :: "node \<Rightarrow> node" where
  "uart_vnode v = v\<lparr>dev_type := UART, dev_id := of_nat (dev_id_code DEV_UART)\<rparr>"

definition sys_read ::
    "(node_data, 's) dev_table \<Rightarrow> node \<Rightarrow> cint \<Rightarrow> u8 list \<Rightarrow> cint \<Rightarrow> errno_e \<times> 's
      \<Rightarrow> (cint \<times> u8 list \<times> errno_e \<times> 's) option" where
  "sys_read devices vnode file ptr n st = (case st of (e, s) \<Rightarrow>
     if file = STDIN_FILENO then do {
       (r, ptr', _, s') \<leftarrow> dev_read devices ptr n (uart_vnode vnode) s;
       Some (r, ptr', e, s')
     }
     else Some (- 1, ptr, EBADF, s))"

definition sys_write ::
    "(node_data, 's) dev_table \<Rightarrow> node \<Rightarrow> cint \<Rightarrow> u8 list \<Rightarrow> cint \<Rightarrow> errno_e \<times> 's
      \<Rightarrow> (cint \<times> errno_e \<times> 's) option" where
  "sys_write devices vnode file ptr n st = (case st of (e, s) \<Rightarrow>
     if file = STDOUT_FILENO \<or> file = STDERR_FILENO then do {
       (r, _, s') \<leftarrow> dev_write devices ptr n (uart_vnode vnode) s;
       Some (r, e, s')
     }
     else Some (- 1, EBADF, s))"

section \<open>Console\<close>

definition cb_printf :: "(node_data, 's) dev_table \<Rightarrow> node \<Rightarrow> u8 \<Rightarrow> errno_e \<times> 's \<Rightarrow> (errno_e \<times> 's) option" where
  "cb_printf devices vnode c st = map_option snd (sys_write devices vnode 1 [c] 1 st)"

definition printf ::
    "(node_data, 's) dev_table \<Rightarrow> node \<Rightarrow> u8 list \<Rightarrow> u8 list \<Rightarrow> va list \<Rightarrow> errno_e \<times> 's
      \<Rightarrow> (cint \<times> errno_e \<times> 's) option" where
  "printf devices vnode bf0 fmt va st = cnprintf (cb_printf devices vnode) 128 fmt va bf0 st"

text \<open>\<open>getchar\<close> returns its uninitialised local \<open>c0\<close> when the call stores nothing in it.\<close>

definition getchar ::
    "(node_data, 's) dev_table \<Rightarrow> node \<Rightarrow> u8 \<Rightarrow> errno_e \<times> 's \<Rightarrow> (cint \<times> errno_e \<times> 's) option" where
  "getchar devices vnode c0 st = do {
     (_, buf, st') \<leftarrow> sys_read devices vnode 0 [c0] 1 st;
     Some (ucast (hd buf), st')
   }"

lemma uart_vnode_node [simp]: "node_of DEV_UART (uart_vnode v)"
  by (simp add: node_of_def uart_vnode_def)

text \<open>A table in which the UART driver is mapped.\<close>

definition has_uart :: "(node_data, 's) dev_table \<Rightarrow> 's xmc \<Rightarrow> usic_ch \<Rightarrow> uart_baud \<Rightarrow> bool" where
  "has_uart devices hw ch baud \<longleftrightarrow> (\<forall>v. node_of DEV_UART v \<longrightarrow> driver devices v = Some (uart hw ch baud))"

lemma has_uart_mapped:
  "length devices = DRIVER_NB \<Longrightarrow> has_uart (driver_map DEV_UART (uart hw ch baud) devices) hw ch baud"
  by (simp add: has_uart_def driver_map_same)

lemma has_uart_other:
  "has_uart devices hw ch baud \<Longrightarrow> i \<noteq> DEV_UART \<Longrightarrow> has_uart (driver_map i ops devices) hw ch baud"
  by (simp add: has_uart_def driver_map_other)

lemma cb_printf_emit:
  assumes "has_uart devices hw ch baud"
  shows "cb_printf devices vnode c (e, s) = map_option (Pair e) (usic_uart_send hw ch c s)"
proof -
  have d: "driver devices (uart_vnode vnode) = Some (uart hw ch baud)"
    using assms by (simp add: has_uart_def)
  have "dev_write devices [c] 1 (uart_vnode vnode) s =
      map_option (\<lambda>s'. (1, uart_vnode vnode, s')) (uart_emit hw ch (uart_vnode vnode) [c] s)"
    using uart_stream.dev_write_emits [OF d, of hw ch 1 "[c]" s] by (simp add: uart_def)
  then show ?thesis
    by (cases "usic_uart_send hw ch c s")
      (simp_all add: cb_printf_def sys_write_def fileno_defs uart_emit_def)
qed

lemma send_all_cb_printf:
  assumes "has_uart devices hw ch baud"
  shows "send_all (cb_printf devices vnode) cs (e, s) = map_option (Pair e) (uart_emit hw ch v cs s)"
proof (induction cs arbitrary: s)
  case (Cons c cs)
  then show ?case
    by (cases "usic_uart_send hw ch c s") (simp_all add: cb_printf_emit [OF assms] uart_emit_def)
qed (simp add: uart_emit_def)

lemma printf_emits:
  assumes "has_uart devices hw ch baud" "\<forall>q \<in> set ps. piece_ok q" "length bf0 = 12"
  shows "printf devices vnode bf0 (pieces_fmt ps @ 0 # r) (pieces_args ps @ va) (e, s) =
    map_option (\<lambda>s'. (0, e, s')) (uart_emit hw ch v (pieces_text (shown 128 ps)) s)"
proof -
  have "sint (128 :: cint) = 128" by code_simp
  then have "printf devices vnode bf0 (pieces_fmt ps @ 0 # r) (pieces_args ps @ va) (e, s) =
      map_option (Pair 0) (send_all (cb_printf devices vnode) (pieces_text (shown 128 ps)) (e, s))"
    using cnprintf_loop_eq [OF assms(2,3), of "cb_printf devices vnode" 128 0 r va "(e, s)"]
    by (simp add: printf_def cnprintf_def)
  then show ?thesis
    by (cases "uart_emit hw ch v (pieces_text (shown 128 ps)) s")
      (simp_all add: send_all_cb_printf [OF assms(1), where v = v])
qed

section \<open>Properties\<close>

text \<open>
  C15: formatted output reaches the line. With the UART driver mapped and a transmit FIFO that
  behaves as documented, \<open>printf\<close> of a format made of plain characters and directives returns
  0, leaves \<open>errno\<close> alone, and the line has received exactly the text of the pieces that start
  in the first 128 characters of the format, after what was sent before.
\<close>

theorem printf_reaches_line:
  assumes "has_uart devices hw ch baud" "uart_line hw ch wire"
    and "\<forall>q \<in> set ps. piece_ok q" "length bf0 = 12"
  shows "\<exists>s'. printf devices vnode bf0 (pieces_fmt ps @ 0 # r) (pieces_args ps @ va) (e, s) = Some (0, e, s') \<and>
    wire s' = wire s @ map ucast (pieces_text (shown 128 ps))"
  using uart_emit_line [OF assms(2), of vnode "pieces_text (shown 128 ps)" s]
  by (auto simp: printf_emits [OF assms(1,3,4), where v = vnode])

theorem printf_reaches_line_witness:
  "\<exists>s'. printf demo_uart_table demo_uart_node (replicate 12 0xEE)
      ([0x3A, CH_PERCENT, CH_d, 0x0A] @ [0]) [Va_int (- 5)] (EPERM, demo_quiet) = Some (0, EPERM, s') \<and>
    dc_wire s' = [0x3A, 0x2D, 0x35, 0x0A]"
proof -
  let ?ps = "[Lit 0x3A, Conv None [] [] (Dec (- 5)), Lit 0x0A]"
  have t: "map ucast (pieces_text (shown 128 ?ps)) = [0x3A, 0x2D, 0x35, 0x0A :: u16]"
    by code_simp
  have "has_uart demo_uart_table demo_xmc CH1 UART_19200"
    unfolding demo_uart_table_def by (rule has_uart_mapped) simp
  from printf_reaches_line [OF this demo_uart_line, of ?ps "replicate 12 0xEE" demo_uart_node "[]" "[]" EPERM
      demo_quiet, unfolded t]
  show ?thesis by (simp add: pieces_fmt_def pieces_args_def demo_quiet_def)
qed

text \<open>
  Descriptors. Reading a descriptor other than standard input, and writing one other than
  standard output and error, returns -1, sets \<open>errno\<close> to \<open>EBADF\<close> and touches neither the buffer
  nor any device; \<open>sys_open\<close> and \<open>sys_close\<close> always return -1.
\<close>

theorem bad_descriptors:
  "(file \<noteq> STDIN_FILENO \<longrightarrow> sys_read devices vnode file ptr n (e, s) = Some (- 1, ptr, EBADF, s)) \<and>
   (file \<noteq> STDOUT_FILENO \<and> file \<noteq> STDERR_FILENO \<longrightarrow>
      sys_write devices vnode file ptr n (e, s) = Some (- 1, EBADF, s)) \<and>
   sys_open name fl mode = - 1 \<and> sys_close fd = - 1"
  by (simp add: sys_read_def sys_write_def sys_open_def sys_close_def)

theorem bad_descriptors_witness:
  "sys_read demo_uart_table demo_uart_node 1 [7] 1 (EPERM, demo_quiet) = Some (- 1, [7], EBADF, demo_quiet)"
  using bad_descriptors [of 1 demo_uart_table demo_uart_node "[7]" 1 EPERM demo_quiet "[]" 0 0 0]
  by (simp add: fileno_defs)

text \<open>
  \<open>getchar\<close> waits for a character of the UART and returns it, from 0 to 255.
\<close>

theorem getchar_returns_input:
  assumes "has_uart devices hw ch baud" "uart_input hw ch taken"
  shows "\<exists>r s'. getchar devices vnode c0 (e, s) = Some (ucast (ucast r :: u8), e, s') \<and>
    taken s' = taken s @ [r]"
proof -
  have d: "driver devices (uart_vnode vnode) = Some (uart hw ch baud)"
    using assms(1) by (simp add: has_uart_def)
  obtain rs s' where f: "uart_fetch hw ch (uart_vnode vnode) 1 s = Some (map ucast rs, s')"
    "taken s' = taken s @ rs" "length rs = 1"
    using uart_fetch_input [OF assms(2)] by blast
  then obtain r where r: "rs = [r]" by (auto simp: length_Suc_conv)
  have "dev_read devices [c0] 1 (uart_vnode vnode) s = Some (1, [ucast r], uart_vnode vnode, s')"
    using uart_stream.dev_read_fetches [OF d, of hw ch 1 "[c0]" s] f(1)
    by (simp add: uart_def r overwrite_def)
  then show ?thesis
    using f(2) r by (simp add: getchar_def sys_read_def fileno_defs)
qed

theorem getchar_returns_input_witness:
  "\<exists>r s'. getchar demo_uart_table demo_uart_node 0 (EPERM, demo_quiet) = Some (ucast (ucast r :: u8), EPERM, s') \<and>
    dc_taken s' = [r]"
proof -
  have "has_uart demo_uart_table demo_xmc CH1 UART_19200"
    unfolding demo_uart_table_def by (rule has_uart_mapped) simp
  from getchar_returns_input [OF this demo_uart_input, of demo_uart_node 0 EPERM demo_quiet]
  show ?thesis by (simp add: demo_quiet_def)
qed

end
