(* ===== verification/Mmc_Codec.thy ===== *)
theory Mmc_Codec
  imports Device_Data
begin

text \<open>
  The computations of src/src/dev/mmc/mmc_spi.c and mmc.h that touch no device: the CRC of a
  command, the byte order of the registers of a card, the extraction of their fields, and
  the decoding of the CSD. The CRC is compared with polynomial division, the extraction
  with the register as a 128-bit number.
\<close>

section \<open>The CRC\<close>

text \<open>One turn of the inner loop, on \<open>c\<close> and \<open>crc\<close>; one byte; the function.\<close>

definition crc7_bit :: "u8 \<times> u8 \<Rightarrow> u8 \<times> u8" where
  "crc7_bit = (\<lambda>(c, crc).
     let crc1 = push_bit 1 crc;
         crc2 = (if (c XOR crc1) AND 0x80 \<noteq> 0 then crc1 XOR 0x09 else crc1)
     in (push_bit 1 c, crc2))"

definition crc7_byte :: "u8 \<Rightarrow> u8 \<Rightarrow> u8" where
  "crc7_byte crc c = snd ((crc7_bit ^^ 8) (c, crc)) AND 0x7F"

text \<open>The array is at least \<open>n\<close> bytes long.\<close>

definition mmc_crc7 :: "u8 list \<Rightarrow> u8 \<Rightarrow> u8" where
  "mmc_crc7 bs n = push_bit 1 (foldl crc7_byte 0x00 (take (unat n) bs)) OR 0x1"

section \<open>Registers of a card\<close>

definition swap_words :: "nat \<Rightarrow> u8 list \<Rightarrow> u8 list" where
  "swap_words p bs =
     (let tmp = bs ! (p + 3); bs1 = bs[p + 3 := bs ! p]; bs2 = bs1[p := tmp];
          tmp = bs2 ! (p + 2); bs3 = bs2[p + 2 := bs2 ! (p + 1)]
      in bs3[p + 1 := tmp])"

text \<open>The words of a \<open>uint32_t[5]\<close> whose bytes are given, little endian.\<close>

definition word_at :: "u8 list \<Rightarrow> nat \<Rightarrow> u32" where
  "word_at bs i = word_rcat [bs ! (4 * i + 3), bs ! (4 * i + 2), bs ! (4 * i + 1), bs ! (4 * i)]"

definition words_of :: "u8 list \<Rightarrow> u32 list" where
  "words_of bs = map (word_at bs) [0 ..< 5]"

definition swap_all :: "u8 list \<Rightarrow> u8 list" where
  "swap_all = fold (\<lambda>i. swap_words (4 * i)) [0 ..< 4]"

text \<open>\<open>UNSTUFF_BITS(resp,start,size)\<close>; at its uses \<open>start\<close> and \<open>size\<close> are literals.\<close>

definition UNSTUFF_BITS :: "u32 list \<Rightarrow> nat \<Rightarrow> nat \<Rightarrow> u32" where
  "UNSTUFF_BITS resp start sz =
     (let mask = (if sz < 32 then push_bit sz 1 else 0) - 1;
          off = 3 - start div 32;
          shft = start AND 31;
          res = drop_bit shft (resp ! off);
          res1 = (if 32 < sz + shft then res OR push_bit ((32 - shft) mod 32) (resp ! (off - 1)) else res)
      in res1 AND mask)"

section \<open>Decoding the CSD\<close>

definition MMC_ERROR :: cint where "MMC_ERROR = - 1"
definition MMC_OK :: cint where "MMC_OK = 2"

text \<open>The fields both versions of the decoder read first.\<close>

abbreviation csd_common :: "u32 list \<Rightarrow> mmc_info \<Rightarrow> mmc_info" where
  "csd_common buf i \<equiv>
     (let c = (csd i)\<lparr>c_structure := ucast (UNSTUFF_BITS buf 126 2),
                      read_bl_len := ucast (UNSTUFF_BITS buf 80 4),
                      write_bl_len := ucast (UNSTUFF_BITS buf 22 4)\<rparr>
      in i\<lparr>csd := c, read_block_size := push_bit (unat (read_bl_len c)) 1,
           write_block_size := push_bit (unat (write_bl_len c)) 1\<rparr>)"

text \<open>The fields of version 1; \<open>mult\<close> and \<open>blocknr\<close> are int, the product is unsigned.\<close>

abbreviation csd_size1 :: "u32 list \<Rightarrow> mmc_info \<Rightarrow> mmc_info" where
  "csd_size1 buf i \<equiv>
     (let c = (csd i)\<lparr>c_size := UNSTUFF_BITS buf 62 12, c_mult := ucast (UNSTUFF_BITS buf 47 3)\<rparr>;
          mult = push_bit (unat (c_mult c) + 2) 1;
          blocknr = (c_size c + 1) * mult
      in i\<lparr>csd := c, mem_size := blocknr * read_block_size i div 1024 div 1024\<rparr>)"

definition sd_decode_csd :: "u32 list \<Rightarrow> mmc_info \<Rightarrow> cint \<times> mmc_info" where
  "sd_decode_csd buf i0 =
     (let i = csd_common buf i0
      in if c_structure (csd i) = 0 then (MMC_OK, csd_size1 buf i)
         else if c_structure (csd i) = 1 then
           let c = (csd i)\<lparr>c_size := UNSTUFF_BITS buf 48 22\<rparr>
           in (MMC_OK, i\<lparr>csd := c, mem_size := c_size c + 1 * 512\<rparr>)
         else (MMC_ERROR, i))"

definition mmc_decode_csd :: "u32 list \<Rightarrow> mmc_info \<Rightarrow> cint \<times> mmc_info" where
  "mmc_decode_csd buf i0 = (MMC_OK, csd_size1 buf (csd_common buf i0))"

section \<open>Polynomial division\<close>

text \<open>
  Polynomials over two elements, as coefficient lists with the highest power first. The
  divisor has a leading 1, which is left out.
\<close>

function gf2_rem :: "bool list \<Rightarrow> bool list \<Rightarrow> bool list" where
  "gf2_rem g bs =
     (if length bs \<le> length g then bs
      else gf2_rem g ((if hd bs then map2 (\<noteq>) (take (length g) (tl bs)) g else take (length g) (tl bs))
             @ drop (length g) (tl bs)))"
  by pat_completeness auto
termination
  by (relation "measure (\<lambda>(g, bs). length bs)") auto

declare gf2_rem.simps [simp del]

text \<open>\<open>x^7 + x^3 + 1\<close>.\<close>

definition crc7_poly :: "bool list" where
  "crc7_poly = [False, False, False, True, False, False, True]"

definition byte_bits :: "u8 \<Rightarrow> bool list" where
  "byte_bits b = map (bit b) [7, 6, 5, 4, 3, 2, 1, 0]"

text \<open>The shift register of seven bits, and what the code keeps in a byte.\<close>

definition lfsr :: "bool list \<Rightarrow> bool \<Rightarrow> bool list" where
  "lfsr r b = (let h = (hd r \<noteq> b) in map2 (\<noteq>) (tl r @ [False]) (map ((\<and>) h) crc7_poly))"

definition low7 :: "u8 \<Rightarrow> bool list" where
  "low7 w = map (bit w) [6, 5, 4, 3, 2, 1, 0]"

lemma seven: 
  assumes "length r = 7"
  obtains a b c d e f g where "r = [a, b, c, d, e, f, g]"
  using assms by (auto simp: eval_nat_numeral length_Suc_conv)

lemma seven_more:
  assumes "7 \<le> length r"
  obtains a b c d e f g s where "r = a # b # c # d # e # f # g # s"
  using assms by (auto simp: eval_nat_numeral Suc_le_length_iff)

lemma length_lfsr [simp]: "length r = 7 \<Longrightarrow> length (lfsr r b) = 7"
  by (erule seven) (simp add: lfsr_def crc7_poly_def)

lemma length_foldl_lfsr [simp]: "length r = 7 \<Longrightarrow> length (foldl lfsr r bs) = 7"
  by (induction bs arbitrary: r) simp_all

lemma lfsr_inj: "length r = 7 \<Longrightarrow> length r' = 7 \<Longrightarrow> lfsr r b = lfsr r' b \<Longrightarrow> r = r'"
  by (erule seven, erule seven) (auto simp: lfsr_def crc7_poly_def)

lemma lfsr_bit: "length r = 7 \<Longrightarrow> b \<noteq> c \<Longrightarrow> lfsr r b \<noteq> lfsr r c"
  by (erule seven) (auto simp: lfsr_def crc7_poly_def)

lemma foldl_lfsr_inj:
  "length r = 7 \<Longrightarrow> length r' = 7 \<Longrightarrow> foldl lfsr r bs = foldl lfsr r' bs \<Longrightarrow> r = r'"
proof (induction bs arbitrary: r r')
  case (Cons b bs)
  then have "lfsr r b = lfsr r' b" by simp
  with Cons.prems show ?case by (metis lfsr_inj)
qed simp

text \<open>The register holds the remainder: what it adds to the rest of the message.\<close>

lemma gf2_rem_lfsr:
  assumes "length r = 7"
  shows "gf2_rem crc7_poly (map2 (\<noteq>) r (take 7 (bs @ replicate 7 False)) @ drop 7 (bs @ replicate 7 False)) =
    foldl lfsr r bs"
  using assms
proof (induction bs arbitrary: r)
  case Nil
  then show ?case by (elim seven) (simp add: gf2_rem.simps crc7_poly_def eval_nat_numeral)
next
  case (Cons b bs)
  obtain a6 a5 a4 a3 a2 a1 a0 where r: "r = [a6, a5, a4, a3, a2, a1, a0]" using Cons.prems by (rule seven)
  have "7 \<le> length (bs @ replicate 7 False)" by simp
  then obtain b6 b5 b4 b3 b2 b1 b0 rest where
    m: "bs @ replicate 7 False = b6 # b5 # b4 # b3 # b2 # b1 # b0 # rest"
    by (rule seven_more)
  have l: "lfsr r b = [a5, a4, a3, a2 \<noteq> (a6 \<noteq> b), a1, a0, a6 \<noteq> b]"
    by (auto simp: r lfsr_def crc7_poly_def)
  have "gf2_rem crc7_poly ((a6 \<noteq> b) # (a5 \<noteq> b6) # (a4 \<noteq> b5) # (a3 \<noteq> b4) # (a2 \<noteq> b3) # (a1 \<noteq> b2) #
      (a0 \<noteq> b1) # b0 # rest) = gf2_rem crc7_poly (map2 (\<noteq>) (lfsr r b) [b6, b5, b4, b3, b2, b1, b0] @ rest)"
    unfolding l by (subst gf2_rem.simps) (cases a6; cases b; simp add: crc7_poly_def)
  then show ?case
    using Cons.IH [of "lfsr r b"] Cons.prems unfolding foldl_Cons append_Cons m
    by (simp add: r)
qed

lemma gf2_rem_message: "gf2_rem crc7_poly (bs @ replicate 7 False) = foldl lfsr (replicate 7 False) bs"
proof -
  have "map2 (\<noteq>) (replicate 7 False) (take 7 xs) @ drop 7 xs = xs" if "7 \<le> length xs" for xs
    using that by (rule seven_more) (simp add: eval_nat_numeral)
  from this [of "bs @ replicate 7 False"] show ?thesis
    using gf2_rem_lfsr [of "replicate 7 False" bs] by (simp del: take_append drop_append)
qed

lemma low7_crc7_bit: "low7 (snd (crc7_bit (c, crc))) = lfsr (low7 crc) (bit c 7)"
proof -
  have "(x AND 0x80 \<noteq> 0) = bit x 7" for x :: u8
    using and_exp_eq_0_iff_not_bit [of x 7] by simp
  then have "((c XOR push_bit 1 crc) AND 0x80 \<noteq> 0) = (bit c 7 \<noteq> bit crc 6)"
    by (simp add: bit_simps del: push_bit_Suc)
  then have e: "snd (crc7_bit (c, crc)) =
      (if bit c 7 \<noteq> bit crc 6 then push_bit 1 crc XOR 0x09 else push_bit 1 crc)"
    by (simp add: crc7_bit_def Let_def del: push_bit_Suc)
  show ?thesis
    unfolding e
    by (cases "bit c 7 \<noteq> bit crc 6")
      (auto simp: low7_def lfsr_def crc7_poly_def bit_simps simp del: push_bit_Suc)
qed

lemma crc7_bit_pow:
  "n \<le> 8 \<Longrightarrow> fst ((crc7_bit ^^ n) (c, crc)) = push_bit n c \<and>
     low7 (snd ((crc7_bit ^^ n) (c, crc))) = foldl lfsr (low7 crc) (map (\<lambda>i. bit c (7 - i)) [0 ..< n])"
proof (induction n)
  case (Suc n)
  obtain c' crc' where p: "(crc7_bit ^^ n) (c, crc) = (c', crc')" by fastforce
  with Suc have c': "c' = push_bit n c" by simp
  have "bit c' 7 = bit c (7 - n)" using Suc.prems by (simp add: c' bit_simps)
  moreover have "fst (crc7_bit (c', crc')) = push_bit (Suc n) c"
    by (simp add: crc7_bit_def Let_def c' push_bit_push_bit del: push_bit_Suc)
  ultimately show ?case using Suc p by (simp add: low7_crc7_bit)
qed simp

lemma low7_mask: "low7 (w AND 0x7F) = low7 w"
  by (simp add: low7_def bit_simps)

lemma low7_crc7_byte: "low7 (crc7_byte crc c) = foldl lfsr (low7 crc) (byte_bits c)"
proof -
  have "map (\<lambda>i. bit c (7 - i)) [0 ..< 8] = byte_bits c"
    by (simp add: byte_bits_def upt_rec)
  then show ?thesis using crc7_bit_pow [of 8 c crc] by (simp add: crc7_byte_def low7_mask)
qed

lemma low7_crc7: "low7 (foldl crc7_byte crc bs) = foldl lfsr (low7 crc) (concat (map byte_bits bs))"
  by (induction bs arbitrary: crc) (simp_all add: low7_crc7_byte)

lemma byte_bits_crc: "byte_bits (push_bit 1 w OR 1) = low7 w @ [True]"
  by (simp add: byte_bits_def low7_def bit_simps del: push_bit_Suc)

lemma low7_0: "low7 0 = replicate 7 False"
  by (simp add: low7_def eval_nat_numeral)

lemma crc7_bits: "byte_bits (mmc_crc7 bs n) =
    foldl lfsr (replicate 7 False) (concat (map byte_bits (take (unat n) bs))) @ [True]"
  unfolding mmc_crc7_def byte_bits_crc low7_crc7 low7_0 ..

text \<open>
  C29: the CRC is the remainder of a polynomial division. For every message of whole bytes,
  the eight bits of the result are the seven coefficients of the remainder of the message,
  shifted by seven places, by \<open>x^7 + x^3 + 1\<close>, followed by the stop bit 1.
\<close>

theorem mmc_crc7_remainder:
  "byte_bits (mmc_crc7 bs n) =
     gf2_rem crc7_poly (concat (map byte_bits (take (unat n) bs)) @ replicate 7 False) @ [True]"
  by (simp only: gf2_rem_message crc7_bits)

lemma foldl_lfsr_flip:
  "length r = 7 \<Longrightarrow> b \<noteq> c \<Longrightarrow> foldl lfsr r (xs @ b # ys) \<noteq> foldl lfsr r (xs @ c # ys)"
  by (auto dest!: foldl_lfsr_inj [rotated 2] simp: lfsr_bit)

lemma byte_bits_flip:
  assumes "k < 8"
  shows "\<exists>xs b ys. byte_bits c = xs @ b # ys \<and> byte_bits (c XOR push_bit k 1) = xs @ (\<not> b) # ys"
proof -
  let ?f = "\<lambda>c. map (\<lambda>i. bit c (7 - i)) [0 ..< 8]"
  have f: "byte_bits c = ?f c" for c by (simp add: byte_bits_def upt_rec)
  have s: "[0 ..< 8] = [0 ..< 7 - k] @ (7 - k) # [Suc (7 - k) ..< 8]"
    using assms upt_add_eq_append [of 0 "7 - k" "Suc k"] by (simp add: upt_conv_Cons)
  show ?thesis
    unfolding f s using assms
    by (intro exI [of _ "map (\<lambda>i. bit c (7 - i)) [0 ..< 7 - k]"] exI [of _ "bit c k"]
        exI [of _ "map (\<lambda>i. bit c (7 - i)) [Suc (7 - k) ..< 8]"])
      (auto simp: bit_simps)
qed

text \<open>
  The CRC detects every single-bit error: changing one bit of the message changes it.
\<close>

theorem mmc_crc7_detects_flip:
  assumes "i < unat n" "unat n \<le> length bs" "k < 8"
  shows "mmc_crc7 (bs[i := bs ! i XOR push_bit k 1]) n \<noteq> mmc_crc7 bs n"
proof
  let ?l = "take i bs" and ?r = "take (unat n - Suc i) (drop (Suc i) bs)"
  have t: "take (unat n) (bs[i := c]) = ?l @ c # ?r" for c
    using assms by (simp add: upd_conv_take_nth_drop take_Cons' min_def)
  obtain xs b ys where c: "byte_bits (bs ! i) = xs @ b # ys"
    "byte_bits (bs ! i XOR push_bit k 1) = xs @ (\<not> b) # ys"
    using byte_bits_flip [OF assms(3)] by blast
  assume "mmc_crc7 (bs[i := bs ! i XOR push_bit k 1]) n = mmc_crc7 bs n"
  then have "foldl lfsr (replicate 7 False) (concat (map byte_bits (take (unat n) (bs[i := bs ! i XOR push_bit k 1])))) =
      foldl lfsr (replicate 7 False) (concat (map byte_bits (take (unat n) (bs[i := bs ! i]))))"
    using crc7_bits by (metis append1_eq_conv list_update_id)
  moreover have "concat (map byte_bits (?l @ (bs ! i XOR push_bit k 1) # ?r)) =
      (concat (map byte_bits ?l) @ xs) @ (\<not> b) # ys @ concat (map byte_bits ?r)"
    "concat (map byte_bits (?l @ bs ! i # ?r)) =
      (concat (map byte_bits ?l) @ xs) @ b # ys @ concat (map byte_bits ?r)"
    unfolding map_append list.map concat_append concat.simps c by simp_all
  ultimately show False
    using foldl_lfsr_flip [of "replicate 7 False" "\<not> b" b "concat (map byte_bits ?l) @ xs"
        "ys @ concat (map byte_bits ?r)"]
    unfolding t by simp
qed

theorem mmc_crc7_detects_flip_witness:
  "mmc_crc7 [0x48, 0, 0, 0x03, 0xAA] 5 \<noteq> mmc_crc7 [0x48, 0, 0, 0x01, 0xAA] 5"
proof -
  have "[0x48, 0, 0, 0x01, 0xAA :: u8][3 := [0x48, 0, 0, 0x01, 0xAA] ! 3 XOR push_bit 1 1] =
      [0x48, 0, 0, 0x03, 0xAA]" by simp
  then show ?thesis using mmc_crc7_detects_flip [of 3 5 "[0x48, 0, 0, 0x01, 0xAA]" 1] by simp
qed

end
