(* ===== verification/Mmc_Registers.thy ===== *)
theory Mmc_Registers
  imports Mmc_Codec
begin

text \<open>
  The registers of a card: after the swap of its words, \<open>UNSTUFF_BITS\<close> extracts the fields of
  the register as a 128-bit number, and the decoded sizes are those of the CSD.
\<close>

section \<open>Fields\<close>

text \<open>The first 16 bytes of a buffer as one number, the first byte the highest.\<close>

definition register :: "u8 list \<Rightarrow> 128 word" where
  "register bs = word_rcat (take 16 bs)"

definition field :: "u8 list \<Rightarrow> nat \<Rightarrow> nat \<Rightarrow> nat" where
  "field bs start sz = unat (register bs) div 2 ^ start mod 2 ^ sz"

lemma bit_word_rcat_bytes:
  "bit (word_rcat bs :: 'b::len word) n \<longleftrightarrow>
     n < LENGTH('b) \<and> n div 8 < length bs \<and> bit (rev bs ! (n div 8)) (n mod 8)"
  for bs :: "u8 list"
  using bit_horner_sum_uint_exp_iff [of "rev bs" n] by (simp add: word_rcat_def bit_simps)

lemma bit_register:
  assumes "16 \<le> length bs" "n < 128"
  shows "bit (register bs) n = bit (bs ! (15 - n div 8)) (n mod 8)"
proof -
  have "n div 8 < 16" using assms(2) by simp
  then show ?thesis
    using assms by (simp add: register_def bit_word_rcat_bytes rev_nth min_def)
qed

lemma swap_words_list:
  "p + 4 \<le> length bs \<Longrightarrow> swap_words p bs =
     take p bs @ [bs ! (p + 3), bs ! (p + 2), bs ! (p + 1), bs ! p] @ drop (p + 4) bs"
  by (rule nth_equalityI)
    (auto simp: swap_words_def Let_def nth_append nth_list_update nth_Cons' less_Suc_eq)

lemma length_swap_words [simp]: "length (swap_words p bs) = length bs"
  by (simp add: swap_words_def Let_def)

lemma word_at_swap:
  assumes "length bs = 20" "i < 4"
  shows "word_at (swap_all bs) i = word_rcat [bs ! (4 * i), bs ! (4 * i + 1), bs ! (4 * i + 2), bs ! (4 * i + 3)]"
proof -
  have "i \<in> {0, 1, 2, 3}" using assms(2) by auto
  then show ?thesis
    using assms(1)
    by (auto simp: swap_all_def word_at_def swap_words_list nth_append numeral_2_eq_2 numeral_3_eq_3 upt_rec)
qed

lemma bit_word_at_swap:
  assumes "length bs = 20" "i < 4" "n < 32"
  shows "bit (word_at (swap_all bs) i) n = bit (bs ! (4 * i + 3 - n div 8)) (n mod 8)"
proof -
  have "n div 8 < 4" using assms(3) by simp
  then have "n div 8 \<in> {0, 1, 2, 3}" by auto
  then show ?thesis
    using assms by (auto simp: word_at_swap bit_word_rcat_bytes)
qed

lemma bit_words_of:
  assumes "length bs = 20" "n < 128"
  shows "bit (words_of (swap_all bs) ! (3 - n div 32)) (n mod 32) = bit (register bs) n"
proof -
  have q: "n div 32 < 4" using assms(2) by simp
  have e: "4 * (3 - n div 32) + 3 - n mod 32 div 8 = 15 - n div 8"
  proof -
    have "n div 8 = (n mod 32 + 4 * (n div 32) * 8) div 8" by simp
    also have "\<dots> = 4 * (n div 32) + n mod 32 div 8" by (rule div_mult_self1) simp
    finally have "n div 8 = 4 * (n div 32) + n mod 32 div 8" .
    moreover have "n mod 32 div 8 < 4" by (simp add: div_less_iff_less_mult)
    ultimately show ?thesis using q by linarith
  qed
  have "3 - n div 32 < 4" "n mod 32 mod 8 = n mod 8" using q by (auto simp: mod_mod_cancel)
  then show ?thesis
    using assms e by (simp add: words_of_def bit_word_at_swap bit_register)
qed

lemma div_mod_block: "a < 32 \<Longrightarrow> (a + 32 * q) div 32 = q \<and> (a + 32 * q) mod 32 = (a :: nat)"
  by simp

lemma UNSTUFF_BITS_field:
  assumes "length bs = 20" "0 < sz" "sz \<le> 32" "start + sz \<le> 128"
  shows "UNSTUFF_BITS (words_of (swap_all bs)) start sz =
    ucast (take_bit sz (drop_bit start (register bs)))"
proof (rule bit_word_eqI)
  fix j assume "j < LENGTH(32)"
  then have j: "j < 32" by simp
  let ?W = "words_of (swap_all bs)" and ?q = "start div 32" and ?r = "start mod 32"
  have and31: "start AND 31 = ?r"
    using take_bit_eq_mask [of 5 start] by (simp add: take_bit_eq_mod mask_eq_exp_minus_1)
  have mask: "bit ((if sz < 32 then push_bit sz 1 else 0) - 1 :: u32) j = (j < sz)"
  proof -
    have "((if sz < 32 then push_bit sz 1 else 0) - 1 :: u32) = mask sz"
      using assms(3) by (auto simp: mask_eq_exp_minus_1 push_bit_eq_mult le_less)
    then show ?thesis using j by (simp add: bit_mask_iff)
  qed
  show "bit (UNSTUFF_BITS ?W start sz) j = bit (ucast (take_bit sz (drop_bit start (register bs))) :: u32) j"
  proof (cases "j < sz")
    case False
    then show ?thesis using mask by (simp add: UNSTUFF_BITS_def Let_def bit_simps)
  next
    case True
    have n: "start + j < 128" using True assms(4) by simp
    have rhs: "bit (ucast (take_bit sz (drop_bit start (register bs))) :: u32) j = bit (register bs) (start + j)"
      using True j by (simp add: bit_simps)
    have s: "start = 32 * ?q + ?r" by simp
    show ?thesis
    proof (cases "?r + j < 32")
      case lo: True
      have d: "(start + j) div 32 = ?q" "(start + j) mod 32 = ?r + j"
        using lo div_mod_block [of "?r + j" ?q] s by (simp_all add: ac_simps)
      have b: "bit (drop_bit ?r (?W ! (3 - ?q))) j = bit (?W ! (3 - ?q)) (?r + j)"
        by (simp add: bit_drop_bit_eq)
      have "bit (UNSTUFF_BITS ?W start sz) j = bit (?W ! (3 - ?q)) (?r + j)"
      proof (cases "32 < sz + ?r")
        case over: True
        then have "(32 - ?r) mod 32 = 32 - ?r" using assms(3) by simp
        moreover have "\<not> 32 - ?r \<le> j" using lo by linarith
        ultimately have "\<not> bit (push_bit ((32 - ?r) mod 32) (?W ! (3 - ?q - 1))) j"
          by (simp only: bit_push_bit_iff) blast
        then show ?thesis
          unfolding UNSTUFF_BITS_def Let_def and31 bit_and_iff if_P [OF over] bit_or_iff mask b
          using True by simp
      next
        case False
        then show ?thesis
          unfolding UNSTUFF_BITS_def Let_def and31 bit_and_iff if_not_P [OF False] mask b
          using True by simp
      qed
      then show ?thesis using bit_words_of [OF assms(1) n] rhs by (simp add: d)
    next
      case hi: False
      have d: "(start + j) div 32 = Suc ?q" "(start + j) mod 32 = j - (32 - ?r)"
        using hi j div_mod_block [of "j - (32 - ?r)" "Suc ?q"] s by (simp_all add: ac_simps)
      have r: "32 < sz + ?r" "0 < ?r" using hi True j by auto
      then have sh: "(32 - ?r) mod 32 = 32 - ?r" by simp
      have "\<not> bit (drop_bit ?r (?W ! (3 - ?q))) j"
        using hi by (auto simp: bit_drop_bit_eq dest: bit_imp_le_length)
      moreover have "bit (push_bit (32 - ?r) (?W ! (3 - ?q - 1))) j = bit (?W ! (3 - Suc ?q)) (j - (32 - ?r))"
      proof -
        have "32 - ?r \<le> j" using hi by linarith
        then show ?thesis using j by (simp add: bit_push_bit_iff)
      qed
      ultimately have "bit (UNSTUFF_BITS ?W start sz) j = bit (?W ! (3 - Suc ?q)) (j - (32 - ?r))"
        unfolding UNSTUFF_BITS_def Let_def and31 bit_and_iff if_P [OF r(1)] bit_or_iff mask sh
        using True by simp
      then show ?thesis using bit_words_of [OF assms(1) n] rhs by (simp add: d)
    qed
  qed
qed

lemma unat_UNSTUFF_BITS:
  assumes "length bs = 20" "0 < sz" "sz \<le> 32" "start + sz \<le> 128"
  shows "unat (UNSTUFF_BITS (words_of (swap_all bs)) start sz) = field bs start sz"
proof -
  have "unat (UNSTUFF_BITS (words_of (swap_all bs)) start sz) = unat (take_bit sz (drop_bit start (register bs)))"
    unfolding UNSTUFF_BITS_field [OF assms]
    using assms(3) by (simp add: unsigned_ucast_eq unsigned_take_bit_eq min_def)
  also have "\<dots> = take_bit sz (unat (drop_bit start (register bs)))"
    by (rule unsigned_take_bit_eq)
  also have "unat (drop_bit start (register bs)) = drop_bit start (unat (register bs))"
    by (rule unat_drop_bit_eq)
  also have "take_bit sz (drop_bit start (unat (register bs))) = field bs start sz"
    by (simp add: field_def take_bit_eq_mod drop_bit_eq_div)
  finally show ?thesis .
qed


section \<open>Properties\<close>

text \<open>
  C30: the fields of a register. A register of 16 bytes arrives with its highest byte first.
  After the swap of its four words, \<open>UNSTUFF_BITS\<close> with a start and a size yields the bits of
  the register, as a 128-bit number, from that start on, also where a field spans two words.
\<close>

theorem UNSTUFF_BITS_extracts:
  assumes "length bs = 20" "0 < sz" "sz \<le> 32" "start + sz \<le> 128"
  shows "unat (UNSTUFF_BITS (words_of (swap_all bs)) start sz) =
    unat (register bs) div 2 ^ start mod 2 ^ sz"
  using unat_UNSTUFF_BITS [OF assms] by (simp add: field_def)

text \<open>A CSD: the example of a 1 GB card, with two bytes of CRC and two not written.\<close>

definition demo_csd :: "u8 list" where
  "demo_csd = [0x00, 0x26, 0x00, 0x32, 0x5B, 0x5A, 0x83, 0xD5, 0x7E, 0xFB, 0xFF, 0x80, 0x16, 0x80,
     0x00, 0xB1, 0x12, 0x34, 0xEE, 0xEE]"

theorem UNSTUFF_BITS_extracts_witness:
  "unat (UNSTUFF_BITS (words_of (swap_all demo_csd)) 62 12) = unat (register demo_csd) div 2 ^ 62 mod 2 ^ 12"
  by (rule UNSTUFF_BITS_extracts) (simp_all add: demo_csd_def)

text \<open>The capacity a CSD of version 1 declares, in bytes.\<close>

definition csd1_capacity :: "u8 list \<Rightarrow> nat" where
  "csd1_capacity bs = (field bs 62 12 + 1) * 2 ^ (field bs 47 3 + 2) * 2 ^ field bs 80 4"

lemma field_less: "field bs start sz < 2 ^ sz"
  by (simp add: field_def)

lemma unat_ucast_field:
  assumes "length bs = 20" "0 < sz" "sz \<le> 8" "start + sz \<le> 128"
  shows "unat (ucast (UNSTUFF_BITS (words_of (swap_all bs)) start sz) :: u8) = field bs start sz"
proof -
  have "field bs start sz < 2 ^ 8"
    using field_less [of bs start sz] power_increasing [OF assms(3), of "2 :: nat"] by simp
  then show ?thesis
    using unat_UNSTUFF_BITS [OF assms(1,2) _ assms(4)] assms(3)
    by (simp add: unsigned_ucast_eq take_bit_nat_eq_self)
qed

lemma unat_push_bit_1: "n < 32 \<Longrightarrow> unat (push_bit n 1 :: u32) = 2 ^ n"
proof -
  assume "n < 32"
  then have "take_bit 32 (2 ^ n :: nat) = 2 ^ n"
    using power_strict_increasing [of n 32 "2 :: nat"] by (intro take_bit_nat_eq_self) simp
  then have "unat (of_nat (2 ^ n) :: u32) = 2 ^ n"
    by (subst unsigned_of_nat) simp
  then show ?thesis by (simp add: push_bit_eq_mult)
qed

lemma csd_fields:
  assumes "length bs = 20"
  shows "unat (read_bl_len (csd (csd_common (words_of (swap_all bs)) i))) = field bs 80 4"
    "unat (read_block_size (csd_common (words_of (swap_all bs)) i)) = 2 ^ field bs 80 4"
    "unat (write_block_size (csd_common (words_of (swap_all bs)) i)) = 2 ^ field bs 22 4"
    "unat (c_structure (csd (csd_common (words_of (swap_all bs)) i))) = field bs 126 2"
  using assms field_less [of bs 80 4] field_less [of bs 22 4]
  by (simp_all add: Let_def unat_ucast_field unat_push_bit_1 [simplified push_bit_eq_mult mult_1])

text \<open>
  The size of a card with a CSD of version 1. The block sizes are the powers of two the
  CSD gives, and the size is the capacity in MiB, but computed in 32 bits: the capacity is
  taken modulo \<open>2 ^ 32\<close>, so it is right below 4 GiB and a card of 4 GiB has size 0.
\<close>

theorem csd1_size_in_32_bits:
  assumes "length bs = 20" "field bs 126 2 = 0"
  shows "\<exists>i'. sd_decode_csd (words_of (swap_all bs)) i = (MMC_OK, i') \<and>
    unat (read_block_size i') = 2 ^ field bs 80 4 \<and> unat (write_block_size i') = 2 ^ field bs 22 4 \<and>
    unat (mem_size i') = csd1_capacity bs mod 2 ^ 32 div 2 ^ 20"
proof -
  let ?b = "words_of (swap_all bs)"
  let ?c = "csd_common ?b i"
  have z: "c_structure (csd ?c) = 0"
    using csd_fields(4) [OF assms(1), of i] assms(2) by (simp add: unat_eq_zero)
  have cs: "unat (UNSTUFF_BITS ?b 62 12) = field bs 62 12" "unat (ucast (UNSTUFF_BITS ?b 47 3) :: u8) = field bs 47 3"
    using assms(1) by (simp_all add: unat_UNSTUFF_BITS unat_ucast_field)
  have m: "unat (push_bit (field bs 47 3 + 2) 1 :: u32) = 2 ^ (field bs 47 3 + 2)"
    using field_less [of bs 47 3] by (intro unat_push_bit_1) simp
  let ?blocks = "(UNSTUFF_BITS ?b 62 12 + 1) * push_bit (field bs 47 3 + 2) 1"
  have "unat (?blocks * read_block_size ?c) =
      ((field bs 62 12 + 1) * 2 ^ (field bs 47 3 + 2) * 2 ^ field bs 80 4) mod 2 ^ 32"
    unfolding unat_word_ariths m cs(1) csd_fields(2) [OF assms(1)] by (simp add: mod_simps)
  then have "unat (?blocks * read_block_size ?c div 1024 div 1024) = csd1_capacity bs mod 2 ^ 32 div 2 ^ 20"
    by (simp add: unat_div_distrib csd1_capacity_def div_mult2_eq [symmetric])
  moreover have "sd_decode_csd ?b i = (MMC_OK, csd_size1 ?b ?c)"
    using z by (simp only: sd_decode_csd_def Let_def) simp
  ultimately show ?thesis
    using csd_fields(2,3) [OF assms(1), of i] cs(2) by (simp add: Let_def)
qed

theorem csd1_size_in_32_bits_witness:
  "\<forall>i. \<exists>i'. sd_decode_csd (words_of (swap_all demo_csd)) i = (MMC_OK, i') \<and>
    unat (read_block_size i') = 2 ^ field demo_csd 80 4 \<and> unat (write_block_size i') = 2 ^ field demo_csd 22 4 \<and>
    unat (mem_size i') = csd1_capacity demo_csd mod 2 ^ 32 div 2 ^ 20"
proof (rule allI, rule csd1_size_in_32_bits)
  have "UNSTUFF_BITS (words_of (swap_all demo_csd)) 126 2 = 0" by code_simp
  then show "field demo_csd 126 2 = 0"
    using unat_UNSTUFF_BITS [of demo_csd 2 126] by (simp add: demo_csd_def)
qed (simp add: demo_csd_def)

end
