(* ===== verification/Spi_Usic.thy ===== *)
theory Spi_Usic
  imports Device_Data
begin

text \<open>
  The SPI driver of src/src/dev/spi/ifx_usic.c and the request codes of spi.h.
\<close>

section \<open>The driver\<close>

definition SPI_IOCTL_ENABLE_SLAVE :: u8 where
  "SPI_IOCTL_ENABLE_SLAVE = 0"

definition SPI_IOCTL_DISABLE_SLAVE :: u8 where
  "SPI_IOCTL_DISABLE_SLAVE = 1"

definition usic_spi_enable_slave :: "'s xmc \<Rightarrow> cint \<Rightarrow> 's \<Rightarrow> cint \<times> 's" where
  "usic_spi_enable_slave hw slave s =
     (0, xmc_run hw [XMC_SPI_CH_EnableSlaveSelect XMC_SPI0_CH0 slave, XMC_GPIO_SetOutputLow (0, 9)] s)"

definition usic_spi_disable_slave :: "'s xmc \<Rightarrow> 's \<Rightarrow> cint \<times> 's" where
  "usic_spi_disable_slave hw s =
     (0, xmc_run hw [XMC_SPI_CH_DisableSlaveSelect XMC_SPI0_CH0, XMC_GPIO_SetOutputHigh (0, 9)] s)"

definition spi_shifting :: "'s xmc \<Rightarrow> 's \<Rightarrow> bool \<times> 's" where
  "spi_shifting hw s = (case xmc_get hw (XMC_SPI_CH_GetStatusFlag XMC_SPI0_CH0) s of
     (r, s') \<Rightarrow> (r AND xmc_value hw XMC_SPI_CH_STATUS_FLAG_TRANSMIT_SHIFT_INDICATION = 0, s'))"

definition usic_spi_send :: "'s xmc \<Rightarrow> u8 \<Rightarrow> 's \<Rightarrow> 's option" where
  "usic_spi_send hw uwData s = do {
     s' \<leftarrow> spin (spi_shifting hw)
            (xmc_do hw (XMC_SPI_CH_Transmit XMC_SPI0_CH0 (ucast uwData) XMC_SPI_CH_MODE_STANDARD) s);
     Some (xmc_do hw (XMC_SPI_CH_ClearStatusFlag XMC_SPI0_CH0
            (xmc_value hw XMC_SPI_CH_STATUS_FLAG_TRANSMIT_SHIFT_INDICATION)) s')
   }"

definition usic_spi_recv :: "'s xmc \<Rightarrow> 's \<Rightarrow> u8 \<times> 's" where
  "usic_spi_recv hw s =
     (let (r, s') = xmc_get hw (XMC_SPI_CH_GetReceivedData XMC_SPI0_CH0)
            (xmc_do hw (XMC_SPI_CH_Receive XMC_SPI0_CH0 XMC_SPI_CH_MODE_STANDARD) s)
      in (ucast r, s'))"

definition usic_spi_open :: "'s xmc \<Rightarrow> node \<Rightarrow> 's \<Rightarrow> (cint \<times> node \<times> 's) option" where
  "usic_spi_open hw v s =
     (let cfg = \<lparr>spi_baudrate = 50000, spi_bus_mode = XMC_SPI_CH_BUS_MODE_MASTER,
                 spi_selo_inversion = XMC_SPI_CH_SLAVE_SEL_INV_TO_MSLS,
                 spi_parity_mode = XMC_USIC_CH_PARITY_MODE_NONE\<rparr>
      in Some (0, v\<lparr>data := Spi_config cfg\<rparr>, xmc_run hw
           [XMC_SPI_CH_Init XMC_SPI0_CH0 cfg,
            XMC_SPI_CH_ConfigureShiftClockOutput XMC_SPI0_CH0
              XMC_SPI_CH_BRG_SHIFT_CLOCK_PASSIVE_LEVEL_0_DELAY_ENABLED
              XMC_SPI_CH_BRG_SHIFT_CLOCK_OUTPUT_SCLK,
            XMC_SPI_CH_SetFrameLength XMC_SPI0_CH0 64,
            XMC_SPI_CH_SetWordLength XMC_SPI0_CH0 8,
            XMC_SPI_CH_SetBitOrderMsbFirst XMC_SPI0_CH0,
            XMC_SPI_CH_SetInputSource XMC_SPI0_CH0 XMC_SPI_CH_INPUT_DIN0 USIC0_C0_DX0_P2_0,
            XMC_SPI_CH_Start XMC_SPI0_CH0,
            XMC_SPI_CH_EnableMasterClock XMC_SPI0_CH0,
            XMC_GPIO_Init (2, 0) XMC_GPIO_MODE_INPUT_TRISTATE,
            XMC_GPIO_Init (0, 15) XMC_GPIO_MODE_OUTPUT_PUSH_PULL_ALT6,
            XMC_GPIO_Init (0, 9) XMC_GPIO_MODE_OUTPUT_PUSH_PULL,
            XMC_GPIO_Init (0, 8) XMC_GPIO_MODE_OUTPUT_PUSH_PULL_ALT6] s))"

definition usic_spi_close :: "'s xmc \<Rightarrow> node \<Rightarrow> 's \<Rightarrow> (cint \<times> node \<times> 's) option" where
  "usic_spi_close hw v s = Some (0, v, xmc_run hw [XMC_SPI_CH_Stop XMC_SPI0_CH0] s)"

definition usic_spi_write :: "'s xmc \<Rightarrow> node \<Rightarrow> uio \<Rightarrow> 's \<Rightarrow> (cint \<times> node \<times> uio \<times> 's) option" where
  "usic_spi_write hw v u s = do {
     (u', s') \<leftarrow> write_loop (usic_spi_send hw) (iov_base (uio_iov u)) u s;
     Some (0, v, u', s')
   }"

definition usic_spi_read :: "'s xmc \<Rightarrow> node \<Rightarrow> uio \<Rightarrow> 's \<Rightarrow> (cint \<times> node \<times> uio \<times> 's) option" where
  "usic_spi_read hw v u s = do {
     (u', s') \<leftarrow> read_loop (\<lambda>_ s. Some (usic_spi_recv hw s)) (iov_base (uio_iov u)) u s;
     Some (0, v, u', s')
   }"

text \<open>Selecting a slave reads its number through the data pointer.\<close>

definition usic_spi_ioctl ::
    "'s xmc \<Rightarrow> node \<Rightarrow> u8 \<Rightarrow> ioctl_data \<Rightarrow> 's \<Rightarrow> (cint \<times> node \<times> ioctl_data \<times> 's) option" where
  "usic_spi_ioctl hw v code d s =
     (if code = SPI_IOCTL_ENABLE_SLAVE then
        (case d of
           Int_data slave \<Rightarrow> (let (r, s') = usic_spi_enable_slave hw slave s in Some (r, v, d, s'))
         | _ \<Rightarrow> None)
      else if code = SPI_IOCTL_DISABLE_SLAVE then
        (let (r, s') = usic_spi_disable_slave hw s in Some (r, v, d, s'))
      else Some (0, v, d, s))"

definition spi :: "'s xmc \<Rightarrow> (node_data, 's) dev_ops" where
  "spi hw =
     \<lparr>d_open = usic_spi_open hw, d_close = usic_spi_close hw,
      d_read = usic_spi_read hw, d_write = usic_spi_write hw, d_ioctl = usic_spi_ioctl hw\<rparr>"

section \<open>The driver keeps the contract\<close>

definition spi_fetch :: "'s xmc \<Rightarrow> node \<Rightarrow> nat \<Rightarrow> 's \<Rightarrow> (u8 list \<times> 's) option" where
  "spi_fetch hw v n s = recv_all (\<lambda>_ s. Some (usic_spi_recv hw s)) n s"

definition spi_emit :: "'s xmc \<Rightarrow> node \<Rightarrow> u8 list \<Rightarrow> 's \<Rightarrow> 's option" where
  "spi_emit hw v bs s = send_all (usic_spi_send hw) bs s"

interpretation spi_stream: stream_device "usic_spi_read hw" "usic_spi_write hw"
    "spi_fetch hw" "spi_emit hw"
proof
  fix u :: uio and v s
  assume u: "uio_in_bounds u"
  show "usic_spi_write hw v u s =
      map_option (\<lambda>s'. (0, v, u\<lparr>uio_resid := 0\<rparr>, s')) (spi_emit hw v (uio_bytes u) s)"
    using u write_loop_spec [of u "iov_base (uio_iov u)" "usic_spi_send hw" s]
    by (cases "spi_emit hw v (uio_bytes u) s")
      (simp_all add: usic_spi_write_def spi_emit_def uio_in_bounds_def uio_bytes_def)
  show "usic_spi_read hw v u s =
      map_option (\<lambda>(bs, s'). (0, v, uio_done bs u, s')) (spi_fetch hw v (unat (uio_resid u)) s)"
    using u read_loop_spec [of u "iov_base (uio_iov u)" "\<lambda>_ s. Some (usic_spi_recv hw s)" s]
    by (cases "spi_fetch hw v (unat (uio_resid u)) s")
      (auto simp: usic_spi_read_def spi_fetch_def uio_in_bounds_def uio_done_def)
next
  fix v n s bs s'
  show "spi_fetch hw v n s = Some (bs, s') \<Longrightarrow> length bs = n"
    by (simp add: spi_fetch_def recv_all_length)
qed

end
