(* ===== verification/System_State.thy ===== *)
theory System_State
  imports Device_Data Heap_Sbrk
begin

text \<open>
  The state the drivers that use other drivers run on: the hardware, the nodes that are
  global variables (kernel.c; \<open>spi_node\<close> is only declared, in mmc_spi.c) and \<open>errno\<close>. A library
  \<open>hw\<close> over the hardware is one over this state.
\<close>

record 'h sys =
  sys_hw :: 'h
  uart_node :: node
  i2c_node :: node
  rtc_node :: node
  spi_node :: node
  sys_errno :: errno_e

definition sys_xmc :: "'h xmc \<Rightarrow> 'h sys xmc" where
  "sys_xmc hw =
     \<lparr>xmc_do = (\<lambda>c s. s\<lparr>sys_hw := xmc_do hw c (sys_hw s)\<rparr>),
      xmc_get = (\<lambda>q s. let (r, h) = xmc_get hw q (sys_hw s) in (r, s\<lparr>sys_hw := h\<rparr>)),
      xmc_value = xmc_value hw\<rparr>"

lemma sys_xmc_log: "xmc_log hw log \<Longrightarrow> xmc_log (sys_xmc hw) (log \<circ> sys_hw)"
  by (auto simp: xmc_log_def sys_xmc_def split: prod.splits) (metis snd_conv)

text \<open>A wait for the hardware, on this state.\<close>

lemma settles_sys:
  assumes "settles busy h h'" "\<And>s. busy' s = (let (b, h) = busy (sys_hw s) in (b, s\<lparr>sys_hw := h\<rparr>))"
  shows "settles busy' (s\<lparr>sys_hw := h\<rparr>) (s\<lparr>sys_hw := h'\<rparr>)"
  using assms(1)
proof (induction rule: settles.induct)
  case (settles_now h h')
  then show ?case by (intro settles.settles_now) (simp add: assms(2))
next
  case (settles_later h h1 h')
  then have "busy' (s\<lparr>sys_hw := h\<rparr>) = (True, s\<lparr>sys_hw := h1\<rparr>)" by (simp add: assms(2))
  then show ?case using settles_later.IH by (rule settles.settles_later)
qed

end
