(* ===== verification/System_Console.thy ===== *)
theory System_Console
  imports System_State Console_Calls
begin

text \<open>
  \<open>printf\<close> on the system state, for the code outside the C library that calls it.
\<close>

section \<open>Local variables without a value\<close>

text \<open>
  The arrays of the functions are not initialised: \<open>l_bytes\<close> gives their bytes; \<open>l_bf\<close> is the
  buffer of \<open>cnprintf\<close> and \<open>l_vnode\<close> the node of \<open>sys_write\<close>.
\<close>

record locals =
  l_bytes :: "nat \<Rightarrow> u8"
  l_bf :: "u8 list"
  l_vnode :: node

definition l_array :: "locals \<Rightarrow> nat \<Rightarrow> u8 list" where
  "l_array l n = map (l_bytes l) [0 ..< n]"

definition line :: "string \<Rightarrow> u8 list" where
  "line str = map of_char str @ [0x0A, 0]"

definition printf_sys ::
    "(node_data, 'h sys) dev_table \<Rightarrow> locals \<Rightarrow> u8 list \<Rightarrow> va list \<Rightarrow> 'h sys \<Rightarrow> 'h sys option" where
  "printf_sys devices l fmt va s = do {
     (_, e, s') \<leftarrow> printf devices (l_vnode l) (l_bf l) fmt va (sys_errno s, s);
     Some (s'\<lparr>sys_errno := e\<rparr>)
   }"

end
