(* ===== verification/Mmc_Spi.thy ===== *)
theory Mmc_Spi
  imports Mmc_Registers Spi_Usic System_Console
begin

text \<open>
  The memory card driver of src/src/dev/mmc/mmc_spi.c, with the constants of mmc.h. It talks to
  the card through \<open>spi_node\<close> and reports with \<open>printf\<close>. The table \<open>devices\<close> it calls
  through is an argument.
\<close>

section \<open>Constants\<close>

definition TIMEOUT :: nat where "TIMEOUT = 128"
definition MAX_BLOCK_LENGTH :: nat where "MAX_BLOCK_LENGTH = 512"

definition MMC_CMD :: "u8 \<Rightarrow> u8" where "MMC_CMD a = 0x40 OR a"

definition MMC_CMD01 :: u8 where "MMC_CMD01 = MMC_CMD 1"
definition MMC_CMD08 :: u8 where "MMC_CMD08 = MMC_CMD 8"
definition MMC_CMD09 :: u8 where "MMC_CMD09 = MMC_CMD 9"
definition MMC_CMD10 :: u8 where "MMC_CMD10 = MMC_CMD 10"
definition MMC_CMD17 :: u8 where "MMC_CMD17 = MMC_CMD 17"
definition MMC_CMD24 :: u8 where "MMC_CMD24 = MMC_CMD 24"
definition MMC_CMD41 :: u8 where "MMC_CMD41 = MMC_CMD 41"
definition MMC_CMD58 :: u8 where "MMC_CMD58 = MMC_CMD 58"

definition MMC_VOLTAGE_27_36 :: u32 where "MMC_VOLTAGE_27_36 = push_bit 8 1"
definition MMC_OCR_VOLTAGE_30_31 :: u32 where "MMC_OCR_VOLTAGE_30_31 = push_bit 18 1"
definition MMC_OCR_HCS :: u32 where "MMC_OCR_HCS = push_bit 30 1"

definition STATUS_ILLEGAL_CMD :: u8 where "STATUS_ILLEGAL_CMD = 4"

definition MMC_DISABLED :: u8 where "MMC_DISABLED = 1"
definition MMC_V1 :: u8 where "MMC_V1 = 2"
definition MMC_V2 :: u8 where "MMC_V2 = 4"
definition SD_SDHC :: u8 where "SD_SDHC = 8"

section \<open>Commands\<close>

definition mmc_send :: "(node_data, 'h sys) dev_table \<Rightarrow> u8 list \<Rightarrow> u32 \<Rightarrow> 'h sys \<Rightarrow> 'h sys option" where
  "mmc_send devices buf n s = do {
     (_, v, s') \<leftarrow> dev_write devices buf n (spi_node s) s;
     Some (s'\<lparr>spi_node := v\<rparr>)
   }"

text \<open>The four bytes of the argument; an assignment to \<open>uint8_t\<close> keeps the low byte.\<close>

definition arg_byte :: "u32 \<Rightarrow> nat \<Rightarrow> u8" where
  "arg_byte arg i = ucast (drop_bit (i * 8) (arg AND push_bit (i * 8) 0xFF))"

definition mmc_send_cmd ::
    "(node_data, 'h sys) dev_table \<Rightarrow> u8 \<Rightarrow> u32 \<Rightarrow> 'h sys \<Rightarrow> 'h sys option" where
  "mmc_send_cmd devices cmd arg s =
     (let frame = [cmd, arg_byte arg 3, arg_byte arg 2, arg_byte arg 1, arg_byte arg 0]
      in mmc_send devices (0xFF # frame @ [mmc_crc7 frame 5]) 7 s)"

definition mmc_send_acmd ::
    "(node_data, 'h sys) dev_table \<Rightarrow> u8 \<Rightarrow> u32 \<Rightarrow> 'h sys \<Rightarrow> 'h sys option" where
  "mmc_send_acmd devices cmd arg s = do {
     let array = [0xFF, 0x77, 0, 0, 0, 0, 0x01];
     s1 \<leftarrow> mmc_send devices array 7 s;
     let array = [0xFF, 0xFF, 0xFF, 0xFF] @ drop 4 array;
     s2 \<leftarrow> mmc_send devices array 4 s1;
     let frame = [cmd, arg_byte arg 3, arg_byte arg 2, arg_byte arg 1, arg_byte arg 0];
     let array = frame @ [mmc_crc7 frame 5] @ drop 6 array;
     mmc_send devices array 6 s2
   }"

section \<open>Answers\<close>

definition mmc_read_byte ::
    "(node_data, 'h sys) dev_table \<Rightarrow> locals \<Rightarrow> 'h sys \<Rightarrow> (u8 \<times> 'h sys) option" where
  "mmc_read_byte devices l s = do {
     (_, buf, v, s') \<leftarrow> dev_read devices (l_array l 1) 1 (spi_node s) s;
     Some (hd buf, s'\<lparr>spi_node := v\<rparr>)
   }"

partial_function (option) mmc_spi_wait_unbusy ::
    "(node_data, 'h sys) dev_table \<Rightarrow> locals \<Rightarrow> 'h sys \<Rightarrow> (u8 \<times> 'h sys) option" where
  "mmc_spi_wait_unbusy devices l s =
     Option.bind (mmc_read_byte devices l s) (\<lambda>(status, s').
       if status = 0xFF then mmc_spi_wait_unbusy devices l s' else Some (status, s'))"

partial_function (option) mmc_spi_read_status ::
    "(node_data, 'h sys) dev_table \<Rightarrow> locals \<Rightarrow> 'h sys \<Rightarrow> (u8 \<times> 'h sys) option" where
  "mmc_spi_read_status devices l s =
     Option.bind (mmc_read_byte devices l s) (\<lambda>(status, s').
       if status = 0xFF then mmc_spi_read_status devices l s' else Some (status, s'))"

partial_function (option) mmc_spi_wait_start_block ::
    "(node_data, 'h sys) dev_table \<Rightarrow> locals \<Rightarrow> u8 \<Rightarrow> 'h sys \<Rightarrow> (cint \<times> 'h sys) option" where
  "mmc_spi_wait_start_block devices l ignore_status s =
     Option.bind (mmc_read_byte devices l s) (\<lambda>(status, s').
       if status AND 0xF0 = 0 \<and> ignore_status = 0 then Some (MMC_ERROR, s')
       else if status \<noteq> 0xFE then mmc_spi_wait_start_block devices l ignore_status s'
       else Some (MMC_OK, s'))"

declare mmc_spi_wait_unbusy.simps [code] mmc_spi_read_status.simps [code]
  mmc_spi_wait_start_block.simps [code]

text \<open>\<open>buf\<close> has at least one byte; the rest of the array is \<open>buf+1\<close>.\<close>

definition mmc_read ::
    "(node_data, 'h sys) dev_table \<Rightarrow> locals \<Rightarrow> u8 list \<Rightarrow> u32 \<Rightarrow> 'h sys \<Rightarrow> (u8 list \<times> 'h sys) option" where
  "mmc_read devices l buf n s = do {
     (b, s1) \<leftarrow> mmc_spi_wait_unbusy devices l s;
     (_, rest, v, s2) \<leftarrow> dev_read devices (tl buf) (n - 1) (spi_node s1) s1;
     Some (b # rest, s2\<lparr>spi_node := v\<rparr>)
   }"

section \<open>Sectors\<close>

definition mmc_read_sector ::
    "(node_data, 'h sys) dev_table \<Rightarrow> locals \<Rightarrow> mmc_info \<Rightarrow> u8 list \<Rightarrow> cint \<Rightarrow> 'h sys
      \<Rightarrow> (cint \<times> u8 list \<times> 'h sys) option" where
  "mmc_read_sector devices l i buf sector s = do {
     s1 \<leftarrow> mmc_send_cmd devices MMC_CMD17 (sector * read_block_size i) s;
     (status, s2) \<leftarrow> mmc_spi_read_status devices l s1;
     if status \<noteq> 0 then Some (MMC_ERROR, buf, s2)
     else do {
       (r, s3) \<leftarrow> mmc_spi_wait_start_block devices l 0 s2;
       if r = MMC_ERROR then Some (MMC_ERROR, buf, s3)
       else do {
         (buf', s4) \<leftarrow> mmc_read devices l buf (read_block_size i) s3;
         Some (MMC_OK, buf', s4)
       }
     }
   }"

definition mmc_write_sector ::
    "(node_data, 'h sys) dev_table \<Rightarrow> locals \<Rightarrow> mmc_info \<Rightarrow> u8 list \<Rightarrow> cint \<Rightarrow> 'h sys
      \<Rightarrow> (cint \<times> 'h sys) option" where
  "mmc_write_sector devices l i buf sector s = do {
     s1 \<leftarrow> mmc_send_cmd devices MMC_CMD24 (sector * write_block_size i) s;
     (status, s2) \<leftarrow> mmc_spi_read_status devices l s1;
     if status \<noteq> 0 then Some (MMC_ERROR, s2)
     else do {
       s3 \<leftarrow> mmc_send devices [0xFF, 0xFE] 2 s2;
       s4 \<leftarrow> mmc_send devices buf (write_block_size i) s3;
       Some (MMC_OK, s4)
     }
   }"

section \<open>Registers\<close>

text \<open>\<open>uint32_t buf[5]\<close>, by its bytes. The reports of the driver are given with their texts.\<close>

definition mmc_read_csd ::
    "(node_data, 'h sys) dev_table \<Rightarrow> locals \<Rightarrow> mmc_info \<Rightarrow> 'h sys \<Rightarrow> (cint \<times> mmc_info \<times> 'h sys) option" where
  "mmc_read_csd devices l i s = do {
     s1 \<leftarrow> mmc_send_cmd devices MMC_CMD09 0 s;
     (_, s2) \<leftarrow> mmc_spi_wait_start_block devices l 1 s1;
     (buf18, s3) \<leftarrow> mmc_read devices l (l_array l 20) 18 s2;
     if mmc_crc7 buf18 15 \<noteq> buf18 ! 15 then Some (MMC_ERROR, i, s3)
     else
       let buf = words_of (swap_all buf18)
       in if UNSTUFF_BITS buf 122 4 = 0 then do {
            s4 \<leftarrow> printf_sys devices l (line ''MMC : MMC 1.0 or SD, opting for the SD option'') [] s3;
            let (r, i') = sd_decode_csd buf i;
            Some (r, i', s4)
          }
          else
            let (r, i') = mmc_decode_csd buf i
            in Some (r, i', s3)
   }"

text \<open>The names are copied before the words are swapped.\<close>

definition cid_names :: "u8 list \<Rightarrow> mmc_cid \<Rightarrow> mmc_cid option" where
  "cid_names bs c = do {
     o1 \<leftarrow> strncpy (oid c) (drop 1 bs) 2;
     p1 \<leftarrow> strncpy (pnm c) (drop 3 bs) 5;
     Some (c\<lparr>oid := o1[2 := 0], pnm := p1[5 := 0]\<rparr>)
   }"

definition cid_numbers :: "u32 list \<Rightarrow> mmc_cid \<Rightarrow> mmc_cid" where
  "cid_numbers buf c =
     c\<lparr>mid := ucast (UNSTUFF_BITS buf 120 8), prv := ucast (UNSTUFF_BITS buf 56 8),
       psn := UNSTUFF_BITS buf 24 32, mdt_year := ucast (UNSTUFF_BITS buf 12 8 + 2000),
       mdt_month := ucast (UNSTUFF_BITS buf 8 4), cid_crc7 := ucast (UNSTUFF_BITS buf 1 7)\<rparr>"

definition mmc_read_cid ::
    "(node_data, 'h sys) dev_table \<Rightarrow> locals \<Rightarrow> mmc_info \<Rightarrow> 'h sys \<Rightarrow> (cint \<times> mmc_info \<times> 'h sys) option" where
  "mmc_read_cid devices l i s = do {
     s1 \<leftarrow> mmc_send_cmd devices MMC_CMD10 0 s;
     (_, s2) \<leftarrow> mmc_spi_wait_start_block devices l 1 s1;
     (buf18, s3) \<leftarrow> mmc_read devices l (l_array l 20) 18 s2;
     if mmc_crc7 buf18 15 \<noteq> buf18 ! 15 then Some (MMC_ERROR, i, s3)
     else do {
       c \<leftarrow> cid_names buf18 (cid i);
       Some (MMC_OK, i\<lparr>cid := cid_numbers (words_of (swap_all buf18)) c\<rparr>, s3)
     }
   }"

definition mmc_get_info ::
    "(node_data, 'h sys) dev_table \<Rightarrow> locals \<Rightarrow> mmc_info \<Rightarrow> 'h sys \<Rightarrow> (cint \<times> mmc_info \<times> 'h sys) option" where
  "mmc_get_info devices l i s = do {
     s1 \<leftarrow> mmc_send_cmd devices MMC_CMD58 0 s;
     (buf, s2) \<leftarrow> mmc_read devices l (l_array l 18) 5 s1;
     if buf ! 0 \<noteq> 0 then Some (MMC_ERROR, i, s2)
     else do {
       let ocr = (ucast (buf ! 4) OR push_bit 8 (ucast (buf ! 3)) OR push_bit 16 (ucast (buf ! 2))
         OR push_bit 24 (ucast (buf ! 1)) :: u32);
       if drop_bit 31 ocr AND 0x01 = 0 then do {
         s3 \<leftarrow> printf_sys devices l (line ''MMC : Unexpected OCR value. Power up did not complete.'') [] s2;
         Some (MMC_ERROR, i, s3)
       }
       else do {
         (i1, s3) \<leftarrow> (if drop_bit 30 ocr AND 0x01 \<noteq> 0 then do {
              s' \<leftarrow> printf_sys devices l (line ''MMC : Memory Card is a SDHC!'') [] s2;
              Some (i\<lparr>mmc_flags := mmc_flags i OR SD_SDHC\<rparr>, s')
            }
            else Some (i, s2));
         (r, i2, s4) \<leftarrow> mmc_read_csd devices l i1 s3;
         if r = MMC_ERROR then Some (MMC_ERROR, i2, s4)
         else do {
           (r, i3, s5) \<leftarrow> mmc_read_cid devices l i2 s4;
           if r = MMC_ERROR then Some (MMC_ERROR, i3, s5)
           else do {
             s6 \<leftarrow> printf_sys devices l (line ''MMC : New Multimedia Card %s - %s'')
                     [Va_str (oid (cid i3)), Va_str (pnm (cid i3))] s5;
             s7 \<leftarrow> printf_sys devices l (line ''MMC : Size is %d MiB'') [Va_int (mem_size i3)] s6;
             Some (MMC_OK, i3, s7)
           }
         }
       }
     }
   }"

section \<open>Initialisation\<close>

text \<open>\<open>do { ... mmc_read_r1(buf); } while (buf[0] != 0);\<close> for the command sent by \<open>cmd\<close>.\<close>

partial_function (option) until_ready ::
    "(node_data, 'h sys) dev_table \<Rightarrow> locals \<Rightarrow> ('h sys \<Rightarrow> 'h sys option) \<Rightarrow> u8 list \<Rightarrow> 'h sys
      \<Rightarrow> (u8 list \<times> 'h sys) option" where
  "until_ready devices l cmd buf s =
     Option.bind (cmd s) (\<lambda>s1.
     Option.bind (mmc_read devices l buf 1 s1) (\<lambda>(buf', s2).
       if buf' ! 0 \<noteq> 0 then until_ready devices l cmd buf' s2 else Some (buf', s2)))"

declare until_ready.simps [code]

definition mmc_init ::
    "(node_data, 'h sys) dev_table \<Rightarrow> locals \<Rightarrow> mmc_info \<Rightarrow> 'h sys \<Rightarrow> (cint \<times> mmc_info \<times> 'h sys) option" where
  "mmc_init devices l i s = do {
     s1 \<leftarrow> mmc_send devices ([0xFF, 0xFF] @ drop 2 (l_array l 7)) 2 s;
     s2 \<leftarrow> mmc_send_cmd devices MMC_CMD08 (MMC_VOLTAGE_27_36 OR 0xAA) s1;
     (buf, s3) \<leftarrow> mmc_read devices l (l_array l 17) 5 s2;
     (i', s4) \<leftarrow> (if buf ! 0 AND STATUS_ILLEGAL_CMD \<noteq> 0 then do {
          s' \<leftarrow> printf_sys devices l (line ''MMC : Memory Card Version is 1!'') [] s3;
          (_, s'') \<leftarrow> until_ready devices l (mmc_send_cmd devices MMC_CMD01 0) buf s';
          Some (i\<lparr>mmc_flags := mmc_flags i OR MMC_V1\<rparr>, s'')
        }
        else do {
          s' \<leftarrow> printf_sys devices l (line ''MMC : Memory Card Version is 2!'') [] s3;
          (_, s'') \<leftarrow> until_ready devices l
             (mmc_send_acmd devices MMC_CMD41 (MMC_OCR_VOLTAGE_30_31 OR MMC_OCR_HCS)) buf s';
          Some (i\<lparr>mmc_flags := mmc_flags i OR MMC_V2\<rparr>, s'')
        });
     mmc_get_info devices l i' s4
   }"

text \<open>The loop of \<open>mmc_to_idle\<close>.\<close>

function idle_loop ::
    "(node_data, 'h sys) dev_table \<Rightarrow> locals \<Rightarrow> nat \<Rightarrow> 'h sys \<Rightarrow> (cint \<times> 'h sys) option" where
  "idle_loop devices l i s =
     Option.bind (mmc_read_byte devices l s) (\<lambda>(b, s').
       if b \<noteq> 0x01 then
         (if TIMEOUT < i + 1 then Some (MMC_ERROR, s') else idle_loop devices l (i + 1) s')
       else Some (MMC_OK, s'))"
  by pat_completeness auto
termination
  by (relation "measure (\<lambda>(devices, l, i, s). Suc TIMEOUT - i)") auto

declare idle_loop.simps [simp del]

definition mmc_to_idle ::
    "(node_data, 'h sys) dev_table \<Rightarrow> locals \<Rightarrow> 'h sys \<Rightarrow> (cint \<times> 'h sys) option" where
  "mmc_to_idle devices l s = do {
     s1 \<leftarrow> mmc_send devices [0x40, 0, 0, 0, 0, 0x95] 6 s;
     idle_loop devices l 0 s1
   }"

section \<open>The operations of the driver\<close>

text \<open>What the data pointer refers to: \<open>None\<close> for NULL; any other object has no result.\<close>

definition mmc_data :: "node \<Rightarrow> mmc_info option option" where
  "mmc_data v = (case data v of No_data \<Rightarrow> Some None | Mmc_data i \<Rightarrow> Some (Some i) | _ \<Rightarrow> None)"

definition spi_ioctl ::
    "(node_data, 'h sys) dev_table \<Rightarrow> u8 \<Rightarrow> ioctl_data \<Rightarrow> 'h sys \<Rightarrow> (ioctl_data \<times> 'h sys) option" where
  "spi_ioctl devices code d s = do {
     (_, v, d', s') \<leftarrow> dev_ioctl devices (spi_node s) code d s;
     Some (d', s'\<lparr>spi_node := v\<rparr>)
   }"

text \<open>The part of \<open>mmc_spi_open\<close> up to the error label, with \<open>goto MMC_SPI_ERROR\<close> as \<open>-1\<close>.\<close>

definition mmc_start ::
    "(node_data, 'h sys) dev_table \<Rightarrow> locals \<Rightarrow> mmc_info \<Rightarrow> 'h sys \<Rightarrow> (cint \<times> mmc_info \<times> 'h sys) option" where
  "mmc_start devices l i0 s = do {
     let i = i0\<lparr>mmc_flags := 0\<rparr>;
     (_, s1) \<leftarrow> spi_ioctl devices SPI_IOCTL_DISABLE_SLAVE NULL s;
     s2 \<leftarrow> fold (\<lambda>_ r. Option.bind r (mmc_send devices ([0xFF] @ drop 1 (l_array l 6)) 1)) [0 ..< 10] (Some s1);
     (d, s3) \<leftarrow> spi_ioctl devices SPI_IOCTL_ENABLE_SLAVE (Int_data (spi_channel i)) s2;
     let i1 = (case d of Int_data c \<Rightarrow> i\<lparr>spi_channel := c\<rparr> | _ \<Rightarrow> i);
     (r, s4) \<leftarrow> mmc_to_idle devices l s3;
     if r = MMC_ERROR then do {
       s5 \<leftarrow> printf_sys devices l (line ''MMC : Error'') [] s4;
       Some (- 1, i1, s5)
     }
     else do {
       (r, i2, s5) \<leftarrow> mmc_init devices l i1 s4;
       if r = MMC_ERROR then do {
         s6 \<leftarrow> printf_sys devices l (line ''MMC : Init Error'') [] s5;
         Some (- 1, i2, s6)
       }
       else Some (0, i2, s5)
     }
   }"

definition mmc_spi_open ::
    "(node_data, 'h sys) dev_table \<Rightarrow> locals \<Rightarrow> node \<Rightarrow> 'h sys \<Rightarrow> (cint \<times> node \<times> 'h sys) option" where
  "mmc_spi_open devices l v s = do {
     d \<leftarrow> mmc_data v;
     (case d of
        None \<Rightarrow> do { (_, s1) \<leftarrow> mmc_to_idle devices l s; Some (- 1, v, s1) }
      | Some i \<Rightarrow> do {
          (r, i1, s1) \<leftarrow> mmc_start devices l i s;
          if r = 0 then Some (0, v\<lparr>data := Mmc_data i1\<rparr>, s1)
          else do {
            (_, s2) \<leftarrow> mmc_to_idle devices l s1;
            Some (- 1, v\<lparr>data := Mmc_data (i1\<lparr>mmc_flags := MMC_DISABLED\<rparr>)\<rparr>, s2)
          }
        })
   }"

definition mmc_spi_close ::
    "(node_data, 'h sys) dev_table \<Rightarrow> locals \<Rightarrow> node \<Rightarrow> 'h sys \<Rightarrow> (cint \<times> node \<times> 'h sys) option" where
  "mmc_spi_close devices l v s = do {
     d \<leftarrow> mmc_data v;
     (case d of
        None \<Rightarrow> Some (- 1, v, s)
      | Some _ \<Rightarrow> do { (_, s1) \<leftarrow> mmc_to_idle devices l s; Some (0, v, s1) })
   }"

text \<open>
  The position of a transfer: sector and offset in it, and whether the descriptor fits in the
  sector. A division by zero has no result.
\<close>

definition mmc_position :: "mmc_info \<Rightarrow> node \<Rightarrow> uio \<Rightarrow> (u32 \<times> u32 \<times> bool) option" where
  "mmc_position i v u =
     (if read_block_size i = 0 then None
      else Some (offset v div read_block_size i, offset v mod read_block_size i,
        \<not> read_block_size i < uio_resid u + offset v mod read_block_size i))"

text \<open>\<open>buf[i++]\<close>, out of the array without a result.\<close>

definition buf_get :: "u8 list \<times> nat \<Rightarrow> (u8 \<times> u8 list \<times> nat) option" where
  "buf_get = (\<lambda>(buf, i). if i < length buf then Some (buf ! i, buf, Suc i) else None)"

definition buf_put :: "u8 \<Rightarrow> u8 list \<times> nat \<Rightarrow> (u8 list \<times> nat) option" where
  "buf_put b = (\<lambda>(buf, i). if i < length buf then Some (buf[i := b], Suc i) else None)"

definition mmc_spi_write ::
    "(node_data, 'h sys) dev_table \<Rightarrow> locals \<Rightarrow> node \<Rightarrow> uio \<Rightarrow> 'h sys \<Rightarrow> (cint \<times> node \<times> uio \<times> 'h sys) option" where
  "mmc_spi_write devices l v u s = do {
     d \<leftarrow> mmc_data v;
     (case d of
        None \<Rightarrow> Some (- 1, v, u, s)
      | Some i \<Rightarrow>
          if uio_rw u \<noteq> UIO_WRITE then Some (- 1, v, u, s)
          else do {
            (sector, off, fits) \<leftarrow> mmc_position i v u;
            if \<not> fits then Some (- 1, v, u, s)
            else do {
              (r, buf, s1) \<leftarrow> mmc_read_sector devices l i (l_array l MAX_BLOCK_LENGTH) sector s;
              if r \<noteq> MMC_OK then Some (- 1, v, u, s1)
              else do {
                (u', buf', _) \<leftarrow> write_loop buf_put (iov_base (uio_iov u)) u (buf, unat off);
                (r, s2) \<leftarrow> mmc_write_sector devices l i buf' sector s1;
                Some (if r \<noteq> MMC_OK then - 1 else 0, v, u', s2)
              }
            }
          })
   }"

definition mmc_spi_read ::
    "(node_data, 'h sys) dev_table \<Rightarrow> locals \<Rightarrow> node \<Rightarrow> uio \<Rightarrow> 'h sys \<Rightarrow> (cint \<times> node \<times> uio \<times> 'h sys) option" where
  "mmc_spi_read devices l v u s = do {
     d \<leftarrow> mmc_data v;
     (case d of
        None \<Rightarrow> Some (- 1, v, u, s)
      | Some i \<Rightarrow>
          if uio_rw u \<noteq> UIO_READ then Some (- 1, v, u, s)
          else do {
            (sector, off, fits) \<leftarrow> mmc_position i v u;
            if \<not> fits then Some (- 1, v, u, s)
            else do {
              (r, buf, s1) \<leftarrow> mmc_read_sector devices l i (l_array l MAX_BLOCK_LENGTH) sector s;
              if r \<noteq> MMC_OK then Some (- 1, v, u, s1)
              else do {
                (u', _) \<leftarrow> read_loop (\<lambda>_. buf_get) (iov_base (uio_iov u)) u (buf, unat off);
                Some (0, v, u', s1)
              }
            }
          })
   }"

definition mmc_spi_ioctl ::
    "node \<Rightarrow> u8 \<Rightarrow> ioctl_data \<Rightarrow> 's \<Rightarrow> (cint \<times> node \<times> ioctl_data \<times> 's) option" where
  "mmc_spi_ioctl v code d s = do {
     i \<leftarrow> mmc_data v;
     Some (if i = None then - 1 else 0, v, d, s)
   }"

definition mmc :: "(node_data, 'h sys) dev_table \<Rightarrow> locals \<Rightarrow> (node_data, 'h sys) dev_ops" where
  "mmc devices l =
     \<lparr>d_open = mmc_spi_open devices l, d_close = mmc_spi_close devices l,
      d_read = mmc_spi_read devices l, d_write = mmc_spi_write devices l, d_ioctl = mmc_spi_ioctl\<rparr>"

end
