(* ===== verification/Mmc_Card.thy ===== *)
theory Mmc_Card
  imports Mmc_Spi
begin

text \<open>
  What the memory card driver does with a card: the frames it sends, the waits, and the
  transfers of sectors. A card answers with a byte that depends on what has been sent to it
  and on how many bytes it has returned since.
\<close>

section \<open>Cards\<close>

text \<open>
  The documented behaviour of the SPI functions of the library with a card behind them: every
  transmission is shifted out in the end, \<open>sent\<close> lists the transmitted bytes, \<open>got\<close> counts the
  bytes received since the last of them, and a received byte is the answer of the card.
\<close>

definition answering ::
    "'h xmc \<Rightarrow> (u8 list \<Rightarrow> nat \<Rightarrow> u8) \<Rightarrow> ('h \<Rightarrow> u8 list) \<Rightarrow> ('h \<Rightarrow> nat) \<Rightarrow> bool" where
  "answering hw reply sent got \<longleftrightarrow>
     (\<forall>h. \<exists>h'. settles (spi_shifting hw) h h') \<and>
     (\<forall>h w m. sent (xmc_do hw (XMC_SPI_CH_Transmit XMC_SPI0_CH0 w m) h) = sent h @ [ucast w] \<and>
        got (xmc_do hw (XMC_SPI_CH_Transmit XMC_SPI0_CH0 w m) h) = 0) \<and>
     (\<forall>h m. let h' = xmc_do hw (XMC_SPI_CH_Receive XMC_SPI0_CH0 m) h in sent h' = sent h \<and> got h' = got h) \<and>
     (\<forall>h w. let h' = xmc_do hw (XMC_SPI_CH_ClearStatusFlag XMC_SPI0_CH0 w) h in sent h' = sent h \<and> got h' = got h) \<and>
     (\<forall>h. let h' = snd (xmc_get hw (XMC_SPI_CH_GetStatusFlag XMC_SPI0_CH0) h) in sent h' = sent h \<and> got h' = got h) \<and>
     (\<forall>h. let (r, h') = xmc_get hw (XMC_SPI_CH_GetReceivedData XMC_SPI0_CH0) h
        in ucast r = reply (sent h) (got h) \<and> sent h' = sent h \<and> got h' = Suc (got h))"

lemma answeringD:
  assumes "answering hw reply sent got"
  shows "\<exists>h'. settles (spi_shifting hw) h h'"
    "sent (xmc_do hw (XMC_SPI_CH_Transmit XMC_SPI0_CH0 w m) h) = sent h @ [ucast w]"
    "got (xmc_do hw (XMC_SPI_CH_Transmit XMC_SPI0_CH0 w m) h) = 0"
    "sent (xmc_do hw (XMC_SPI_CH_Receive XMC_SPI0_CH0 m) h) = sent h"
    "got (xmc_do hw (XMC_SPI_CH_Receive XMC_SPI0_CH0 m) h) = got h"
    "sent (xmc_do hw (XMC_SPI_CH_ClearStatusFlag XMC_SPI0_CH0 x) h) = sent h"
    "got (xmc_do hw (XMC_SPI_CH_ClearStatusFlag XMC_SPI0_CH0 x) h) = got h"
    "sent (snd (xmc_get hw (XMC_SPI_CH_GetStatusFlag XMC_SPI0_CH0) h)) = sent h"
    "got (snd (xmc_get hw (XMC_SPI_CH_GetStatusFlag XMC_SPI0_CH0) h)) = got h"
    "xmc_get hw (XMC_SPI_CH_GetReceivedData XMC_SPI0_CH0) h = (r, h') \<Longrightarrow>
       ucast r = reply (sent h) (got h) \<and> sent h' = sent h \<and> got h' = Suc (got h)"
proof -
  note a = assms [unfolded answering_def Let_def]
  show "\<exists>h'. settles (spi_shifting hw) h h'" using a by simp
  show "xmc_get hw (XMC_SPI_CH_GetReceivedData XMC_SPI0_CH0) h = (r, h') \<Longrightarrow>
      ucast r = reply (sent h) (got h) \<and> sent h' = sent h \<and> got h' = Suc (got h)"
    using a [THEN conjunct2, THEN conjunct2, THEN conjunct2, THEN conjunct2, THEN conjunct2, THEN spec, of h]
    by simp
qed (use assms [unfolded answering_def Let_def] in simp_all)

definition card_on ::
    "(node_data, 'h sys) dev_table \<Rightarrow> 'h xmc \<Rightarrow> (u8 list \<Rightarrow> nat \<Rightarrow> u8) \<Rightarrow> ('h \<Rightarrow> u8 list) \<Rightarrow> ('h \<Rightarrow> nat)
      \<Rightarrow> node \<Rightarrow> bool" where
  "card_on devices hw reply sent got v \<longleftrightarrow>
     answering hw reply sent got \<and> driver devices v = Some (spi (sys_xmc hw))"

lemma sys_settles:
  "settles (spi_shifting hw) h h' \<Longrightarrow>
     settles (spi_shifting (sys_xmc hw)) (s\<lparr>sys_hw := h\<rparr>) (s\<lparr>sys_hw := h'\<rparr>)"
  by (erule settles_sys) (auto simp: spi_shifting_def sys_xmc_def Let_def split: prod.splits)

lemma spi_send_at:
  assumes "answering hw reply sent got"
  shows "\<exists>h'. usic_spi_send (sys_xmc hw) b s = Some (s\<lparr>sys_hw := h'\<rparr>) \<and>
    sent h' = sent (sys_hw s) @ [b] \<and> got h' = 0"
proof -
  let ?h1 = "xmc_do hw (XMC_SPI_CH_Transmit XMC_SPI0_CH0 (ucast b) XMC_SPI_CH_MODE_STANDARD) (sys_hw s)"
  have h1: "sent ?h1 = sent (sys_hw s) @ [b]" "got ?h1 = 0"
    by (simp_all add: answeringD [OF assms])
  obtain h2 where h2: "settles (spi_shifting hw) ?h1 h2" using answeringD(1) [OF assms] by blast
  have q: "sent (snd (spi_shifting hw h)) = sent h \<and> got (snd (spi_shifting hw h)) = got h" for h
    using answeringD(8,9) [OF assms, of h] by (auto simp: spi_shifting_def split: prod.splits)
  have k: "sent h2 = sent ?h1 \<and> got h2 = got ?h1"
    using spin_keeps [of "spi_shifting hw" ?h1 h2 "\<lambda>h. sent h = sent ?h1 \<and> got h = got ?h1"] h2 q
    by (simp add: spin_settles)
  have "spin (spi_shifting (sys_xmc hw)) (s\<lparr>sys_hw := ?h1\<rparr>) = Some (s\<lparr>sys_hw := h2\<rparr>)"
    using sys_settles [OF h2] by (simp add: spin_settles)
  then have "usic_spi_send (sys_xmc hw) b s = Some (s\<lparr>sys_hw := xmc_do hw (XMC_SPI_CH_ClearStatusFlag XMC_SPI0_CH0
      (xmc_value hw XMC_SPI_CH_STATUS_FLAG_TRANSMIT_SHIFT_INDICATION)) h2\<rparr>)"
    by (simp add: usic_spi_send_def sys_xmc_def)
  then show ?thesis
    using h1 k by (auto simp: answeringD [OF assms])
qed

lemma spi_emit_at:
  assumes "answering hw reply sent got"
  shows "\<exists>h'. spi_emit (sys_xmc hw) v bs s = Some (s\<lparr>sys_hw := h'\<rparr>) \<and>
    sent h' = sent (sys_hw s) @ bs \<and> (bs \<noteq> [] \<longrightarrow> got h' = 0)"
proof (induction bs arbitrary: s)
  case Nil
  show ?case by (rule exI [of _ "sys_hw s"]) (simp add: spi_emit_def)
next
  case (Cons b bs)
  obtain h1 where h1: "usic_spi_send (sys_xmc hw) b s = Some (s\<lparr>sys_hw := h1\<rparr>)"
    "sent h1 = sent (sys_hw s) @ [b]" "got h1 = 0"
    using spi_send_at [OF assms] by blast
  with Cons.IH [of "s\<lparr>sys_hw := h1\<rparr>"] show ?case
    by (cases bs) (auto simp: spi_emit_def)
qed

lemma spi_recv_at:
  assumes "answering hw reply sent got"
  shows "\<exists>h'. usic_spi_recv (sys_xmc hw) s = (reply (sent (sys_hw s)) (got (sys_hw s)), s\<lparr>sys_hw := h'\<rparr>) \<and>
    sent h' = sent (sys_hw s) \<and> got h' = Suc (got (sys_hw s))"
proof -
  let ?h1 = "xmc_do hw (XMC_SPI_CH_Receive XMC_SPI0_CH0 XMC_SPI_CH_MODE_STANDARD) (sys_hw s)"
  have "sent ?h1 = sent (sys_hw s)" "got ?h1 = got (sys_hw s)"
    by (simp_all add: answeringD [OF assms])
  moreover obtain r h2 where q: "xmc_get hw (XMC_SPI_CH_GetReceivedData XMC_SPI0_CH0) ?h1 = (r, h2)" by fastforce
  moreover note answeringD(10) [OF assms q]
  ultimately show ?thesis
    by (auto simp: usic_spi_recv_def sys_xmc_def)
qed

lemma spi_fetch_at:
  assumes "answering hw reply sent got"
  shows "\<exists>h'. spi_fetch (sys_xmc hw) v n s =
      Some (map (reply (sent (sys_hw s))) [got (sys_hw s) ..< got (sys_hw s) + n], s\<lparr>sys_hw := h'\<rparr>) \<and>
    sent h' = sent (sys_hw s) \<and> got h' = got (sys_hw s) + n"
proof (induction n arbitrary: s)
  case 0
  show ?case by (rule exI [of _ "sys_hw s"]) (simp add: spi_fetch_def)
next
  case (Suc n)
  obtain h1 where h1: "usic_spi_recv (sys_xmc hw) s = (reply (sent (sys_hw s)) (got (sys_hw s)), s\<lparr>sys_hw := h1\<rparr>)"
    "sent h1 = sent (sys_hw s)" "got h1 = Suc (got (sys_hw s))"
    using spi_recv_at [OF assms] by blast
  with Suc.IH [of "s\<lparr>sys_hw := h1\<rparr>"] show ?case
    by (auto simp: spi_fetch_def upt_conv_Cons simp del: upt_Suc)
qed

section \<open>The calls of the driver\<close>

lemma mmc_send_at:
  assumes "card_on devices hw reply sent got (spi_node s)" "unat n < 2 ^ 31" "unat n \<le> length buf"
  shows "\<exists>h'. mmc_send devices buf n s = Some (s\<lparr>sys_hw := h'\<rparr>) \<and>
    sent h' = sent (sys_hw s) @ take (unat n) buf \<and> (n \<noteq> 0 \<and> buf \<noteq> [] \<longrightarrow> got h' = 0)"
proof -
  have a: "answering hw reply sent got" "driver devices (spi_node s) = Some (spi (sys_xmc hw))"
    using assms(1) by (simp_all add: card_on_def)
  obtain h' where "spi_emit (sys_xmc hw) (spi_node s) (take (unat n) buf) s = Some (s\<lparr>sys_hw := h'\<rparr>)"
    "sent h' = sent (sys_hw s) @ take (unat n) buf" "take (unat n) buf \<noteq> [] \<longrightarrow> got h' = 0"
    using spi_emit_at [OF a(1)] by blast
  moreover have "dev_write devices buf n (spi_node s) s =
      map_option (\<lambda>s'. (n, spi_node s, s')) (spi_emit (sys_xmc hw) (spi_node s) (take (unat n) buf) s)"
    by (rule spi_stream.dev_write_emits [OF a(2) _ assms(2,3)]) (simp add: spi_def)
  ultimately show ?thesis by (auto simp: mmc_send_def unat_eq_zero)
qed

lemma dev_read_at:
  assumes "card_on devices hw reply sent got (spi_node s)" "0 < unat n" "unat n < 2 ^ 31" "unat n \<le> length buf"
  shows "\<exists>h'. dev_read devices buf n (spi_node s) s =
      Some (n, overwrite 0 (map (reply (sent (sys_hw s))) [got (sys_hw s) ..< got (sys_hw s) + unat n]) buf,
        spi_node s, s\<lparr>sys_hw := h'\<rparr>) \<and>
    sent h' = sent (sys_hw s) \<and> got h' = got (sys_hw s) + unat n"
proof -
  have a: "answering hw reply sent got" "driver devices (spi_node s) = Some (spi (sys_xmc hw))"
    using assms(1) by (simp_all add: card_on_def)
  have "dev_read devices buf n (spi_node s) s =
      map_option (\<lambda>(bs, s'). (n, overwrite 0 bs buf, spi_node s, s')) (spi_fetch (sys_xmc hw) (spi_node s) (unat n) s)"
    by (rule spi_stream.dev_read_fetches [OF a(2) _ assms(2-4)]) (simp add: spi_def)
  then show ?thesis using spi_fetch_at [OF a(1), of "spi_node s" "unat n" s] by auto
qed

lemma mmc_read_byte_at:
  assumes "card_on devices hw reply sent got (spi_node s)"
  shows "\<exists>h'. mmc_read_byte devices l s = Some (reply (sent (sys_hw s)) (got (sys_hw s)), s\<lparr>sys_hw := h'\<rparr>) \<and>
    sent h' = sent (sys_hw s) \<and> got h' = Suc (got (sys_hw s))"
  using dev_read_at [OF assms, of 1 "l_array l 1"]
  by (auto simp: mmc_read_byte_def l_array_def overwrite_def)

text \<open>The waits skip the bytes that keep them going.\<close>

lemma wait_unbusy_at:
  assumes "card_on devices hw reply sent got (spi_node s)"
    and "\<forall>j < k. reply (sent (sys_hw s)) (got (sys_hw s) + j) = 0xFF"
    and "reply (sent (sys_hw s)) (got (sys_hw s) + k) \<noteq> 0xFF"
  shows "\<exists>h'. mmc_spi_wait_unbusy devices l s =
      Some (reply (sent (sys_hw s)) (got (sys_hw s) + k), s\<lparr>sys_hw := h'\<rparr>) \<and>
    sent h' = sent (sys_hw s) \<and> got h' = got (sys_hw s) + k + 1"
  using assms
proof (induction k arbitrary: s)
  case 0
  then show ?case
    using mmc_read_byte_at [OF "0.prems"(1), of l] by (auto simp: mmc_spi_wait_unbusy.simps [of devices l s])
next
  case (Suc k)
  obtain h1 where h1: "mmc_read_byte devices l s = Some (reply (sent (sys_hw s)) (got (sys_hw s)), s\<lparr>sys_hw := h1\<rparr>)"
    "sent h1 = sent (sys_hw s)" "got h1 = Suc (got (sys_hw s))"
    using mmc_read_byte_at [OF Suc.prems(1)] by blast
  have later: "\<forall>j < k. reply (sent (sys_hw s)) (Suc (got (sys_hw s) + j)) = 0xFF"
    using Suc.prems(2) by (metis Suc_less_eq add_Suc_right)
  have ff: "reply (sent (sys_hw s)) (got (sys_hw s)) = 0xFF" using Suc.prems(2) by fastforce
  have "\<exists>h'. mmc_spi_wait_unbusy devices l (s\<lparr>sys_hw := h1\<rparr>) =
      Some (reply (sent (sys_hw s)) (Suc (got (sys_hw s)) + k), s\<lparr>sys_hw := h'\<rparr>) \<and>
    sent h' = sent (sys_hw s) \<and> got h' = Suc (got (sys_hw s)) + k + 1"
    using Suc.IH [of "s\<lparr>sys_hw := h1\<rparr>"] Suc.prems h1 later by auto
  then show ?case using h1(1) ff by (auto simp: mmc_spi_wait_unbusy.simps [of devices l s])
qed

lemma read_status_wait: "mmc_spi_read_status devices l s = Some r \<longleftrightarrow> mmc_spi_wait_unbusy devices l s = Some r"
proof
  show "mmc_spi_read_status devices l s = Some r \<Longrightarrow> mmc_spi_wait_unbusy devices l s = Some r"
  proof (rule mmc_spi_read_status.raw_induct
      [where P = "\<lambda>devices l s r. mmc_spi_wait_unbusy devices l s = Some r", rotated])
    fix f and devices :: "(node_data, 'a sys) dev_table" and l s r
    assume IH: "\<And>devices l s r. f devices l s = Some r \<Longrightarrow> mmc_spi_wait_unbusy devices l s = Some r"
      and e: "Option.bind (mmc_read_byte devices l s)
        (\<lambda>(status, s'). if status = 0xFF then f devices l s' else Some (status, s')) = Some r"
    from e obtain st s1 where "mmc_read_byte devices l s = Some (st, s1)"
      "if st = 0xFF then f devices l s1 = Some r else r = (st, s1)"
      by (auto simp: Option.bind_eq_Some_conv split: if_splits)
    with IH [of devices l s1 r] show "mmc_spi_wait_unbusy devices l s = Some r"
      by (cases "st = 0xFF") (simp_all add: mmc_spi_wait_unbusy.simps [of devices l s] del: split_paired_All)
  qed
  show "mmc_spi_wait_unbusy devices l s = Some r \<Longrightarrow> mmc_spi_read_status devices l s = Some r"
  proof (rule mmc_spi_wait_unbusy.raw_induct
      [where P = "\<lambda>devices l s r. mmc_spi_read_status devices l s = Some r", rotated])
    fix f and devices :: "(node_data, 'a sys) dev_table" and l s r
    assume IH: "\<And>devices l s r. f devices l s = Some r \<Longrightarrow> mmc_spi_read_status devices l s = Some r"
      and e: "Option.bind (mmc_read_byte devices l s)
        (\<lambda>(status, s'). if status = 0xFF then f devices l s' else Some (status, s')) = Some r"
    from e obtain st s1 where "mmc_read_byte devices l s = Some (st, s1)"
      "if st = 0xFF then f devices l s1 = Some r else r = (st, s1)"
      by (auto simp: Option.bind_eq_Some_conv split: if_splits)
    with IH [of devices l s1 r] show "mmc_spi_read_status devices l s = Some r"
      by (cases "st = 0xFF") (simp_all add: mmc_spi_read_status.simps [of devices l s] del: split_paired_All)
  qed
qed

lemma start_block_at:
  assumes "card_on devices hw reply sent got (spi_node s)"
    and "\<forall>j < k. reply (sent (sys_hw s)) (got (sys_hw s) + j) = 0xFF"
    and "reply (sent (sys_hw s)) (got (sys_hw s) + k) = 0xFE"
  shows "\<exists>h'. mmc_spi_wait_start_block devices l ign s = Some (MMC_OK, s\<lparr>sys_hw := h'\<rparr>) \<and>
    sent h' = sent (sys_hw s) \<and> got h' = got (sys_hw s) + k + 1"
  using assms
proof (induction k arbitrary: s)
  case 0
  then show ?case
    using mmc_read_byte_at [OF "0.prems"(1), of l]
    by (auto simp: mmc_spi_wait_start_block.simps [of devices l ign s])
next
  case (Suc k)
  obtain h1 where h1: "mmc_read_byte devices l s = Some (reply (sent (sys_hw s)) (got (sys_hw s)), s\<lparr>sys_hw := h1\<rparr>)"
    "sent h1 = sent (sys_hw s)" "got h1 = Suc (got (sys_hw s))"
    using mmc_read_byte_at [OF Suc.prems(1)] by blast
  have later: "\<forall>j < k. reply (sent (sys_hw s)) (Suc (got (sys_hw s) + j)) = 0xFF"
    using Suc.prems(2) by (metis Suc_less_eq add_Suc_right)
  have ff: "reply (sent (sys_hw s)) (got (sys_hw s)) = 0xFF" using Suc.prems(2) by fastforce
  have "\<exists>h'. mmc_spi_wait_start_block devices l ign (s\<lparr>sys_hw := h1\<rparr>) = Some (MMC_OK, s\<lparr>sys_hw := h'\<rparr>) \<and>
    sent h' = sent (sys_hw s) \<and> got h' = Suc (got (sys_hw s)) + k + 1"
    using Suc.IH [of "s\<lparr>sys_hw := h1\<rparr>"] Suc.prems h1 later by auto
  then show ?case using h1(1) ff by (auto simp: mmc_spi_wait_start_block.simps [of devices l ign s])
qed

lemma mmc_read_at:
  assumes "card_on devices hw reply sent got (spi_node s)"
    and "\<forall>j < k. reply (sent (sys_hw s)) (got (sys_hw s) + j) = 0xFF"
    and "reply (sent (sys_hw s)) (got (sys_hw s) + k) \<noteq> 0xFF"
    and "0 < unat n" "unat n < 2 ^ 31" "unat n \<le> length buf"
  shows "\<exists>h'. mmc_read devices l buf n s =
      Some (overwrite 0 (map (reply (sent (sys_hw s))) [got (sys_hw s) + k ..< got (sys_hw s) + k + unat n]) buf,
        s\<lparr>sys_hw := h'\<rparr>) \<and>
    sent h' = sent (sys_hw s) \<and> got h' = got (sys_hw s) + k + unat n"
proof -
  let ?r = "reply (sent (sys_hw s))" and ?g = "got (sys_hw s) + k"
  obtain h1 where h1: "mmc_spi_wait_unbusy devices l s = Some (?r ?g, s\<lparr>sys_hw := h1\<rparr>)"
    "sent h1 = sent (sys_hw s)" "got h1 = Suc ?g"
    using wait_unbusy_at [OF assms(1-3)] by auto
  have n1: "unat (n - 1) = unat n - 1" using assms(4) by (simp add: unat_minus_one unat_gt_0)
  obtain b bs where buf: "buf = b # bs" using assms(4,6) by (cases buf) auto
  show ?thesis
  proof (cases "unat n = 1")
    case True
    then have "n - 1 = 0" using n1 by (simp add: unat_eq_zero)
    then show ?thesis
      using h1 True assms(1) spi_stream.dev_read_nothing [of devices "spi_node s" "spi (sys_xmc hw)" "tl buf" "s\<lparr>sys_hw := h1\<rparr>"]
      by (auto simp: mmc_read_def card_on_def overwrite_def buf)
  next
    case False
    then have "0 < unat (n - 1)" "unat (n - 1) < 2 ^ 31" "unat (n - 1) \<le> length (tl buf)"
      using assms(4-6) n1 by simp_all
    from dev_read_at [of devices hw reply sent got "s\<lparr>sys_hw := h1\<rparr>", OF _ this] assms(1) h1
    obtain h2 where h2: "dev_read devices (tl buf) (n - 1) (spi_node s) (s\<lparr>sys_hw := h1\<rparr>) =
      Some (n - 1, overwrite 0 (map ?r [Suc ?g ..< Suc ?g + (unat n - 1)]) (tl buf), spi_node s, s\<lparr>sys_hw := h2\<rparr>)"
      "sent h2 = sent (sys_hw s)" "got h2 = Suc ?g + (unat n - 1)"
      by (auto simp: n1)
    then show ?thesis
      using h1 False assms(4) drop_Cons' [of "unat n" b bs]
      by (auto simp: mmc_read_def overwrite_def buf upt_conv_Cons)
  qed
qed

end
