(* ===== verification/Mmc_Properties.thy ===== *)
theory Mmc_Properties
  imports Mmc_Card
begin

text \<open>
  The properties of the memory card driver: the frame of a command, the bound on the wait for
  the idle state, the transfers of sectors through the device switch, and the reads that
  never end.
\<close>

section \<open>Commands\<close>

definition mmc_frame :: "u8 \<Rightarrow> u32 \<Rightarrow> u8 list" where
  "mmc_frame cmd arg =
     (let bytes = [cmd, arg_byte arg 3, arg_byte arg 2, arg_byte arg 1, arg_byte arg 0]
      in 0xFF # bytes @ [mmc_crc7 bytes 5])"

lemma length_mmc_frame [simp]: "length (mmc_frame cmd arg) = 7"
  by (simp add: mmc_frame_def Let_def)

lemma mmc_send_cmd_at:
  assumes "card_on devices hw reply sent got (spi_node s)"
  shows "\<exists>h'. mmc_send_cmd devices cmd arg s = Some (s\<lparr>sys_hw := h'\<rparr>) \<and>
    sent h' = sent (sys_hw s) @ mmc_frame cmd arg \<and> got h' = 0"
  using mmc_send_at [OF assms, of 7 "mmc_frame cmd arg"]
  by (auto simp: mmc_send_cmd_def mmc_frame_def Let_def)

lemma arg_bytes: "word_rcat [arg_byte arg 3, arg_byte arg 2, arg_byte arg 1, arg_byte arg 0] = arg"
proof (rule bit_word_eqI)
  fix n assume "n < LENGTH(32)"
  then have n: "n < 32" by simp
  have b: "bit (arg_byte arg i) m = (m < 8 \<and> bit arg (i * 8 + m))" if "i < 4" for i m
  proof (cases "m < 8")
    case True
    have "bit (0xFF :: u32) m"
      using True bit_mask_iff [of 8 m, where 'a = "32 word"] by (simp add: mask_eq_exp_minus_1)
    then show ?thesis
      using True that by (simp add: arg_byte_def bit_unsigned_iff bit_drop_bit_eq bit_and_iff bit_push_bit_iff)
  qed (simp add: arg_byte_def bit_unsigned_iff)
  have q: "n div 8 < 4" using n by (simp add: div_less_iff_less_mult)
  then have "n div 8 \<in> {0, 1, 2, 3}" by auto
  then have "rev [arg_byte arg 3, arg_byte arg 2, arg_byte arg 1, arg_byte arg 0] ! (n div 8) = arg_byte arg (n div 8)"
    by auto
  then show "bit (word_rcat [arg_byte arg 3, arg_byte arg 2, arg_byte arg 1, arg_byte arg 0] :: u32) n = bit arg n"
    using n q b [OF q, of "n mod 8"] unfolding bit_word_rcat_bytes by simp
qed

text \<open>
  C31: what a command puts on the bus. On a bus with a card, sending a command returns, changes
  nothing but the hardware, and transmits an idle byte and a frame of six bytes: the command,
  four bytes from which the 32-bit argument is read back, most significant first, and the CRC of
  these five as the remainder of the polynomial division, with the stop bit.
\<close>

theorem mmc_command_frame:
  assumes "card_on devices hw reply sent got (spi_node s)"
  shows "\<exists>h' a crc. mmc_send_cmd devices cmd arg s = Some (s\<lparr>sys_hw := h'\<rparr>) \<and>
    sent h' = sent (sys_hw s) @ [0xFF, cmd] @ a @ [crc] \<and> length a = 4 \<and> word_rcat a = arg \<and>
    byte_bits crc = gf2_rem crc7_poly (concat (map byte_bits (cmd # a)) @ replicate 7 False) @ [True]"
proof -
  let ?a = "[arg_byte arg 3, arg_byte arg 2, arg_byte arg 1, arg_byte arg 0]"
  let ?crc = "mmc_crc7 (cmd # ?a) 5"
  obtain h' where h': "mmc_send_cmd devices cmd arg s = Some (s\<lparr>sys_hw := h'\<rparr>)"
    "sent h' = sent (sys_hw s) @ mmc_frame cmd arg"
    using mmc_send_cmd_at [OF assms] by blast
  have "byte_bits ?crc = gf2_rem crc7_poly (concat (map byte_bits (cmd # ?a)) @ replicate 7 False) @ [True]"
    by (simp only: crc7_bits gf2_rem_message) simp
  moreover have "mmc_frame cmd arg = [0xFF, cmd] @ ?a @ [?crc]" by (simp add: mmc_frame_def)
  ultimately show ?thesis
    using h' arg_bytes [of arg]
    by (intro exI [of _ h'] exI [of _ ?a] exI [of _ ?crc]) simp
qed

section \<open>A card for the examples\<close>

text \<open>
  The hardware of the examples: the bytes sent, the count of bytes received since, and a card
  that answers with an idle byte, then 0, then an idle byte, the start byte and a block.
\<close>

record demo_spi =
  ds_sent :: "u8 list"
  ds_got :: nat

definition demo_reply :: "u8 list \<Rightarrow> u8 list \<Rightarrow> nat \<Rightarrow> u8" where
  "demo_reply block xs n = (if length xs = 6 then (if n = 2 then 1 else 0xFF) else
     if n < 4 then [0xFF, 0, 0xFF, 0xFE] ! n else if n < 12 then block ! (n - 4) else 0x55)"

fun demo_spi_do :: "xmc_call \<Rightarrow> demo_spi \<Rightarrow> demo_spi" where
  "demo_spi_do (XMC_SPI_CH_Transmit ch w m) h = \<lparr>ds_sent = ds_sent h @ [ucast w], ds_got = 0\<rparr>"
| "demo_spi_do _ h = h"

fun demo_spi_get :: "(u8 list \<Rightarrow> nat \<Rightarrow> u8) \<Rightarrow> xmc_query \<Rightarrow> demo_spi \<Rightarrow> u32 \<times> demo_spi" where
  "demo_spi_get reply (XMC_SPI_CH_GetReceivedData ch) h =
     (ucast (reply (ds_sent h) (ds_got h)), h\<lparr>ds_got := Suc (ds_got h)\<rparr>)"
| "demo_spi_get reply _ h = (1, h)"

definition demo_spi_xmc :: "u8 list \<Rightarrow> demo_spi xmc" where
  "demo_spi_xmc block = \<lparr>xmc_do = demo_spi_do, xmc_get = demo_spi_get (demo_reply block), xmc_value = (\<lambda>_. 1)\<rparr>"

definition demo_mmc_node :: "nat \<Rightarrow> node_data \<Rightarrow> node" where
  "demo_mmc_node i d = \<lparr>dev_type = SPI, dev_id = of_nat i, endpt = 0, offset = 0, data = d\<rparr>"

definition demo_mmc_sys :: "demo_spi sys" where
  "demo_mmc_sys = \<lparr>sys_hw = \<lparr>ds_sent = [], ds_got = 0\<rparr>, uart_node = demo_mmc_node 2 No_data,
     i2c_node = demo_mmc_node 0 No_data, rtc_node = demo_mmc_node 6 No_data,
     spi_node = demo_mmc_node 1 No_data, sys_errno = EPERM\<rparr>"

definition demo_spi_table :: "u8 list \<Rightarrow> (node_data, demo_spi sys) dev_table" where
  "demo_spi_table block = driver_map DEV_SPI (spi (sys_xmc (demo_spi_xmc block))) no_devices"

lemma demo_answering: "answering (demo_spi_xmc block) (demo_reply block) ds_sent ds_got"
proof -
  have "spi_shifting (demo_spi_xmc block) h = (False, h)" for h
    by (simp add: spi_shifting_def demo_spi_xmc_def)
  then have "settles (spi_shifting (demo_spi_xmc block)) h h" for h by (rule settles_now)
  then show ?thesis
    unfolding answering_def by (auto simp: demo_spi_xmc_def Let_def)
qed

lemma demo_card_on:
  "card_on (demo_spi_table block) (demo_spi_xmc block) (demo_reply block) ds_sent ds_got (spi_node demo_mmc_sys)"
  using driver_map_same [of no_devices DEV_SPI "spi_node demo_mmc_sys"]
  by (simp add: card_on_def demo_answering demo_spi_table_def node_of_def demo_mmc_sys_def demo_mmc_node_def)

text \<open>A card of blocks of eight bytes, whose node is at position 13, and the tables.\<close>

definition demo_info :: mmc_info where
  "demo_info = \<lparr>csd = \<lparr>c_size = 0, c_mult = 0, read_bl_len = 3, write_bl_len = 3, c_structure = 0\<rparr>,
     cid = \<lparr>psn = 0, pnm = replicate 6 0, mdt_year = 0, oid = replicate 3 0, mdt_month = 0, cid_crc7 = 0,
       prv = 0, mid = 0\<rparr>,
     spi_channel = 0, mem_size = 0, read_block_size = 8, write_block_size = 8, mmc_flags = 0\<rparr>"

definition demo_card :: node where
  "demo_card = \<lparr>dev_type = MMC, dev_id = 5, endpt = 0, offset = 13, data = Mmc_data demo_info\<rparr>"

definition demo_locals :: locals where
  "demo_locals = \<lparr>l_bytes = (\<lambda>_. 0xEE), l_bf = replicate 12 0xEE, l_vnode = demo_mmc_node 9 No_data\<rparr>"

definition demo_mmc_table :: "u8 list \<Rightarrow> (node_data, demo_spi sys) dev_table" where
  "demo_mmc_table block = driver_map DEV_MMC (mmc (demo_spi_table block) demo_locals) no_devices"

lemma demo_mmc_driver: "driver (demo_mmc_table block) demo_card = Some (mmc (demo_spi_table block) demo_locals)"
  unfolding demo_mmc_table_def
  by (rule driver_map_same) (simp_all add: node_of_def demo_card_def)

lemma demo_position: "offset demo_card mod read_block_size demo_info = 5" "offset demo_card div read_block_size demo_info = 1"
  by (simp_all add: demo_card_def demo_info_def)

theorem mmc_command_frame_witness:
  "\<exists>h' a crc. mmc_send_cmd (demo_spi_table []) MMC_CMD17 0x200 demo_mmc_sys = Some (demo_mmc_sys\<lparr>sys_hw := h'\<rparr>) \<and>
    ds_sent h' = ds_sent (sys_hw demo_mmc_sys) @ [0xFF, MMC_CMD17] @ a @ [crc] \<and> length a = 4 \<and> word_rcat a = (0x200 :: u32) \<and>
    byte_bits crc = gf2_rem crc7_poly (concat (map byte_bits (MMC_CMD17 # a)) @ replicate 7 False) @ [True]"
  by (rule mmc_command_frame [OF demo_card_on])

section \<open>The idle state\<close>

lemma idle_loop_at:
  assumes "card_on devices hw reply sent got (spi_node s)" "i \<le> TIMEOUT" "got (sys_hw s) = i"
  shows "\<exists>r h'. idle_loop devices l i s = Some (r, s\<lparr>sys_hw := h'\<rparr>) \<and> sent h' = sent (sys_hw s) \<and>
    got h' \<le> Suc TIMEOUT \<and>
    r = (if \<exists>n \<ge> i. n \<le> TIMEOUT \<and> reply (sent (sys_hw s)) n = 1 then MMC_OK else MMC_ERROR)"
  using assms
proof (induction "TIMEOUT - i" arbitrary: i s)
  case (0 i s)
  then have i: "i = TIMEOUT" by simp
  obtain h1 where h1: "mmc_read_byte devices l s = Some (reply (sent (sys_hw s)) i, s\<lparr>sys_hw := h1\<rparr>)"
    "sent h1 = sent (sys_hw s)" "got h1 = Suc i"
    using mmc_read_byte_at [OF "0.prems"(1)] "0.prems"(3) by blast
  have "(\<exists>n \<ge> i. n \<le> TIMEOUT \<and> reply (sent (sys_hw s)) n = 1) \<longleftrightarrow> reply (sent (sys_hw s)) i = 1"
    unfolding i by (auto dest: le_antisym)
  then show ?case
    using h1 by (auto simp: idle_loop.simps [of devices l TIMEOUT s] i)
next
  case (Suc k i s)
  obtain h1 where h1: "mmc_read_byte devices l s = Some (reply (sent (sys_hw s)) i, s\<lparr>sys_hw := h1\<rparr>)"
    "sent h1 = sent (sys_hw s)" "got h1 = Suc i"
    using mmc_read_byte_at [OF Suc.prems(1)] Suc.prems(3) by blast
  show ?case
  proof (cases "reply (sent (sys_hw s)) i = 1")
    case True
    then show ?thesis
      using h1 Suc.prems(2) by (auto simp: idle_loop.simps [of devices l i s])
  next
    case False
    have e: "(\<exists>n \<ge> i. n \<le> TIMEOUT \<and> reply (sent (sys_hw s)) n = 1) \<longleftrightarrow>
        (\<exists>n \<ge> Suc i. n \<le> TIMEOUT \<and> reply (sent (sys_hw s)) n = 1)"
      using False by (metis Suc_leD not_less_eq_eq le_antisym)
    have "\<exists>r h'. idle_loop devices l (Suc i) (s\<lparr>sys_hw := h1\<rparr>) = Some (r, s\<lparr>sys_hw := h'\<rparr>) \<and>
        sent h' = sent (sys_hw s) \<and> got h' \<le> Suc TIMEOUT \<and>
        r = (if \<exists>n \<ge> Suc i. n \<le> TIMEOUT \<and> reply (sent (sys_hw s)) n = 1 then MMC_OK else MMC_ERROR)"
      using Suc.hyps(1) [of "Suc i" "s\<lparr>sys_hw := h1\<rparr>"] Suc.hyps(2) Suc.prems h1 by simp
    moreover have "idle_loop devices l i s = idle_loop devices l (Suc i) (s\<lparr>sys_hw := h1\<rparr>)"
    proof -
      have "\<not> TIMEOUT < i + 1" using Suc.hyps(2) by simp
      then show ?thesis using h1(1) False by (simp add: idle_loop.simps [of devices l i s])
    qed
    ultimately show ?thesis unfolding e by simp
  qed
qed

text \<open>
  C32: bringing a card to its idle state takes a bounded time. With any card, \<open>mmc_to_idle\<close> sends
  the reset frame once, reads at most 129 bytes and returns; it succeeds exactly if one of the first
  129 answers to the frame is the idle status.
\<close>

theorem mmc_to_idle_bounded:
  assumes "card_on devices hw reply sent got (spi_node s)"
  shows "\<exists>r h'. mmc_to_idle devices l s = Some (r, s\<lparr>sys_hw := h'\<rparr>) \<and>
    sent h' = sent (sys_hw s) @ [0x40, 0, 0, 0, 0, 0x95] \<and> got h' \<le> 129 \<and>
    r = (if \<exists>n \<le> 128. reply (sent (sys_hw s) @ [0x40, 0, 0, 0, 0, 0x95]) n = 1 then MMC_OK else MMC_ERROR)"
proof -
  obtain h1 where "mmc_send devices [0x40, 0, 0, 0, 0, 0x95] 6 s = Some (s\<lparr>sys_hw := h1\<rparr>)"
    "sent h1 = sent (sys_hw s) @ [0x40, 0, 0, 0, 0, 0x95]" "got h1 = 0"
    using mmc_send_at [OF assms, of 6 "[0x40, 0, 0, 0, 0, 0x95]"] by auto
  then show ?thesis
    using idle_loop_at [of devices hw reply sent got "s\<lparr>sys_hw := h1\<rparr>" 0 l] assms
    by (auto simp: mmc_to_idle_def TIMEOUT_def)
qed

theorem mmc_to_idle_bounded_witness:
  "\<exists>h'. mmc_to_idle (demo_spi_table []) demo_locals demo_mmc_sys =
      Some (MMC_OK, demo_mmc_sys\<lparr>sys_hw := h'\<rparr>) \<and> ds_sent h' = [0x40, 0, 0, 0, 0, 0x95] \<and> ds_got h' \<le> 129"
proof -
  have "\<exists>n \<le> 128. demo_reply [] (ds_sent (sys_hw demo_mmc_sys) @ [0x40, 0, 0, 0, 0, 0x95]) n = 1"
    by (rule exI [of _ 2]) (simp add: demo_mmc_sys_def demo_reply_def)
  then show ?thesis
    using mmc_to_idle_bounded [OF demo_card_on, of "[]" demo_locals]
    by (auto simp: demo_mmc_sys_def)
qed

section \<open>Sectors\<close>

lemma map_upt_shift: "map f [a ..< a + n] = map (\<lambda>j. f (a + j)) [0 ..< n]"
  by (rule nth_equalityI) simp_all

text \<open>
  An answer to a read command: idle bytes, the status 0, idle bytes, the start byte; the block
  begins at position \<open>p\<close>. An answer to a write command: idle bytes and the status 0.
\<close>

definition block_at :: "(nat \<Rightarrow> u8) \<Rightarrow> nat \<Rightarrow> bool" where
  "block_at ans p \<longleftrightarrow> (\<exists>a b. p = a + b + 2 \<and> (\<forall>j < a. ans j = 0xFF) \<and> ans a = 0 \<and>
     (\<forall>j < b. ans (a + 1 + j) = 0xFF) \<and> ans (a + 1 + b) = 0xFE)"

definition status_ok :: "(nat \<Rightarrow> u8) \<Rightarrow> bool" where
  "status_ok ans \<longleftrightarrow> (\<exists>a. (\<forall>j < a. ans j = 0xFF) \<and> ans a = 0)"

lemma read_status_at:
  assumes "card_on devices hw reply sent got (spi_node s)" "got (sys_hw s) = 0"
    and "\<forall>j < k. reply (sent (sys_hw s)) j = 0xFF" "reply (sent (sys_hw s)) k = 0"
  shows "\<exists>h'. mmc_spi_read_status devices l s = Some (0, s\<lparr>sys_hw := h'\<rparr>) \<and>
    sent h' = sent (sys_hw s) \<and> got h' = k + 1"
  using wait_unbusy_at [OF assms(1), of k l] assms(2-4) by (simp add: read_status_wait)

lemma read_sector_at:
  assumes "card_on devices hw reply sent got (spi_node s)"
    and "block_at (reply (sent (sys_hw s) @ mmc_frame MMC_CMD17 (sector * read_block_size i))) p"
    and "\<forall>j < k. reply (sent (sys_hw s) @ mmc_frame MMC_CMD17 (sector * read_block_size i)) (p + j) = 0xFF"
    and "reply (sent (sys_hw s) @ mmc_frame MMC_CMD17 (sector * read_block_size i)) (p + k) \<noteq> 0xFF"
    and "0 < unat (read_block_size i)" "unat (read_block_size i) \<le> length buf" "length buf < 2 ^ 31"
  shows "\<exists>h'. mmc_read_sector devices l i buf sector s =
      Some (MMC_OK, overwrite 0 (map (reply (sent (sys_hw s) @ mmc_frame MMC_CMD17 (sector * read_block_size i)))
          [p + k ..< p + k + unat (read_block_size i)]) buf, s\<lparr>sys_hw := h'\<rparr>) \<and>
    sent h' = sent (sys_hw s) @ mmc_frame MMC_CMD17 (sector * read_block_size i)"
proof -
  let ?x = "sent (sys_hw s) @ mmc_frame MMC_CMD17 (sector * read_block_size i)"
  obtain a b where ab: "p = a + b + 2" "\<forall>j < a. reply ?x j = 0xFF" "reply ?x a = 0"
    "\<forall>j < b. reply ?x (a + 1 + j) = 0xFF" "reply ?x (a + 1 + b) = 0xFE"
    using assms(2) unfolding block_at_def by blast
  obtain h1 where h1: "mmc_send_cmd devices MMC_CMD17 (sector * read_block_size i) s = Some (s\<lparr>sys_hw := h1\<rparr>)"
    "sent h1 = ?x" "got h1 = 0"
    using mmc_send_cmd_at [OF assms(1)] by blast
  obtain h2 where h2: "mmc_spi_read_status devices l (s\<lparr>sys_hw := h1\<rparr>) = Some (0, s\<lparr>sys_hw := h2\<rparr>)"
    "sent h2 = ?x" "got h2 = a + 1"
    using read_status_at [of devices hw reply sent got "s\<lparr>sys_hw := h1\<rparr>" a l] assms(1) h1 ab(2,3) by auto
  obtain h3 where h3: "mmc_spi_wait_start_block devices l 0 (s\<lparr>sys_hw := h2\<rparr>) = Some (MMC_OK, s\<lparr>sys_hw := h3\<rparr>)"
    "sent h3 = ?x" "got h3 = p"
    using start_block_at [of devices hw reply sent got "s\<lparr>sys_hw := h2\<rparr>" b l 0] assms(1) h2 ab by auto
  obtain h4 where "mmc_read devices l buf (read_block_size i) (s\<lparr>sys_hw := h3\<rparr>) =
      Some (overwrite 0 (map (reply ?x) [p + k ..< p + k + unat (read_block_size i)]) buf, s\<lparr>sys_hw := h4\<rparr>)"
    "sent h4 = ?x"
    using mmc_read_at [of devices hw reply sent got "s\<lparr>sys_hw := h3\<rparr>" k "read_block_size i" buf l] assms h3 by auto
  moreover have "MMC_OK \<noteq> MMC_ERROR" by (simp add: MMC_OK_def MMC_ERROR_def)
  ultimately show ?thesis
    using h1(1) h2(1) h3(1) by (intro exI [of _ h4]) (simp add: mmc_read_sector_def)
qed

lemma write_sector_at:
  assumes "card_on devices hw reply sent got (spi_node s)"
    and "status_ok (reply (sent (sys_hw s) @ mmc_frame MMC_CMD24 (sector * write_block_size i)))"
    and "unat (write_block_size i) \<le> length buf" "length buf < 2 ^ 31"
  shows "\<exists>h'. mmc_write_sector devices l i buf sector s = Some (MMC_OK, s\<lparr>sys_hw := h'\<rparr>) \<and>
    sent h' = sent (sys_hw s) @ mmc_frame MMC_CMD24 (sector * write_block_size i) @ [0xFF, 0xFE] @
      take (unat (write_block_size i)) buf"
proof -
  let ?x = "sent (sys_hw s) @ mmc_frame MMC_CMD24 (sector * write_block_size i)"
  obtain a where a: "\<forall>j < a. reply ?x j = 0xFF" "reply ?x a = 0"
    using assms(2) unfolding status_ok_def by blast
  obtain h1 where h1: "mmc_send_cmd devices MMC_CMD24 (sector * write_block_size i) s = Some (s\<lparr>sys_hw := h1\<rparr>)"
    "sent h1 = ?x" "got h1 = 0"
    using mmc_send_cmd_at [OF assms(1)] by blast
  obtain h2 where h2: "mmc_spi_read_status devices l (s\<lparr>sys_hw := h1\<rparr>) = Some (0, s\<lparr>sys_hw := h2\<rparr>)" "sent h2 = ?x"
    using read_status_at [of devices hw reply sent got "s\<lparr>sys_hw := h1\<rparr>" a l] assms(1) h1 a by auto
  obtain h3 where h3: "mmc_send devices [0xFF, 0xFE] 2 (s\<lparr>sys_hw := h2\<rparr>) = Some (s\<lparr>sys_hw := h3\<rparr>)"
    "sent h3 = ?x @ [0xFF, 0xFE]"
    using mmc_send_at [of devices hw reply sent got "s\<lparr>sys_hw := h2\<rparr>" 2 "[0xFF, 0xFE]"] assms(1) h2(2) by auto
  obtain h4 where "mmc_send devices buf (write_block_size i) (s\<lparr>sys_hw := h3\<rparr>) = Some (s\<lparr>sys_hw := h4\<rparr>)"
    "sent h4 = ?x @ [0xFF, 0xFE] @ take (unat (write_block_size i)) buf"
    using mmc_send_at [of devices hw reply sent got "s\<lparr>sys_hw := h3\<rparr>" "write_block_size i" buf] assms h3(2) by auto
  then show ?thesis
    using h1(1) h2(1) h3(1) by (intro exI [of _ h4]) (simp add: mmc_write_sector_def)
qed

section \<open>The copies between a block and a descriptor\<close>

lemma recv_all_buf_get:
  "i + n \<le> length buf \<Longrightarrow> recv_all (\<lambda>_. buf_get) n (buf, i) = Some (take n (drop i buf), (buf, i + n))"
  by (induction n arbitrary: i) (simp_all add: buf_get_def Cons_nth_drop_Suc [symmetric])

lemma send_all_buf_put:
  "i + length bs \<le> length buf \<Longrightarrow> send_all buf_put bs (buf, i) = Some (overwrite i bs buf, i + length bs)"
proof (induction bs arbitrary: i buf)
  case (Cons b bs)
  then show ?case by (simp add: buf_put_def drop_overwrite)
qed (simp add: overwrite_def)

section \<open>Transfers\<close>

text \<open>Where a transfer of \<open>n\<close> bytes lies: inside one sector, in the buffer of the driver.\<close>

definition in_sector :: "mmc_info \<Rightarrow> node \<Rightarrow> nat \<Rightarrow> bool" where
  "in_sector i v n \<longleftrightarrow> data v = Mmc_data i \<and> 0 < unat (read_block_size i) \<and>
     unat (read_block_size i) \<le> MAX_BLOCK_LENGTH \<and> 0 < n \<and>
     unat (offset v mod read_block_size i) + n \<le> unat (read_block_size i)"

lemma mmc_position_in_sector:
  assumes "in_sector i v (unat (uio_resid u))"
  shows "mmc_position i v u = Some (offset v div read_block_size i, offset v mod read_block_size i, True)"
proof -
  let ?o = "offset v mod read_block_size i"
  have le: "unat ?o + unat (uio_resid u) \<le> unat (read_block_size i)" "unat (read_block_size i) \<le> 512"
    using assms by (simp_all add: in_sector_def MAX_BLOCK_LENGTH_def)
  then have "unat (uio_resid u + ?o) = unat (uio_resid u) + unat ?o"
    by (intro unat_add_lem [THEN iffD1]) simp
  then have "\<not> read_block_size i < uio_resid u + ?o"
    using le by (simp add: word_less_nat_alt)
  then show ?thesis
    using assms by (auto simp: mmc_position_def in_sector_def)
qed

text \<open>The bytes of the block a read leaves in the buffer: the leading idle bytes are skipped.\<close>

definition sector_cmd :: "u8 \<Rightarrow> u32 \<Rightarrow> node \<Rightarrow> u8 list" where
  "sector_cmd cmd bl v = mmc_frame cmd (offset v div bl * bl)"

lemma mmc_spi_read_at:
  assumes "card_on devices hw reply sent got (spi_node s)"
    and "in_sector i v (unat (uio_resid u))" "uio_in_bounds u" "uio_rw u = UIO_READ"
    and "block_at (reply (sent (sys_hw s) @ sector_cmd MMC_CMD17 (read_block_size i) v)) p"
    and "\<forall>j < k. reply (sent (sys_hw s) @ sector_cmd MMC_CMD17 (read_block_size i) v) (p + j) = 0xFF"
    and "reply (sent (sys_hw s) @ sector_cmd MMC_CMD17 (read_block_size i) v) (p + k) \<noteq> 0xFF"
  shows "\<exists>h'. mmc_spi_read devices l v u s = Some (0, v, uio_done
      (map (\<lambda>j. reply (sent (sys_hw s) @ sector_cmd MMC_CMD17 (read_block_size i) v)
          (p + k + unat (offset v mod read_block_size i) + j)) [0 ..< unat (uio_resid u)]) u, s\<lparr>sys_hw := h'\<rparr>) \<and>
    sent h' = sent (sys_hw s) @ sector_cmd MMC_CMD17 (read_block_size i) v"
proof -
  let ?x = "sent (sys_hw s) @ sector_cmd MMC_CMD17 (read_block_size i) v"
  let ?n = "unat (uio_resid u)" and ?b = "unat (read_block_size i)" and ?o = "unat (offset v mod read_block_size i)"
  let ?buf = "overwrite 0 (map (reply ?x) [p + k ..< p + k + ?b]) (l_array l MAX_BLOCK_LENGTH)"
  note fit = assms(2) [unfolded in_sector_def]
  obtain h' where h': "mmc_read_sector devices l i (l_array l MAX_BLOCK_LENGTH) (offset v div read_block_size i) s =
      Some (MMC_OK, ?buf, s\<lparr>sys_hw := h'\<rparr>)" "sent h' = ?x"
    using read_sector_at [OF assms(1), of "offset v div read_block_size i" i p k "l_array l MAX_BLOCK_LENGTH" l]
      assms(5-7) fit by (auto simp: sector_cmd_def l_array_def MAX_BLOCK_LENGTH_def)
  have bl: "?b \<le> length (l_array l MAX_BLOCK_LENGTH)" using fit by (simp add: l_array_def)
  then have lb: "length ?buf = length (l_array l MAX_BLOCK_LENGTH)"
    by (intro length_overwrite) simp
  have room: "?n \<le> length ?buf - ?o" using lb bl fit by linarith
  have t: "take ?n (drop ?o ?buf) = map (\<lambda>j. reply ?x (p + k + ?o + j)) [0 ..< ?n]"
  proof (rule nth_equalityI)
    show "length (take ?n (drop ?o ?buf)) = length (map (\<lambda>j. reply ?x (p + k + ?o + j)) [0 ..< ?n])"
      using room by simp
    fix j assume "j < length (take ?n (drop ?o ?buf))"
    then have j: "j < ?n" by simp
    then show "take ?n (drop ?o ?buf) ! j = map (\<lambda>j. reply ?x (p + k + ?o + j)) [0 ..< ?n] ! j"
      using lb bl fit by (simp add: overwrite_def nth_append add.assoc)
  qed
  have "read_loop (\<lambda>_. buf_get) (iov_base (uio_iov u)) u (?buf, ?o) =
      Some (uio_done (take ?n (drop ?o ?buf)) u, (?buf, ?o + ?n))"
    using read_loop_spec [of u "iov_base (uio_iov u)" "\<lambda>_. buf_get" "(?buf, ?o)"] assms(3)
      recv_all_buf_get [of ?o ?n ?buf] lb bl fit
    by (simp add: uio_in_bounds_def uio_done_def)
  then show ?thesis
    using h' fit assms(4) mmc_position_in_sector [OF assms(2)]
    by (intro exI [of _ h']) (simp add: mmc_spi_read_def mmc_data_def t)
qed

lemma dev_read_once:
  assumes "driver devices v = Some ops" "0 < unat count" "unat count < 2 ^ 31"
    and "d_read ops v \<lparr>uio_iov = \<lparr>iov_obj = ptr, iov_base = 0, iov_len = 0\<rparr>, uio_resid = count, uio_rw = UIO_READ\<rparr> s
      = Some (r, v', uio_done bs \<lparr>uio_iov = \<lparr>iov_obj = ptr, iov_base = 0, iov_len = 0\<rparr>, uio_resid = count, uio_rw = UIO_READ\<rparr>, s')"
  shows "dev_read devices ptr count v s = Some (count, overwrite 0 bs ptr, v', s')"
proof -
  have "dev_read_loop ops count v' u' s' = Some (v', u', s')" if "uio_resid u' = 0" for v' u' s'
    using that by (simp add: dev_read_loop.simps [of ops count v' u'] cless_0)
  then show ?thesis
    using assms by (auto simp: dev_read_def dev_read_loop.simps [of ops count v] cless_0 uio_done_def)
qed

lemma mmc_read_block:
  assumes "card_on devices hw reply sent got (spi_node s)" "driver table v = Some (mmc devices l)"
    and "in_sector i v (unat count)" "unat count \<le> length ptr"
    and "block_at (reply (sent (sys_hw s) @ sector_cmd MMC_CMD17 (read_block_size i) v)) p"
    and "\<forall>j < k. reply (sent (sys_hw s) @ sector_cmd MMC_CMD17 (read_block_size i) v) (p + j) = 0xFF"
    and "reply (sent (sys_hw s) @ sector_cmd MMC_CMD17 (read_block_size i) v) (p + k) \<noteq> 0xFF"
  shows "\<exists>h'. dev_read table ptr count v s = Some (count, overwrite 0
      (map (\<lambda>j. reply (sent (sys_hw s) @ sector_cmd MMC_CMD17 (read_block_size i) v)
          (p + k + unat (offset v mod read_block_size i) + j)) [0 ..< unat count]) ptr, v, s\<lparr>sys_hw := h'\<rparr>) \<and>
    sent h' = sent (sys_hw s) @ sector_cmd MMC_CMD17 (read_block_size i) v"
proof -
  let ?u = "\<lparr>uio_iov = \<lparr>iov_obj = ptr, iov_base = 0, iov_len = 0\<rparr>, uio_resid = count, uio_rw = UIO_READ\<rparr>"
  have n: "0 < unat count" "unat count < 2 ^ 31"
    using assms(3) by (simp_all add: in_sector_def MAX_BLOCK_LENGTH_def)
  have "\<exists>h'. mmc_spi_read devices l v ?u s = Some (0, v, uio_done
      (map (\<lambda>j. reply (sent (sys_hw s) @ sector_cmd MMC_CMD17 (read_block_size i) v)
          (p + k + unat (offset v mod read_block_size i) + j)) [0 ..< unat (uio_resid ?u)]) ?u, s\<lparr>sys_hw := h'\<rparr>) \<and>
    sent h' = sent (sys_hw s) @ sector_cmd MMC_CMD17 (read_block_size i) v"
    using assms n by (intro mmc_spi_read_at) (simp_all add: uio_in_bounds_def)
  then show ?thesis
    using dev_read_once [OF assms(2) n, of ptr s 0 v] by (auto simp: mmc_def)
qed

text \<open>
  C27: reading from a card with a block size from 1 to 512, the size of the driver's buffer (a
  larger block overflows it and is not covered). For a transfer of at least one byte inside one
  block, into a buffer that is large enough, and a card that answers the read command with the block the
  sector holds, a block that does not begin with the idle byte 0xFF (see
  \<open>mmc_read_skips_idle_bytes\<close> for one that does): the
  read returns the number of bytes asked for, the caller's buffer holds the bytes of the block
  from the offset on, one command is sent, for the sector the position is in, and nothing but
  the hardware changes.
\<close>

theorem mmc_read_returns_block:
  assumes "card_on devices hw reply sent got (spi_node s)" "driver table v = Some (mmc devices l)"
    and "in_sector i v (unat count)" "unat count \<le> length ptr"
    and "block_at (reply (sent (sys_hw s) @ sector_cmd MMC_CMD17 (read_block_size i) v)) p"
    and "length block = unat (read_block_size i)" "block ! 0 \<noteq> 0xFF"
    and "\<forall>j < length block. reply (sent (sys_hw s) @ sector_cmd MMC_CMD17 (read_block_size i) v) (p + j) = block ! j"
  shows "\<exists>h'. dev_read table ptr count v s = Some (count,
      overwrite 0 (take (unat count) (drop (unat (offset v mod read_block_size i)) block)) ptr, v, s\<lparr>sys_hw := h'\<rparr>) \<and>
    sent h' = sent (sys_hw s) @ sector_cmd MMC_CMD17 (read_block_size i) v"
proof -
  let ?r = "reply (sent (sys_hw s) @ sector_cmd MMC_CMD17 (read_block_size i) v)"
  let ?o = "unat (offset v mod read_block_size i)"
  have fit: "0 < length block" "?o + unat count \<le> length block" using assms(3,6) by (simp_all add: in_sector_def)
  have "map (\<lambda>j. ?r (p + 0 + ?o + j)) [0 ..< unat count] = take (unat count) (drop ?o block)"
    using assms(8) fit(2) by (intro nth_equalityI) (auto simp: add.assoc)
  moreover have "?r (p + 0) \<noteq> 0xFF" using assms(7,8) fit(1) by (metis add.right_neutral)
  ultimately show ?thesis
    using mmc_read_block [OF assms(1-5), of 0] by simp
qed

lemma demo_block_at:
  assumes "length xs \<noteq> 6"
  shows "block_at (demo_reply block xs) 4"
  unfolding block_at_def
  using assms by (intro exI [of _ "1 :: nat"]) (simp add: demo_reply_def)

lemma demo_in_sector: "in_sector demo_info demo_card (unat (3 :: u32))"
  unfolding in_sector_def demo_position(1)
  by (simp add: demo_info_def demo_card_def MAX_BLOCK_LENGTH_def)

lemma length_demo_cmd: "length (ds_sent (sys_hw demo_mmc_sys) @ sector_cmd cmd bl v) = 7"
  by (simp add: demo_mmc_sys_def sector_cmd_def)

theorem mmc_read_returns_block_witness:
  "\<exists>h'. dev_read (demo_mmc_table [10, 11, 12, 13, 14, 15, 16, 17]) [0, 0, 0, 0] 3 demo_card demo_mmc_sys =
      Some (3, [15, 16, 17, 0], demo_card, demo_mmc_sys\<lparr>sys_hw := h'\<rparr>)"
proof -
  let ?block = "[10, 11, 12, 13, 14, 15, 16, 17] :: u8 list"
  have "\<exists>h'. dev_read (demo_mmc_table ?block) [0, 0, 0, 0] 3 demo_card demo_mmc_sys = Some (3,
      overwrite 0 (take (unat (3 :: u32)) (drop (unat (offset demo_card mod read_block_size demo_info)) ?block))
        [0, 0, 0, 0], demo_card, demo_mmc_sys\<lparr>sys_hw := h'\<rparr>) \<and>
    ds_sent h' = ds_sent (sys_hw demo_mmc_sys) @ sector_cmd MMC_CMD17 (read_block_size demo_info) demo_card"
  proof (rule mmc_read_returns_block [OF demo_card_on demo_mmc_driver demo_in_sector])
    show "block_at (demo_reply ?block (ds_sent (sys_hw demo_mmc_sys) @
        sector_cmd MMC_CMD17 (read_block_size demo_info) demo_card)) 4"
      by (rule demo_block_at) (simp only: length_demo_cmd)
    show "\<forall>j < length ?block. demo_reply ?block (ds_sent (sys_hw demo_mmc_sys) @
        sector_cmd MMC_CMD17 (read_block_size demo_info) demo_card) (4 + j) = ?block ! j"
      using length_demo_cmd by (simp add: demo_reply_def)
  qed (simp_all add: demo_info_def)
  then show ?thesis unfolding demo_position by (auto simp: overwrite_def)
qed

text \<open>
  Reading a block that begins with idle bytes. The bytes 0xFF at the start of a block are
  taken for the card being busy and skipped: with \<open>k\<close> of them, the read returns the bytes \<open>k\<close> places
  further on than the ones asked for, and reports success.
\<close>

theorem mmc_read_skips_idle_bytes:
  assumes "card_on devices hw reply sent got (spi_node s)" "driver table v = Some (mmc devices l)"
    and "in_sector i v (unat count)" "unat count \<le> length ptr"
    and "block_at (reply (sent (sys_hw s) @ sector_cmd MMC_CMD17 (read_block_size i) v)) p"
    and "length block = unat (read_block_size i)" "\<forall>j < k. block ! j = 0xFF" "block ! k \<noteq> 0xFF"
    and "\<forall>j < length block. reply (sent (sys_hw s) @ sector_cmd MMC_CMD17 (read_block_size i) v) (p + j) = block ! j"
    and "unat (offset v mod read_block_size i) + k + unat count \<le> length block"
  shows "\<exists>h'. dev_read table ptr count v s = Some (count,
      overwrite 0 (take (unat count) (drop (unat (offset v mod read_block_size i) + k) block)) ptr, v, s\<lparr>sys_hw := h'\<rparr>)"
proof -
  let ?r = "reply (sent (sys_hw s) @ sector_cmd MMC_CMD17 (read_block_size i) v)"
  let ?o = "unat (offset v mod read_block_size i)"
  have k: "k < length block" using assms(3,10) by (simp add: in_sector_def)
  have "map (\<lambda>j. ?r (p + k + ?o + j)) [0 ..< unat count] = take (unat count) (drop (?o + k) block)"
  proof (rule nth_equalityI)
    fix j assume "j < length (map (\<lambda>j. ?r (p + k + ?o + j)) [0 ..< unat count])"
    then show "map (\<lambda>j. ?r (p + k + ?o + j)) [0 ..< unat count] ! j = take (unat count) (drop (?o + k) block) ! j"
      using assms(9) [rule_format, of "?o + k + j"] assms(10) by (simp add: ac_simps)
  qed (use assms(10) in simp)
  moreover have "?r (p + k) \<noteq> 0xFF" "\<forall>j < k. ?r (p + j) = 0xFF"
    using assms(7-9) k by auto
  ultimately show ?thesis
    using mmc_read_block [OF assms(1-5), of k] by auto
qed

theorem mmc_read_skips_idle_bytes_witness:
  "\<exists>h'. dev_read (demo_mmc_table [0xFF, 11, 12, 13, 14, 15, 16, 17]) [0, 0] 2 demo_card demo_mmc_sys =
      Some (2, [16, 17], demo_card, demo_mmc_sys\<lparr>sys_hw := h'\<rparr>)"
proof -
  let ?block = "[0xFF, 11, 12, 13, 14, 15, 16, 17] :: u8 list"
  have "in_sector demo_info demo_card (unat (2 :: u32))"
    unfolding in_sector_def demo_position(1)
    by (simp add: demo_info_def demo_card_def MAX_BLOCK_LENGTH_def)
  then have "\<exists>h'. dev_read (demo_mmc_table ?block) [0, 0] 2 demo_card demo_mmc_sys = Some (2,
      overwrite 0 (take (unat (2 :: u32)) (drop (unat (offset demo_card mod read_block_size demo_info) + 1) ?block))
        [0, 0], demo_card, demo_mmc_sys\<lparr>sys_hw := h'\<rparr>)"
  proof (rule mmc_read_skips_idle_bytes [OF demo_card_on demo_mmc_driver])
    show "block_at (demo_reply ?block (ds_sent (sys_hw demo_mmc_sys) @
        sector_cmd MMC_CMD17 (read_block_size demo_info) demo_card)) 4"
      by (rule demo_block_at) (simp only: length_demo_cmd)
    show "\<forall>j < length ?block. demo_reply ?block (ds_sent (sys_hw demo_mmc_sys) @
        sector_cmd MMC_CMD17 (read_block_size demo_info) demo_card) (4 + j) = ?block ! j"
      using length_demo_cmd by (simp add: demo_reply_def)
    show "unat (offset demo_card mod read_block_size demo_info) + 1 + unat (2 :: u32) \<le> length ?block"
      unfolding demo_position by simp
  qed (simp_all add: demo_info_def)
  then show ?thesis unfolding demo_position by (auto simp: overwrite_def)
qed

text \<open>
  C28: writing to a card with equal read and write block sizes from 1 to 512, the size of the driver's
  buffer (a larger block overflows it and is not covered). For a transfer of at least one byte inside one block, out of
  a buffer that holds it, to a card that answers the read command with its block, a block that does not
  begin with the idle byte 0xFF (the driver would read it shifted, and write it back so), and that accepts
  the write command: what goes over the bus is the read command, the write command for the same sector, the
  start byte and the block with the caller's bytes put in at the offset; the write reports all
  bytes written, and nothing but the hardware changes.
\<close>

theorem mmc_write_updates_block:
  assumes "card_on devices hw reply sent got (spi_node s)" "driver table v = Some (mmc devices l)"
    and "in_sector i v (unat count)" "unat count \<le> length ptr" "write_block_size i = read_block_size i"
    and "block_at (reply (sent (sys_hw s) @ sector_cmd MMC_CMD17 (read_block_size i) v)) p"
    and "length block = unat (read_block_size i)" "block ! 0 \<noteq> 0xFF"
    and "\<forall>j < length block. reply (sent (sys_hw s) @ sector_cmd MMC_CMD17 (read_block_size i) v) (p + j) = block ! j"
    and "status_ok (reply (sent (sys_hw s) @ sector_cmd MMC_CMD17 (read_block_size i) v @
          sector_cmd MMC_CMD24 (read_block_size i) v))"
  shows "\<exists>h'. dev_write table ptr count v s = Some (count, v, s\<lparr>sys_hw := h'\<rparr>) \<and>
    sent h' = sent (sys_hw s) @ sector_cmd MMC_CMD17 (read_block_size i) v @ sector_cmd MMC_CMD24 (read_block_size i) v @
      [0xFF, 0xFE] @ overwrite (unat (offset v mod read_block_size i)) (take (unat count) ptr) block"
proof -
  let ?b = "unat (read_block_size i)" and ?o = "unat (offset v mod read_block_size i)" and ?n = "unat count"
  let ?x = "sent (sys_hw s) @ sector_cmd MMC_CMD17 (read_block_size i) v"
  let ?u = "\<lparr>uio_iov = \<lparr>iov_obj = ptr, iov_base = 0, iov_len = count\<rparr>, uio_resid = count, uio_rw = UIO_WRITE\<rparr>"
  let ?arr = "l_array l MAX_BLOCK_LENGTH"
  note fit = assms(3) [unfolded in_sector_def]
  have len: "length ?arr = 512" "?b \<le> 512" "?n < 2 ^ 31" "?o + ?n \<le> ?b"
    using fit by (simp_all add: l_array_def MAX_BLOCK_LENGTH_def)
  have "map (reply ?x) [p + 0 ..< p + 0 + ?b] = block"
    using assms(7,9) by (intro nth_equalityI) auto
  moreover have "reply ?x (p + 0) \<noteq> 0xFF" using assms(7-9) fit by (metis add.right_neutral)
  ultimately obtain h1 where h1: "mmc_read_sector devices l i ?arr (offset v div read_block_size i) s =
      Some (MMC_OK, overwrite 0 block ?arr, s\<lparr>sys_hw := h1\<rparr>)" "sent h1 = ?x"
    using read_sector_at [OF assms(1), of "offset v div read_block_size i" i p 0 ?arr l] assms(6) len fit
    by (auto simp: sector_cmd_def)
  let ?buf = "overwrite ?o (take ?n ptr) (overwrite 0 block ?arr)"
  have lb: "length (overwrite 0 block ?arr) = 512"
    using len assms(7) by (simp add: overwrite_def)
  have put: "write_loop buf_put 0 ?u (overwrite 0 block ?arr, ?o) =
      Some (?u\<lparr>uio_resid := 0\<rparr>, ?buf, ?o + ?n)"
    using write_loop_spec [of ?u 0 buf_put "(overwrite 0 block ?arr, ?o)"] assms(4) len lb
      send_all_buf_put [of ?o "take ?n ptr" "overwrite 0 block ?arr"]
    by simp
  have "take ?b ?buf = overwrite ?o (take ?n ptr) block"
    using len assms(4,7) by (simp add: overwrite_def)
  moreover obtain h2 where h2: "mmc_write_sector devices l i ?buf (offset v div read_block_size i) (s\<lparr>sys_hw := h1\<rparr>) =
      Some (MMC_OK, s\<lparr>sys_hw := h2\<rparr>)"
    "sent h2 = ?x @ sector_cmd MMC_CMD24 (read_block_size i) v @ [0xFF, 0xFE] @ take ?b ?buf"
  proof -
    have "length ?buf = 512" using lb len assms(4) by simp
    then show ?thesis
      using that write_sector_at [of devices hw reply sent got "s\<lparr>sys_hw := h1\<rparr>" "offset v div read_block_size i" i ?buf l]
        assms(1,5,10) h1(2) len by (auto simp: sector_cmd_def)
  qed
  ultimately have "mmc_spi_write devices l v ?u s = Some (0, v, ?u\<lparr>uio_resid := 0\<rparr>, s\<lparr>sys_hw := h2\<rparr>)"
    "sent h2 = ?x @ sector_cmd MMC_CMD24 (read_block_size i) v @ [0xFF, 0xFE] @ overwrite ?o (take ?n ptr) block"
    using h1(1) put fit mmc_position_in_sector [of i v ?u] assms(3)
    by (simp_all add: mmc_spi_write_def mmc_data_def)
  then show ?thesis
    using assms(2) by (intro exI [of _ h2]) (simp add: dev_write_def mmc_def)
qed

theorem mmc_write_updates_block_witness:
  "\<exists>h'. dev_write (demo_mmc_table [10, 11, 12, 13, 14, 15, 16, 17]) [1, 2, 3] 3 demo_card demo_mmc_sys =
      Some (3, demo_card, demo_mmc_sys\<lparr>sys_hw := h'\<rparr>) \<and>
    drop 14 (ds_sent h') = [0xFF, 0xFE, 10, 11, 12, 13, 14, 1, 2, 3]"
proof -
  let ?block = "[10, 11, 12, 13, 14, 15, 16, 17] :: u8 list"
  let ?c17 = "sector_cmd MMC_CMD17 (read_block_size demo_info) demo_card"
  let ?c24 = "sector_cmd MMC_CMD24 (read_block_size demo_info) demo_card"
  have "\<exists>h'. dev_write (demo_mmc_table ?block) [1, 2, 3] 3 demo_card demo_mmc_sys =
      Some (3, demo_card, demo_mmc_sys\<lparr>sys_hw := h'\<rparr>) \<and>
    ds_sent h' = ds_sent (sys_hw demo_mmc_sys) @ ?c17 @ ?c24 @ [0xFF, 0xFE] @
      overwrite (unat (offset demo_card mod read_block_size demo_info)) (take (unat (3 :: u32)) [1, 2, 3]) ?block"
  proof (rule mmc_write_updates_block [OF demo_card_on demo_mmc_driver demo_in_sector])
    show "block_at (demo_reply ?block (ds_sent (sys_hw demo_mmc_sys) @ ?c17)) 4"
      by (rule demo_block_at) (simp only: length_demo_cmd)
    show "\<forall>j < length ?block. demo_reply ?block (ds_sent (sys_hw demo_mmc_sys) @ ?c17) (4 + j) = ?block ! j"
      using length_demo_cmd by (simp add: demo_reply_def)
    show "status_ok (demo_reply ?block (ds_sent (sys_hw demo_mmc_sys) @ ?c17 @ ?c24))"
      unfolding status_ok_def
      by (rule exI [of _ 1]) (simp add: demo_reply_def sector_cmd_def)
  qed (simp_all add: demo_info_def)
  then show ?thesis
    unfolding demo_position by (auto simp: overwrite_def sector_cmd_def demo_mmc_sys_def)
qed

section \<open>Reads that never end\<close>

lemma dev_read_loop_fixed:
  assumes "dev_read_loop ops count v u s = Some res"
  shows "(\<forall>u s. uio_resid u = count \<and> uio_rw u = UIO_READ \<longrightarrow> d_read ops v u s = Some (- 1, v, u, s)) \<and>
    uio_resid u = count \<and> uio_rw u = UIO_READ \<longrightarrow> \<not> cless 0 count"
  using assms
proof (rule dev_read_loop.raw_induct
    [where P = "\<lambda>ops count v u s res. (\<forall>u s. uio_resid u = count \<and> uio_rw u = UIO_READ \<longrightarrow>
        d_read ops v u s = Some (- 1, v, u, s)) \<and> uio_resid u = count \<and> uio_rw u = UIO_READ \<longrightarrow> \<not> cless 0 count", rotated])
  fix f :: "('d, 's) dev_ops \<Rightarrow> u32 \<Rightarrow> 'd vnode \<Rightarrow> uio \<Rightarrow> 's \<Rightarrow> ('d vnode \<times> uio \<times> 's) option"
    and ops count v s res and u :: uio
  let ?stuck = "\<lambda>ops count v. \<forall>u s. uio_resid u = count \<and> uio_rw u = UIO_READ \<longrightarrow> d_read ops v u s = Some (- 1, v, u, s)"
  assume IH: "\<And>ops count v u s res. f ops count v u s = Some res \<Longrightarrow>
      ?stuck ops count v \<and> uio_resid u = count \<and> uio_rw u = UIO_READ \<longrightarrow> \<not> cless 0 count"
  let ?u = "u\<lparr>uio_iov := (uio_iov u)\<lparr>iov_base := unat (count - uio_resid u)\<rparr>\<rparr>"
  assume r: "(if cless 0 (uio_resid u)
      then Option.bind (d_read ops v ?u s) (\<lambda>(_, v', u', s'). f ops count v' u' s')
      else Some (v, u, s)) = Some res"
  show "?stuck ops count v \<and> uio_resid u = count \<and> uio_rw u = UIO_READ \<longrightarrow> \<not> cless 0 count"
  proof (intro impI notI)
    assume st: "?stuck ops count v \<and> uio_resid u = count \<and> uio_rw u = UIO_READ" and c: "cless 0 count"
    then have "d_read ops v ?u s = Some (- 1, v, ?u, s)" by simp
    with r st c have "f ops count v ?u s = Some res" by simp
    from IH [OF this] st c show False by simp
  qed
qed

text \<open>
  C40: transfers across the end of a sector. The driver refuses them, and the device switch does
  not see it: the read never returns, and the write reports that no byte was written.
\<close>

theorem mmc_across_sectors:
  assumes "driver table v = Some (mmc devices l)" "data v = Mmc_data i" "read_block_size i \<noteq> 0"
    and "read_block_size i < count + offset v mod read_block_size i" "0 < sint count"
  shows "dev_read table ptr count v s = None \<and> dev_write table ptr count v s = Some (0, v, s)"
proof (rule conjI)
  have pos: "mmc_position i v u = Some (offset v div read_block_size i, offset v mod read_block_size i, False)"
    if "uio_resid u = count" for u
    using assms(3,4) that by (simp add: mmc_position_def)
  have stuck: "mmc_spi_read devices l v u s = Some (- 1, v, u, s)" if "uio_resid u = count" "uio_rw u = UIO_READ" for u s
    using pos [OF that(1)] that(2) assms(2) by (simp add: mmc_spi_read_def mmc_data_def)
  show "dev_read table ptr count v s = None"
  proof (rule ccontr)
    assume "\<not> ?thesis"
    then obtain res where "dev_read_loop (mmc devices l) count v
        \<lparr>uio_iov = \<lparr>iov_obj = ptr, iov_base = 0, iov_len = 0\<rparr>, uio_resid = count, uio_rw = UIO_READ\<rparr> s = Some res"
      by (auto simp: dev_read_def assms(1) Option.bind_eq_None_conv)
    from dev_read_loop_fixed [OF this] show False
      using stuck assms(5) by (simp add: mmc_def cless_def)
  qed
  show "dev_write table ptr count v s = Some (0, v, s)"
    using pos assms(2) by (simp add: dev_write_def assms(1) mmc_def mmc_spi_write_def mmc_data_def)
qed

theorem mmc_across_sectors_witness:
  "dev_read (demo_mmc_table []) [0, 0, 0, 0] 4 demo_card demo_mmc_sys = None \<and>
   dev_write (demo_mmc_table []) [1, 2, 3, 4] 4 demo_card demo_mmc_sys = Some (0, demo_card, demo_mmc_sys)"
proof -
  have "data demo_card = Mmc_data demo_info" by (simp add: demo_card_def)
  moreover have "read_block_size demo_info \<noteq> 0" "0 < sint (4 :: u32)"
    "read_block_size demo_info < 4 + offset demo_card mod read_block_size demo_info"
    unfolding demo_position by (simp_all add: demo_info_def)
  ultimately show ?thesis
    using mmc_across_sectors [OF demo_mmc_driver] by simp
qed

end
