(* ===== verification/I2c_Usic.thy ===== *)
theory I2c_Usic
  imports Device_Data
begin

text \<open>
  The I2C driver of src/src/dev/i2c/ifx_usic.c, with the request codes of i2c.h. The channel
  is the build option \<open>I2C_USIC\<close> of Config.inc, CH0.
\<close>

section \<open>The driver\<close>

definition I2C_CHANNEL :: xmc_channel where
  "I2C_CHANNEL = XMC_I2C0_CH0"

definition I2C_IOCTL_SET_PEER :: u8 where
  "I2C_IOCTL_SET_PEER = 0"

definition i2c_tx_full :: "'s xmc \<Rightarrow> 's \<Rightarrow> bool \<times> 's" where
  "i2c_tx_full hw s = (case xmc_get hw (XMC_USIC_CH_TXFIFO_IsFull I2C_CHANNEL) s of
     (r, s') \<Rightarrow> (r = 1, s'))"

definition usic_i2c_send :: "'s xmc \<Rightarrow> u16 \<Rightarrow> 's \<Rightarrow> 's option" where
  "usic_i2c_send hw uwData s = do {
     s' \<leftarrow> spin (i2c_tx_full hw) s;
     Some (xmc_do hw (XMC_USIC_CH_TXFIFO_PutData I2C_CHANNEL uwData) s')
   }"

definition usic_i2c_recv :: "'s xmc \<Rightarrow> 's \<Rightarrow> u8 \<times> 's" where
  "usic_i2c_recv hw s =
     (let (r, s') = xmc_get hw (XMC_USIC_CH_RXFIFO_GetData I2C_CHANNEL) s in (ucast r, s'))"

definition usic_i2c_open :: "'s xmc \<Rightarrow> node \<Rightarrow> 's \<Rightarrow> (cint \<times> node \<times> 's) option" where
  "usic_i2c_open hw v s =
     (let cfg = \<lparr>i2c_baudrate = 100000\<rparr>
      in Some (0, v\<lparr>data := I2c_config cfg\<rparr>, xmc_run hw
           [XMC_I2C_CH_Init I2C_CHANNEL cfg,
            XMC_I2C_CH_SetInputSource I2C_CHANNEL XMC_I2C_CH_INPUT_SDA USIC0_C0_DX0_P2_1,
            XMC_I2C_CH_SetInputSource I2C_CHANNEL XMC_I2C_CH_INPUT_SCL USIC0_C0_DX1_P2_0,
            XMC_USIC_CH_RXFIFO_Configure I2C_CHANNEL 0 XMC_USIC_CH_FIFO_SIZE_16WORDS 8,
            XMC_USIC_CH_TXFIFO_Configure I2C_CHANNEL 16 XMC_USIC_CH_FIFO_SIZE_16WORDS 8,
            XMC_I2C_CH_Start I2C_CHANNEL,
            XMC_GPIO_EnableDigitalInput (2, 1),
            XMC_GPIO_EnableDigitalInput (2, 0),
            XMC_GPIO_SetMode (2, 1) XMC_GPIO_MODE_OUTPUT_OPEN_DRAIN_ALT6,
            XMC_GPIO_SetMode (2, 0) XMC_GPIO_MODE_OUTPUT_OPEN_DRAIN_ALT7] s))"

definition usic_i2c_close :: "'s xmc \<Rightarrow> node \<Rightarrow> 's \<Rightarrow> (cint \<times> node \<times> 's) option" where
  "usic_i2c_close hw v s = Some (0, v, xmc_run hw [XMC_I2C_CH_Stop I2C_CHANNEL] s)"

text \<open>The wait for the acknowledge gives up after 200 polls; \<open>timeout\<close> is a uint8_t.\<close>

function i2c_wait_ack :: "'s xmc \<Rightarrow> u32 \<Rightarrow> u8 \<Rightarrow> 's \<Rightarrow> 's" where
  "i2c_wait_ack hw statusFlag timeout s =
     (if statusFlag AND xmc_value hw XMC_I2C_CH_STATUS_FLAG_ACK_RECEIVED = 0 \<and> timeout < 200 then
        (let (statusFlag', s') = xmc_get hw (XMC_I2C_CH_GetStatusFlag I2C_CHANNEL) s
         in i2c_wait_ack hw statusFlag' (timeout + 1) s')
      else s)"
  by pat_completeness auto
termination
proof (relation "measure (\<lambda>(hw, f, t, s). 200 - unat t)")
  fix hw :: "'s xmc" and f and t :: u8 and s x g s1
  assume "f AND xmc_value hw XMC_I2C_CH_STATUS_FLAG_ACK_RECEIVED = 0 \<and> t < 200"
  then have a: "t < 200" by (rule conjunct2)
  have "unat t < 200" using a by (simp add: word_less_nat_alt)
  with unat_Suc_less [OF a] show "((hw, g, t + 1, s1), hw, f, t, s) \<in> measure (\<lambda>(hw, f, t, s). 200 - unat t)" by simp
qed simp

declare i2c_wait_ack.simps [simp del]

definition usic_i2c_write :: "'s xmc \<Rightarrow> node \<Rightarrow> uio \<Rightarrow> 's \<Rightarrow> (cint \<times> node \<times> uio \<times> 's) option" where
  "usic_i2c_write hw v u s =
     (let s1 = xmc_do hw (XMC_I2C_CH_MasterStart I2C_CHANNEL (endpt v) XMC_I2C_CH_CMD_WRITE) s;
          s2 = i2c_wait_ack hw 0 0 s1;
          s3 = xmc_do hw (XMC_I2C_CH_ClearStatusFlag I2C_CHANNEL
                 (xmc_value hw XMC_I2C_CH_STATUS_FLAG_ACK_RECEIVED)) s2
      in do {
        (u', s4) \<leftarrow> write_loop (\<lambda>b. usic_i2c_send hw (ucast b)) (iov_base (uio_iov u)) u s3;
        Some (0, v, u', xmc_do hw (XMC_I2C_CH_MasterStop I2C_CHANNEL) s4)
      })"

definition i2c_rx_flags :: "'s xmc \<Rightarrow> u32" where
  "i2c_rx_flags hw = xmc_value hw XMC_I2C_CH_STATUS_FLAG_RECEIVE_INDICATION OR
     xmc_value hw XMC_I2C_CH_STATUS_FLAG_ALTERNATIVE_RECEIVE_INDICATION"

definition i2c_receiving :: "'s xmc \<Rightarrow> 's \<Rightarrow> bool \<times> 's" where
  "i2c_receiving hw s = (case xmc_get hw (XMC_I2C_CH_GetStatusFlag I2C_CHANNEL) s of
     (r, s') \<Rightarrow> (r AND i2c_rx_flags hw = 0, s'))"

text \<open>The body of the read loop, with \<open>resid\<close> bytes to go.\<close>

definition i2c_recv_step :: "'s xmc \<Rightarrow> cint \<Rightarrow> 's \<Rightarrow> (u8 \<times> 's) option" where
  "i2c_recv_step hw resid s = do {
     s1 \<leftarrow> spin (i2c_receiving hw)
            (if cless 1 resid then xmc_do hw (XMC_I2C_CH_MasterReceiveAck I2C_CHANNEL) s
             else xmc_do hw (XMC_I2C_CH_MasterReceiveNack I2C_CHANNEL) s);
     Some (usic_i2c_recv hw (xmc_do hw (XMC_I2C_CH_ClearStatusFlag I2C_CHANNEL (i2c_rx_flags hw)) s1))
   }"

definition usic_i2c_read :: "'s xmc \<Rightarrow> node \<Rightarrow> uio \<Rightarrow> 's \<Rightarrow> (cint \<times> node \<times> uio \<times> 's) option" where
  "usic_i2c_read hw v u s = do {
     (u', s1) \<leftarrow> read_loop (i2c_recv_step hw) (iov_base (uio_iov u)) u
            (xmc_do hw (XMC_I2C_CH_MasterStart I2C_CHANNEL (endpt v) XMC_I2C_CH_CMD_READ) s);
     Some (0, v, u', xmc_do hw (XMC_I2C_CH_MasterStop I2C_CHANNEL) s1)
   }"

definition usic_i2c_ioctl :: "node \<Rightarrow> u8 \<Rightarrow> ioctl_data \<Rightarrow> 's \<Rightarrow> (cint \<times> node \<times> ioctl_data \<times> 's) option" where
  "usic_i2c_ioctl v code d s =
     (if code = I2C_IOCTL_SET_PEER then
        (case d of Int_data a \<Rightarrow> Some (0, v\<lparr>endpt := a\<rparr>, d, s) | _ \<Rightarrow> None)
      else Some (0, v, d, s))"

definition i2c :: "'s xmc \<Rightarrow> (node_data, 's) dev_ops" where
  "i2c hw =
     \<lparr>d_open = usic_i2c_open hw, d_close = usic_i2c_close hw,
      d_read = usic_i2c_read hw, d_write = usic_i2c_write hw, d_ioctl = usic_i2c_ioctl\<rparr>"

section \<open>The driver keeps the contract\<close>

text \<open>A bus transaction that reads, and one that writes.\<close>

definition i2c_fetch :: "'s xmc \<Rightarrow> node \<Rightarrow> nat \<Rightarrow> 's \<Rightarrow> (u8 list \<times> 's) option" where
  "i2c_fetch hw v n s = map_option (\<lambda>(bs, s'). (bs, xmc_do hw (XMC_I2C_CH_MasterStop I2C_CHANNEL) s'))
     (recv_all (i2c_recv_step hw) n
       (xmc_do hw (XMC_I2C_CH_MasterStart I2C_CHANNEL (endpt v) XMC_I2C_CH_CMD_READ) s))"

definition i2c_address :: "'s xmc \<Rightarrow> cint \<Rightarrow> 's \<Rightarrow> 's" where
  "i2c_address hw addr s =
     xmc_do hw (XMC_I2C_CH_ClearStatusFlag I2C_CHANNEL
         (xmc_value hw XMC_I2C_CH_STATUS_FLAG_ACK_RECEIVED))
       (i2c_wait_ack hw 0 0
         (xmc_do hw (XMC_I2C_CH_MasterStart I2C_CHANNEL addr XMC_I2C_CH_CMD_WRITE) s))"

definition i2c_emit :: "'s xmc \<Rightarrow> node \<Rightarrow> u8 list \<Rightarrow> 's \<Rightarrow> 's option" where
  "i2c_emit hw v bs s = map_option (xmc_do hw (XMC_I2C_CH_MasterStop I2C_CHANNEL))
     (send_all (\<lambda>b. usic_i2c_send hw (ucast b)) bs (i2c_address hw (endpt v) s))"

interpretation i2c_stream: stream_device "usic_i2c_read hw" "usic_i2c_write hw"
    "i2c_fetch hw" "i2c_emit hw"
proof
  fix u :: uio and v s
  assume u: "uio_in_bounds u"
  show "usic_i2c_write hw v u s =
      map_option (\<lambda>s'. (0, v, u\<lparr>uio_resid := 0\<rparr>, s')) (i2c_emit hw v (uio_bytes u) s)"
  proof -
    let ?s = "i2c_address hw (endpt v) s" and ?send = "\<lambda>b. usic_i2c_send hw (ucast b)"
    show ?thesis
      using u write_loop_spec [of u "iov_base (uio_iov u)" ?send ?s]
      by (cases "send_all ?send (uio_bytes u) ?s")
        (simp_all add: usic_i2c_write_def i2c_emit_def i2c_address_def uio_in_bounds_def
          uio_bytes_def Let_def)
  qed
  show "usic_i2c_read hw v u s =
      map_option (\<lambda>(bs, s'). (0, v, uio_done bs u, s')) (i2c_fetch hw v (unat (uio_resid u)) s)"
  proof -
    let ?s = "xmc_do hw (XMC_I2C_CH_MasterStart I2C_CHANNEL (endpt v) XMC_I2C_CH_CMD_READ) s"
    show ?thesis
      using u read_loop_spec [of u "iov_base (uio_iov u)" "i2c_recv_step hw" ?s]
      by (cases "recv_all (i2c_recv_step hw) (unat (uio_resid u)) ?s")
        (auto simp: usic_i2c_read_def i2c_fetch_def uio_in_bounds_def uio_done_def)
  qed
next
  fix v n s bs s'
  show "i2c_fetch hw v n s = Some (bs, s') \<Longrightarrow> length bs = n"
    by (auto simp: i2c_fetch_def recv_all_length)
qed

lemma i2c_wait_ack_log: "xmc_log hw log \<Longrightarrow> log (i2c_wait_ack hw f t s) = log s"
proof (induction hw f t s rule: i2c_wait_ack.induct)
  case (1 hw f t s)
  obtain f' s' where q: "xmc_get hw (XMC_I2C_CH_GetStatusFlag I2C_CHANNEL) s = (f', s')" by fastforce
  then show ?case
    using 1 xmc_log_get [OF 1(2) q] by (subst i2c_wait_ack.simps) simp
qed

section \<open>Bus transactions\<close>

text \<open>
  A bus whose polls come to an end: the transmit FIFO drains, and a received byte is
  signalled.
\<close>

definition i2c_live :: "'s xmc \<Rightarrow> bool" where
  "i2c_live hw \<longleftrightarrow> (\<forall>s. \<exists>s'. settles (i2c_tx_full hw) s s') \<and> (\<forall>s. \<exists>s'. settles (i2c_receiving hw) s s')"

lemma spin_log:
  assumes "\<And>s. log (snd (busy s)) = log s" "\<exists>s'. settles busy s s'"
  obtains s' where "spin busy s = Some s'" "log s' = log s"
proof -
  obtain s' where s': "spin busy s = Some s'" using assms(2) by (auto simp: spin_settles)
  moreover have "log s' = log s"
    using spin_keeps [OF s', of "\<lambda>t. log t = log s"] assms(1) by auto
  ultimately show ?thesis by (rule that)
qed

lemma i2c_tx_full_log: "xmc_log hw log \<Longrightarrow> log (snd (i2c_tx_full hw s)) = log s"
  by (auto simp: i2c_tx_full_def xmc_log_get split: prod.splits)

lemma i2c_receiving_log: "xmc_log hw log \<Longrightarrow> log (snd (i2c_receiving hw s)) = log s"
  by (auto simp: i2c_receiving_def xmc_log_get split: prod.splits)

lemma i2c_send_log:
  assumes "xmc_log hw log" "i2c_live hw"
  obtains s' where "usic_i2c_send hw w s = Some s'"
    "log s' = log s @ [XMC_USIC_CH_TXFIFO_PutData I2C_CHANNEL w]"
proof -
  have "\<exists>s'. settles (i2c_tx_full hw) s s'" using assms(2) by (simp add: i2c_live_def)
  then obtain s' where "spin (i2c_tx_full hw) s = Some s'" "log s' = log s"
    by (rule spin_log [where log = log and busy = "i2c_tx_full hw", OF i2c_tx_full_log [OF assms(1)]])
  then show ?thesis using that by (simp add: usic_i2c_send_def xmc_log_do [OF assms(1)])
qed

lemma i2c_send_all_log:
  assumes "xmc_log hw log" "i2c_live hw"
  shows "\<exists>s'. send_all (\<lambda>b. usic_i2c_send hw (ucast b)) bs s = Some s' \<and>
    log s' = log s @ map (\<lambda>b. XMC_USIC_CH_TXFIFO_PutData I2C_CHANNEL (ucast b)) bs"
proof (induction bs arbitrary: s)
  case (Cons b bs)
  obtain s1 where "usic_i2c_send hw (ucast b) s = Some s1"
    "log s1 = log s @ [XMC_USIC_CH_TXFIFO_PutData I2C_CHANNEL (ucast b)]"
    by (rule i2c_send_log [OF assms])
  with Cons.IH [of s1] show ?case by auto
qed simp

text \<open>The calls of a transaction that writes \<open>bs\<close> to the peer \<open>addr\<close>, and of one that reads.\<close>

definition i2c_write_calls :: "'s xmc \<Rightarrow> cint \<Rightarrow> u8 list \<Rightarrow> xmc_call list" where
  "i2c_write_calls hw addr bs =
     [XMC_I2C_CH_MasterStart I2C_CHANNEL addr XMC_I2C_CH_CMD_WRITE,
      XMC_I2C_CH_ClearStatusFlag I2C_CHANNEL (xmc_value hw XMC_I2C_CH_STATUS_FLAG_ACK_RECEIVED)]
     @ map (\<lambda>b. XMC_USIC_CH_TXFIFO_PutData I2C_CHANNEL (ucast b)) bs
     @ [XMC_I2C_CH_MasterStop I2C_CHANNEL]"

definition i2c_read_calls :: "'s xmc \<Rightarrow> cint \<Rightarrow> nat \<Rightarrow> xmc_call list" where
  "i2c_read_calls hw addr n =
     [XMC_I2C_CH_MasterStart I2C_CHANNEL addr XMC_I2C_CH_CMD_READ]
     @ concat (replicate (n - 1) [XMC_I2C_CH_MasterReceiveAck I2C_CHANNEL,
         XMC_I2C_CH_ClearStatusFlag I2C_CHANNEL (i2c_rx_flags hw)])
     @ (if n = 0 then [] else [XMC_I2C_CH_MasterReceiveNack I2C_CHANNEL,
         XMC_I2C_CH_ClearStatusFlag I2C_CHANNEL (i2c_rx_flags hw)])
     @ [XMC_I2C_CH_MasterStop I2C_CHANNEL]"

lemma i2c_emit_log:
  assumes "xmc_log hw log" "i2c_live hw"
  obtains s' where "i2c_emit hw v bs s = Some s'" "log s' = log s @ i2c_write_calls hw (endpt v) bs"
  using i2c_send_all_log [OF assms, of bs "i2c_address hw (endpt v) s"]
  by (auto simp: i2c_emit_def i2c_address_def i2c_write_calls_def xmc_log_do [OF assms(1)]
      i2c_wait_ack_log [OF assms(1)])

lemma i2c_recv_step_log:
  assumes "xmc_log hw log" "i2c_live hw"
  obtains b s' where "i2c_recv_step hw r s = Some (b, s')"
    "log s' = log s @ [if cless 1 r then XMC_I2C_CH_MasterReceiveAck I2C_CHANNEL
        else XMC_I2C_CH_MasterReceiveNack I2C_CHANNEL,
      XMC_I2C_CH_ClearStatusFlag I2C_CHANNEL (i2c_rx_flags hw)]"
proof -
  let ?c = "if cless 1 r then XMC_I2C_CH_MasterReceiveAck I2C_CHANNEL
        else XMC_I2C_CH_MasterReceiveNack I2C_CHANNEL"
  have "\<exists>s'. settles (i2c_receiving hw) (xmc_do hw ?c s) s'" using assms(2) by (simp add: i2c_live_def)
  then obtain s1 where s1: "spin (i2c_receiving hw) (xmc_do hw ?c s) = Some s1"
    "log s1 = log (xmc_do hw ?c s)"
    by (rule spin_log [where log = log and busy = "i2c_receiving hw", OF i2c_receiving_log [OF assms(1)]])
  let ?s2 = "xmc_do hw (XMC_I2C_CH_ClearStatusFlag I2C_CHANNEL (i2c_rx_flags hw)) s1"
  obtain b s' where q: "xmc_get hw (XMC_USIC_CH_RXFIFO_GetData I2C_CHANNEL) ?s2 = (b, s')" by fastforce
  have "i2c_recv_step hw r s = Some (ucast b, s')"
    using s1(1) q by (simp add: i2c_recv_step_def usic_i2c_recv_def split: if_splits)
  then show ?thesis
    using that s1(2) xmc_log_get [OF assms(1) q] by (simp add: xmc_log_do [OF assms(1)])
qed

lemma i2c_recv_all_log:
  assumes "xmc_log hw log" "i2c_live hw" "n < 2 ^ 31"
  shows "\<exists>bs s'. recv_all (i2c_recv_step hw) n s = Some (bs, s') \<and> log s' = log s
    @ concat (replicate (n - 1) [XMC_I2C_CH_MasterReceiveAck I2C_CHANNEL,
         XMC_I2C_CH_ClearStatusFlag I2C_CHANNEL (i2c_rx_flags hw)])
    @ (if n = 0 then [] else [XMC_I2C_CH_MasterReceiveNack I2C_CHANNEL,
         XMC_I2C_CH_ClearStatusFlag I2C_CHANNEL (i2c_rx_flags hw)])"
  using assms(3)
proof (induction n arbitrary: s)
  case (Suc n)
  have "cless 1 (of_nat (Suc n)) \<longleftrightarrow> n \<noteq> 0"
  proof -
    have "sint (of_nat (Suc n) :: cint) = int (Suc n)"
      using Suc.prems by (simp add: signed_of_nat signed_take_bit_int_eq_self del: of_nat_Suc)
    then show ?thesis by (auto simp: cless_def simp del: of_nat_Suc)
  qed
  moreover obtain b s1 where 1: "i2c_recv_step hw (of_nat (Suc n)) s = Some (b, s1)"
    "log s1 = log s @ [if cless 1 (of_nat (Suc n)) then XMC_I2C_CH_MasterReceiveAck I2C_CHANNEL
        else XMC_I2C_CH_MasterReceiveNack I2C_CHANNEL,
      XMC_I2C_CH_ClearStatusFlag I2C_CHANNEL (i2c_rx_flags hw)]"
    by (rule i2c_recv_step_log [OF assms(1,2)])
  moreover obtain bs s2 where 2: "recv_all (i2c_recv_step hw) n s1 = Some (bs, s2)"
    "log s2 = log s1 @ concat (replicate (n - 1) [XMC_I2C_CH_MasterReceiveAck I2C_CHANNEL,
         XMC_I2C_CH_ClearStatusFlag I2C_CHANNEL (i2c_rx_flags hw)])
    @ (if n = 0 then [] else [XMC_I2C_CH_MasterReceiveNack I2C_CHANNEL,
         XMC_I2C_CH_ClearStatusFlag I2C_CHANNEL (i2c_rx_flags hw)])"
    using Suc by fastforce
  moreover have "recv_all (i2c_recv_step hw) (Suc n) s = Some (b # bs, s2)"
    using 1(1) 2(1) by (simp del: of_nat_Suc)
  ultimately show ?case
    by (intro exI [of _ "b # bs"] exI [of _ s2], cases n) (simp_all del: of_nat_Suc recv_all.simps)
qed simp

lemma i2c_fetch_log:
  assumes "xmc_log hw log" "i2c_live hw" "n < 2 ^ 31"
  obtains bs s' where "i2c_fetch hw v n s = Some (bs, s')" "length bs = n"
    "log s' = log s @ i2c_read_calls hw (endpt v) n"
proof -
  obtain bs s1 where r: "recv_all (i2c_recv_step hw) n
      (xmc_do hw (XMC_I2C_CH_MasterStart I2C_CHANNEL (endpt v) XMC_I2C_CH_CMD_READ) s) = Some (bs, s1)"
    "log s1 @ [XMC_I2C_CH_MasterStop I2C_CHANNEL] = log s @ i2c_read_calls hw (endpt v) n"
    using i2c_recv_all_log [OF assms,
        of "xmc_do hw (XMC_I2C_CH_MasterStart I2C_CHANNEL (endpt v) XMC_I2C_CH_CMD_READ) s"]
    by (auto simp: i2c_read_calls_def xmc_log_do [OF assms(1)])
  show ?thesis
  proof (rule that)
    show "i2c_fetch hw v n s = Some (bs, xmc_do hw (XMC_I2C_CH_MasterStop I2C_CHANNEL) s1)"
      using r(1) by (simp add: i2c_fetch_def)
    show "length bs = n" using r(1) by (rule recv_all_length)
    show "log (xmc_do hw (XMC_I2C_CH_MasterStop I2C_CHANNEL) s1) =
        log s @ i2c_read_calls hw (endpt v) n"
      using r(2) by (simp add: xmc_log_do [OF assms(1)])
  qed
qed

section \<open>Properties\<close>

text \<open>
  A write over I2C is one bus transaction. If the FIFO drains, \<open>dev_write\<close> on an I2C node
  returns and reports all bytes as written; the calls it makes are a start addressed to the
  node's peer, one word per byte in order, and one stop. It makes the same calls and gives
  the same result whether or not the peer has acknowledged its address.
\<close>

theorem i2c_write_transaction:
  assumes "xmc_log hw log" "i2c_live hw" "driver devices v = Some (i2c hw)"
    and "unat count < 2 ^ 31" "unat count \<le> length ptr"
  shows "\<exists>s'. dev_write devices ptr count v s = Some (count, v, s') \<and>
    log s' = log s @ i2c_write_calls hw (endpt v) (take (unat count) ptr)"
proof -
  obtain s' where s': "i2c_emit hw v (take (unat count) ptr) s = Some s'"
    "log s' = log s @ i2c_write_calls hw (endpt v) (take (unat count) ptr)"
    by (rule i2c_emit_log [OF assms(1,2)])
  moreover have "dev_write devices ptr count v s =
      map_option (\<lambda>s'. (count, v, s')) (i2c_emit hw v (take (unat count) ptr) s)"
    using assms by (intro i2c_stream.dev_write_emits [OF assms(3)]) (simp_all add: i2c_def)
  ultimately show ?thesis by simp
qed

text \<open>A bus for the examples: the FIFO is never full, a byte is always there and nobody acknowledges.\<close>

definition demo_bus :: "xmc_call list xmc" where
  "demo_bus = \<lparr>xmc_do = (\<lambda>c s. s @ [c]), xmc_get = (\<lambda>q s. (case q of
       XMC_I2C_CH_GetStatusFlag _ \<Rightarrow> 2 | XMC_USIC_CH_RXFIFO_GetData _ \<Rightarrow> 0x42 | _ \<Rightarrow> 0, s)),
     xmc_value = (\<lambda>c. case c of XMC_I2C_CH_STATUS_FLAG_ACK_RECEIVED \<Rightarrow> 1
       | XMC_I2C_CH_STATUS_FLAG_RECEIVE_INDICATION \<Rightarrow> 2 | _ \<Rightarrow> 4)\<rparr>"

lemma demo_bus_log: "xmc_log demo_bus (\<lambda>s. s)"
  by (simp add: xmc_log_def demo_bus_def)

lemma demo_bus_live: "i2c_live demo_bus"
proof -
  have "i2c_tx_full demo_bus s = (False, s)" for s
    by (simp add: i2c_tx_full_def demo_bus_def)
  moreover have "i2c_receiving demo_bus s = (False, s)" for s
    by (simp add: i2c_receiving_def i2c_rx_flags_def demo_bus_def)
  ultimately show ?thesis unfolding i2c_live_def by (blast intro: settles_now)
qed

definition demo_bus_table :: "(node_data, xmc_call list) dev_table" where
  "demo_bus_table = driver_map DEV_I2C (i2c demo_bus) no_devices"

definition demo_bus_node :: node where
  "demo_bus_node = \<lparr>dev_type = I2C, dev_id = 0, endpt = 0xD0, offset = 0, data = No_data\<rparr>"

lemma demo_bus_driver: "driver demo_bus_table demo_bus_node = Some (i2c demo_bus)"
  unfolding demo_bus_table_def
  by (rule driver_map_same) (simp_all add: node_of_def demo_bus_node_def)

theorem i2c_write_transaction_witness:
  "\<exists>s'. dev_write demo_bus_table [7, 8] 2 demo_bus_node [] = Some (2, demo_bus_node, s') \<and>
     s' = [XMC_I2C_CH_MasterStart I2C_CHANNEL 0xD0 XMC_I2C_CH_CMD_WRITE,
           XMC_I2C_CH_ClearStatusFlag I2C_CHANNEL 1,
           XMC_USIC_CH_TXFIFO_PutData I2C_CHANNEL 7, XMC_USIC_CH_TXFIFO_PutData I2C_CHANNEL 8,
           XMC_I2C_CH_MasterStop I2C_CHANNEL]"
  using i2c_write_transaction [OF demo_bus_log demo_bus_live demo_bus_driver, of 2 "[7, 8]" "[]"]
  by (simp add: i2c_write_calls_def demo_bus_node_def demo_bus_def)

text \<open>
  C24: a read over I2C is one bus transaction. If every byte is signalled, \<open>dev_read\<close> on an I2C
  node returns with the buffer filled; the calls it makes are a start addressed to the
  node's peer, an acknowledge request for every byte but the last, which alone is answered
  with a negative acknowledge, and one stop.
\<close>

theorem i2c_read_transaction:
  assumes "xmc_log hw log" "i2c_live hw" "driver devices v = Some (i2c hw)"
    and "0 < unat count" "unat count < 2 ^ 31" "unat count \<le> length ptr"
  shows "\<exists>bs s'. dev_read devices ptr count v s = Some (count, bs @ drop (unat count) ptr, v, s') \<and>
    length bs = unat count \<and> log s' = log s @ i2c_read_calls hw (endpt v) (unat count)"
proof -
  obtain bs s' where s': "i2c_fetch hw v (unat count) s = Some (bs, s')" "length bs = unat count"
    "log s' = log s @ i2c_read_calls hw (endpt v) (unat count)"
    by (rule i2c_fetch_log [OF assms(1,2,5)])
  moreover have "dev_read devices ptr count v s =
      map_option (\<lambda>(bs, s'). (count, overwrite 0 bs ptr, v, s')) (i2c_fetch hw v (unat count) s)"
    using assms by (intro i2c_stream.dev_read_fetches [OF assms(3)]) (simp_all add: i2c_def)
  ultimately show ?thesis by (simp add: overwrite_def)
qed

theorem i2c_read_transaction_witness:
  "\<exists>bs s'. dev_read demo_bus_table [0, 0] 2 demo_bus_node [] = Some (2, bs, demo_bus_node, s') \<and>
     length bs = 2 \<and>
     s' = [XMC_I2C_CH_MasterStart I2C_CHANNEL 0xD0 XMC_I2C_CH_CMD_READ,
           XMC_I2C_CH_MasterReceiveAck I2C_CHANNEL, XMC_I2C_CH_ClearStatusFlag I2C_CHANNEL 6,
           XMC_I2C_CH_MasterReceiveNack I2C_CHANNEL, XMC_I2C_CH_ClearStatusFlag I2C_CHANNEL 6,
           XMC_I2C_CH_MasterStop I2C_CHANNEL]"
  using i2c_read_transaction [OF demo_bus_log demo_bus_live demo_bus_driver, of 2 "[0, 0]" "[]"]
  by (simp add: i2c_read_calls_def i2c_rx_flags_def demo_bus_node_def demo_bus_def)

end
