(* ===== verification/Rtc_Ds1307.thy ===== *)
theory Rtc_Ds1307
  imports I2c_Usic System_State
begin

text \<open>
  The real-time clock driver of src/src/dev/rtc/ds1307.c, with the register addresses of
  ds1307.h and the request codes of rtc.h. It talks to the chip through \<open>i2c_node\<close>. The
  table \<open>devices\<close> it calls through is an argument.
\<close>

section \<open>Binary-coded decimals\<close>

definition BCD_decimal :: "cint \<Rightarrow> cint" where
  "BCD_decimal v = (v AND 0x0F) + 10 * (drop_bit 4 (v AND 0x70))"

text \<open>\<open>%\<close> and \<open>/\<close> are those of C on int.\<close>

definition decimal_BCD :: "cint \<Rightarrow> cint" where
  "decimal_BCD v =
     ((word_of_int (cmod (sint v) 10) AND 0x0F)
      OR push_bit 4 (word_of_int (cdiv (sint v) 10) AND 0x0F))"

section \<open>The driver\<close>

definition DS1307_ADDRESS_SECONDS :: nat where "DS1307_ADDRESS_SECONDS = 0"
definition DS1307_ADDRESS_MINUTES :: nat where "DS1307_ADDRESS_MINUTES = 1"
definition DS1307_ADDRESS_HOURS :: nat where "DS1307_ADDRESS_HOURS = 2"
definition DS1307_ADDRESS_DAY_WEEK :: nat where "DS1307_ADDRESS_DAY_WEEK = 3"
definition DS1307_ADDRESS_DAY :: nat where "DS1307_ADDRESS_DAY = 4"
definition DS1307_ADDRESS_MONTH :: nat where "DS1307_ADDRESS_MONTH = 5"
definition DS1307_ADDRESS_YEAR :: nat where "DS1307_ADDRESS_YEAR = 6"

lemmas ds1307_address_defs = DS1307_ADDRESS_SECONDS_def DS1307_ADDRESS_MINUTES_def
  DS1307_ADDRESS_HOURS_def DS1307_ADDRESS_DAY_WEEK_def DS1307_ADDRESS_DAY_def
  DS1307_ADDRESS_MONTH_def DS1307_ADDRESS_YEAR_def

definition RTC_IOCTL_SET_TIME :: u8 where "RTC_IOCTL_SET_TIME = 0"
definition RTC_IOCTL_GET_TIME :: u8 where "RTC_IOCTL_GET_TIME = 1"

definition ds1307_rtc_open :: "node \<Rightarrow> 's \<Rightarrow> (cint \<times> node \<times> 's) option" where
  "ds1307_rtc_open v s = Some (0, v, s)"

definition ds1307_rtc_close :: "node \<Rightarrow> 's \<Rightarrow> (cint \<times> node \<times> 's) option" where
  "ds1307_rtc_close v s = Some (0, v, s)"

definition ds1307_rtc_write :: "node \<Rightarrow> uio \<Rightarrow> 's \<Rightarrow> (cint \<times> node \<times> uio \<times> 's) option" where
  "ds1307_rtc_write v u s = Some (0, v, u, s)"

definition ds1307_rtc_read :: "node \<Rightarrow> uio \<Rightarrow> 's \<Rightarrow> (cint \<times> node \<times> uio \<times> 's) option" where
  "ds1307_rtc_read v u s = Some (0, v, u, s)"

text \<open>\<open>buf\<close> after the assignments of \<open>RTC_IOCTL_SET_TIME\<close>: a char is the low byte of the int.\<close>

definition rtc_time_bytes :: "tm \<Rightarrow> u8 list \<Rightarrow> u8 list" where
  "rtc_time_bytes t buf =
     (((((((buf[0 := 0x00])
      [DS1307_ADDRESS_SECONDS + 1 := ucast (decimal_BCD (tm_sec t))])
      [DS1307_ADDRESS_MINUTES + 1 := ucast (decimal_BCD (tm_min t))])
      [DS1307_ADDRESS_HOURS + 1 := ucast (decimal_BCD (tm_hour t))])
      [DS1307_ADDRESS_DAY + 1 := ucast (decimal_BCD (tm_mday t))])
      [DS1307_ADDRESS_MONTH + 1 := ucast (decimal_BCD (tm_mon t))])
      [DS1307_ADDRESS_YEAR + 1 := ucast (decimal_BCD (tm_year t))])"

definition rtc_time_of :: "u8 list \<Rightarrow> tm" where
  "rtc_time_of buf =
     \<lparr>tm_sec = BCD_decimal (ucast (buf ! DS1307_ADDRESS_SECONDS)),
      tm_min = BCD_decimal (ucast (buf ! DS1307_ADDRESS_MINUTES)),
      tm_hour = BCD_decimal (ucast (buf ! DS1307_ADDRESS_HOURS)),
      tm_mday = BCD_decimal (ucast (buf ! DS1307_ADDRESS_DAY)),
      tm_mon = BCD_decimal (ucast (buf ! DS1307_ADDRESS_MONTH)),
      tm_year = BCD_decimal (ucast (buf ! DS1307_ADDRESS_YEAR))\<rparr>"

text \<open>
  The local array \<open>char buf[8]\<close> is not initialised: its bytes \<open>buf0\<close> are an argument.
\<close>

definition rtc_addr :: cint where
  "rtc_addr = push_bit 1 0x68"

definition ds1307_rtc_ioctl ::
    "(node_data, 'h sys) dev_table \<Rightarrow> u8 list \<Rightarrow> node \<Rightarrow> u8 \<Rightarrow> ioctl_data \<Rightarrow> 'h sys
      \<Rightarrow> (cint \<times> node \<times> ioctl_data \<times> 'h sys) option" where
  "ds1307_rtc_ioctl devices buf0 v code d s = do {
     (_, n, _, s1) \<leftarrow> dev_ioctl devices (i2c_node s) I2C_IOCTL_SET_PEER (Int_data rtc_addr) s;
     let s2 = s1\<lparr>i2c_node := n\<rparr>;
     if code = RTC_IOCTL_SET_TIME then
       (case d of
          Tm_data t \<Rightarrow> do {
            (_, n, s3) \<leftarrow> dev_write devices (rtc_time_bytes t buf0) 8 (i2c_node s2) s2;
            Some (0, v, d, s3\<lparr>i2c_node := n\<rparr>)
          }
        | _ \<Rightarrow> None)
     else if code = RTC_IOCTL_GET_TIME then do {
       (_, n, s3) \<leftarrow> dev_write devices (buf0[0 := 0x00]) 1 (i2c_node s2) s2;
       let s4 = s3\<lparr>i2c_node := n\<rparr>;
       (_, buf, n, s5) \<leftarrow> dev_read devices (buf0[0 := 0x00]) 7 (i2c_node s4) s4;
       case d of
         Tm_data _ \<Rightarrow> Some (0, v, Tm_data (rtc_time_of buf), s5\<lparr>i2c_node := n\<rparr>)
       | _ \<Rightarrow> None
     }
     else Some (0, v, d, s2)
   }"

definition rtc :: "(node_data, 'h sys) dev_table \<Rightarrow> u8 list \<Rightarrow> (node_data, 'h sys) dev_ops" where
  "rtc devices buf0 =
     \<lparr>d_open = ds1307_rtc_open, d_close = ds1307_rtc_close, d_read = ds1307_rtc_read,
      d_write = ds1307_rtc_write, d_ioctl = ds1307_rtc_ioctl devices buf0\<rparr>"

section \<open>What the requests do\<close>

lemma driver_endpt [simp]: "driver devices (v\<lparr>endpt := a\<rparr>) = driver devices v"
  by (simp add: driver_def)

definition rtc_peer :: "node \<Rightarrow> node" where
  "rtc_peer v = v\<lparr>endpt := rtc_addr\<rparr>"

lemma rtc_addr_eq: "rtc_addr = 0xD0"
  by code_simp

lemma endpt_rtc_peer [simp]: "endpt (rtc_peer v) = rtc_addr"
  by (simp add: rtc_peer_def)

lemma rtc_set_peer:
  assumes "driver devices (i2c_node s) = Some (i2c hw)"
  shows "dev_ioctl devices (i2c_node s) I2C_IOCTL_SET_PEER (Int_data rtc_addr) s =
    Some (0, rtc_peer (i2c_node s), Int_data rtc_addr, s)"
  using assms by (simp add: dev_ioctl_def i2c_def usic_i2c_ioctl_def rtc_peer_def)

lemma rtc_time_bytes_eq:
  assumes "length buf = 8"
  shows "rtc_time_bytes t buf = [0, ucast (decimal_BCD (tm_sec t)), ucast (decimal_BCD (tm_min t)),
    ucast (decimal_BCD (tm_hour t)), buf ! 4, ucast (decimal_BCD (tm_mday t)),
    ucast (decimal_BCD (tm_mon t)), ucast (decimal_BCD (tm_year t))]"
proof -
  from assms obtain a b c d e f g h where "buf = [a, b, c, d, e, f, g, h]"
    by (auto simp: numeral_eq_Suc length_Suc_conv)
  then show ?thesis by (simp add: rtc_time_bytes_def ds1307_address_defs)
qed

lemma rtc_set_time_eq:
  assumes "driver devices (i2c_node s) = Some (i2c hw)" "length buf0 = 8"
  shows "ds1307_rtc_ioctl devices buf0 v RTC_IOCTL_SET_TIME (Tm_data t) s =
    map_option (\<lambda>s3. (0, v, Tm_data t, s3\<lparr>i2c_node := rtc_peer (i2c_node s)\<rparr>))
      (i2c_emit hw (rtc_peer (i2c_node s)) (rtc_time_bytes t buf0)
        (s\<lparr>i2c_node := rtc_peer (i2c_node s)\<rparr>))"
proof -
  let ?n = "rtc_peer (i2c_node s)" let ?s = "s\<lparr>i2c_node := ?n\<rparr>"
  have d: "driver devices ?n = Some (i2c hw)" using assms by (simp add: rtc_peer_def)
  have "dev_write devices (rtc_time_bytes t buf0) 8 ?n ?s =
      map_option (\<lambda>s'. (8, ?n, s')) (i2c_emit hw ?n (take (unat (8 :: u32)) (rtc_time_bytes t buf0)) ?s)"
    using assms(2)
    by (intro i2c_stream.dev_write_emits [OF d]) (simp_all add: i2c_def rtc_time_bytes_eq)
  then show ?thesis
    using assms
    by (cases "i2c_emit hw ?n (rtc_time_bytes t buf0) ?s")
      (simp_all add: ds1307_rtc_ioctl_def rtc_set_peer [OF assms(1)] rtc_time_bytes_eq)
qed

lemma rtc_get_time_eq:
  assumes "driver devices (i2c_node s) = Some (i2c hw)" "length buf0 = 8"
  shows "ds1307_rtc_ioctl devices buf0 v RTC_IOCTL_GET_TIME (Tm_data t) s = do {
     s3 \<leftarrow> i2c_emit hw (rtc_peer (i2c_node s)) [0] (s\<lparr>i2c_node := rtc_peer (i2c_node s)\<rparr>);
     (bs, s5) \<leftarrow> i2c_fetch hw (rtc_peer (i2c_node s)) 7 (s3\<lparr>i2c_node := rtc_peer (i2c_node s)\<rparr>);
     Some (0, v, Tm_data (rtc_time_of bs), s5\<lparr>i2c_node := rtc_peer (i2c_node s)\<rparr>)
   }"
proof -
  let ?n = "rtc_peer (i2c_node s)" let ?s = "s\<lparr>i2c_node := ?n\<rparr>"
  have d: "driver devices ?n = Some (i2c hw)" using assms by (simp add: rtc_peer_def)
  have t: "take (unat (1 :: u32)) (buf0[0 := 0]) = [0]" using assms(2) by (cases buf0) simp_all
  have w: "dev_write devices (buf0[0 := 0]) 1 ?n ?s = map_option (\<lambda>s'. (1, ?n, s')) (i2c_emit hw ?n [0] ?s)"
    using assms(2) i2c_stream.dev_write_emits [OF d, of hw 1 "buf0[0 := 0]" ?s]
    unfolding t by (simp add: i2c_def)
  have r: "dev_read devices (buf0[0 := 0]) 7 ?n s4 =
      map_option (\<lambda>(bs, s'). (7, overwrite 0 bs (buf0[0 := 0]), ?n, s')) (i2c_fetch hw ?n 7 s4)" for s4
    using assms(2) i2c_stream.dev_read_fetches [OF d, of hw 7 "buf0[0 := 0]" s4]
    by (simp add: i2c_def)
  have o: "rtc_time_of (overwrite 0 bs xs) = rtc_time_of bs" if "length bs = 7" for bs xs
    using that by (simp add: rtc_time_of_def overwrite_def ds1307_address_defs nth_append)
  have "RTC_IOCTL_GET_TIME \<noteq> RTC_IOCTL_SET_TIME"
    by (simp add: RTC_IOCTL_GET_TIME_def RTC_IOCTL_SET_TIME_def)
  then show ?thesis
    using i2c_stream.fetch_length [of hw ?n 7]
    by (cases "i2c_emit hw ?n [0] ?s")
      (auto simp: ds1307_rtc_ioctl_def rtc_set_peer [OF assms(1)] w r o map_option_case
        split: option.splits)
qed

lemma bcd_value:
  assumes "0 \<le> sint v" "sint v < 100"
  shows "BCD_decimal (ucast (ucast (decimal_BCD v) :: u8)) = (if sint v < 80 then v else v - 80)"
proof -
  define n where "n = nat (sint v)"
  have v: "v = of_nat n" using assms by (simp add: n_def)
  have n: "n < 100" using assms by (simp add: n_def)
  have all: "\<forall>n \<in> set [0 ..< 100].
      BCD_decimal (ucast (ucast (decimal_BCD (of_nat n)) :: u8)) =
        (if n < 80 then of_nat n else of_nat n - 80 :: cint)"
    by code_simp
  from bspec [OF all, of n] n have
    "BCD_decimal (ucast (ucast (decimal_BCD v) :: u8)) = (if n < 80 then v else v - 80)"
    by (simp add: v)
  moreover have "n < 80 \<longleftrightarrow> sint v < 80" unfolding n_def using assms by linarith
  ultimately show ?thesis by simp
qed

section \<open>Properties\<close>

text \<open>
  The BCD conversions. A value from 0 to 79 written as a BCD byte is read back; a value
  from 80 to 99 is read back 80 less, because \<open>_BCD_decimal\<close> keeps only three bits of the
  tens (the years 80 to 99 of the chip come back as 0 to 19).
\<close>

theorem bcd_round_trip:
  assumes "0 \<le> sint v" "sint v < 100"
  shows "BCD_decimal (ucast (ucast (decimal_BCD v) :: u8)) = (if sint v < 80 then v else v - 80)"
  by (rule bcd_value [OF assms])

theorem bcd_round_trip_witness: "BCD_decimal (ucast (ucast (decimal_BCD 85) :: u8)) = 5"
  using bcd_round_trip [of 85] by simp

text \<open>
  Setting the time. Over a working bus, \<open>RTC_IOCTL_SET_TIME\<close> returns 0 after one bus
  transaction, a write to the chip of eight bytes: the register number 0, the seconds, minutes
  and hours in BCD, then for the day of the week whatever the uninitialised \<open>buf[4]\<close> of the
  stack holds, then the day, month and year in BCD.
\<close>

theorem rtc_set_time_transaction:
  assumes "driver devices (i2c_node s) = Some (i2c (sys_xmc hw))" "length buf0 = 8"
    and "xmc_log hw log" "i2c_live (sys_xmc hw)"
  shows "\<exists>s'. ds1307_rtc_ioctl devices buf0 v RTC_IOCTL_SET_TIME (Tm_data t) s = Some (0, v, Tm_data t, s') \<and>
    log (sys_hw s') = log (sys_hw s) @ i2c_write_calls (sys_xmc hw) 0xD0
      [0, ucast (decimal_BCD (tm_sec t)), ucast (decimal_BCD (tm_min t)),
       ucast (decimal_BCD (tm_hour t)), buf0 ! 4, ucast (decimal_BCD (tm_mday t)),
       ucast (decimal_BCD (tm_mon t)), ucast (decimal_BCD (tm_year t))]"
proof -
  let ?n = "rtc_peer (i2c_node s)"
  obtain s3 where "i2c_emit (sys_xmc hw) ?n (rtc_time_bytes t buf0) (s\<lparr>i2c_node := ?n\<rparr>) = Some s3"
    "(log \<circ> sys_hw) s3 = (log \<circ> sys_hw) (s\<lparr>i2c_node := ?n\<rparr>)
        @ i2c_write_calls (sys_xmc hw) (endpt ?n) (rtc_time_bytes t buf0)"
    by (rule i2c_emit_log [OF sys_xmc_log [OF assms(3)] assms(4)])
  then show ?thesis
    using rtc_set_time_eq [OF assms(1,2)]
    by (simp add: rtc_time_bytes_eq [OF assms(2)] rtc_addr_eq)
qed

text \<open>
  The documented behaviour of the chip on the bus, its clock standing still: a write to it
  gives the number of a register and then bytes for the registers from there on, a read
  delivers the registers from the current one on. \<open>ptr\<close> is its current register.
\<close>

definition rtc_chip :: "'s xmc \<Rightarrow> ('s \<Rightarrow> nat) \<Rightarrow> ('s \<Rightarrow> nat \<Rightarrow> u8) \<Rightarrow> bool" where
  "rtc_chip hw ptr regs \<longleftrightarrow>
     (\<forall>v a bs s. endpt v = 0xD0 \<and> unat a + length bs \<le> 64 \<longrightarrow>
        (\<exists>s'. i2c_emit hw v (a # bs) s = Some s' \<and> ptr s' = unat a + length bs \<and>
           regs s' = (\<lambda>i. if unat a \<le> i \<and> i < unat a + length bs then bs ! (i - unat a) else regs s i))) \<and>
     (\<forall>v n s. endpt v = 0xD0 \<and> ptr s + n \<le> 64 \<longrightarrow>
        (\<exists>s'. i2c_fetch hw v n s = Some (map (regs s) [ptr s ..< ptr s + n], s') \<and> regs s' = regs s))"

lemma rtc_chip_emit:
  assumes "rtc_chip hw ptr regs" "endpt v = 0xD0" "length bs \<le> 64"
  shows "\<exists>s'. i2c_emit hw v (0 # bs) s = Some s' \<and> ptr s' = length bs \<and>
    (\<forall>i. regs s' i = (if i < length bs then bs ! i else regs s i))"
proof -
  note assms(1) [unfolded rtc_chip_def, THEN conjunct1, THEN spec, THEN spec, THEN spec, THEN spec,
    THEN mp, of v 0 bs s]
  then obtain s' where "i2c_emit hw v (0 # bs) s = Some s'" "ptr s' = length bs"
    "regs s' = (\<lambda>i. if i < length bs then bs ! i else regs s i)"
    using assms(2,3) by (auto cong: if_cong)
  then show ?thesis by (intro exI [of _ s']) simp
qed

lemma rtc_chip_fetch:
  assumes "rtc_chip hw ptr regs" "endpt v = 0xD0" "ptr s + n \<le> 64"
  shows "\<exists>s'. i2c_fetch hw v n s = Some (map (regs s) [ptr s ..< ptr s + n], s') \<and> regs s' = regs s"
  by (rule assms(1) [unfolded rtc_chip_def, THEN conjunct2, rule_format, OF conjI [OF assms(2,3)]])

text \<open>A time whose fields the conversions keep.\<close>

definition tm_plain :: "tm \<Rightarrow> bool" where
  "tm_plain t \<longleftrightarrow> (\<forall>x \<in> {tm_sec t, tm_min t, tm_hour t, tm_mday t, tm_mon t, tm_year t}.
     0 \<le> sint x \<and> sint x < 80)"

lemma rtc_set_then_get:
  assumes "rtc_chip (sys_xmc hw) (ptr \<circ> sys_hw) (regs \<circ> sys_hw)"
    and "driver devices (i2c_node s) = Some (i2c (sys_xmc hw))"
    and "length buf0 = 8" "length buf1 = 8" "tm_plain t"
  shows "\<exists>s1 s2. ds1307_rtc_ioctl devices buf0 v RTC_IOCTL_SET_TIME (Tm_data t) s = Some (0, v, Tm_data t, s1) \<and>
    ds1307_rtc_ioctl devices buf1 v RTC_IOCTL_GET_TIME (Tm_data t0) s1 = Some (0, v, Tm_data t, s2)"
proof -
  let ?n = "rtc_peer (i2c_node s)" and ?hw = "sys_xmc hw"
  let ?bs = "tl (rtc_time_bytes t buf0)"
  have bs: "rtc_time_bytes t buf0 = 0 # ?bs" "length ?bs = 7"
    by (simp_all add: rtc_time_bytes_eq assms(3))
  have e: "endpt ?n = 0xD0" by (simp add: rtc_addr_eq)
  have l7: "length ?bs \<le> 64" using bs(2) by simp
  from rtc_chip_emit [OF assms(1) e l7, of "s\<lparr>i2c_node := ?n\<rparr>"]
  obtain s3 where s3: "i2c_emit ?hw ?n (0 # ?bs) (s\<lparr>i2c_node := ?n\<rparr>) = Some s3"
    "\<And>i. i < 7 \<Longrightarrow> (regs \<circ> sys_hw) s3 i = ?bs ! i"
    using bs(2) by auto
  let ?s1 = "s3\<lparr>i2c_node := ?n\<rparr>"
  have n1: "rtc_peer (i2c_node ?s1) = ?n" by (simp add: rtc_peer_def)
  have d1: "driver devices (i2c_node ?s1) = Some (i2c ?hw)" using assms(2) by (simp add: rtc_peer_def)
  from rtc_chip_emit [OF assms(1) e, of "[]" "?s1\<lparr>i2c_node := ?n\<rparr>"]
  obtain s4 where s4: "i2c_emit ?hw ?n [0] (?s1\<lparr>i2c_node := ?n\<rparr>) = Some s4"
    "ptr (sys_hw s4) = 0" "\<And>i. (regs \<circ> sys_hw) s4 i = (regs \<circ> sys_hw) s3 i"
    by auto
  let ?s4 = "s4\<lparr>i2c_node := ?n\<rparr>"
  have p: "(ptr \<circ> sys_hw) ?s4 = 0" using s4(2) by simp
  from rtc_chip_fetch [OF assms(1) e, of ?s4 7, unfolded p] obtain s5 where s5: "i2c_fetch ?hw ?n 7 ?s4 =
      Some (map ((regs \<circ> sys_hw) ?s4) [0 ..< 7], s5)"
    by auto
  have "(regs \<circ> sys_hw) ?s4 i = ?bs ! i" if "i < 7" for i
    using s3(2) [OF that] s4(3) [of i] by simp
  then have "map ((regs \<circ> sys_hw) ?s4) [0 ..< 7] = ?bs"
    using bs(2) by (intro nth_equalityI) simp_all
  with s5 p have f: "i2c_fetch ?hw ?n 7 ?s4 = Some (?bs, s5)" by simp
  have "rtc_time_of ?bs = t"
    using assms(5) bcd_value
    by (cases t) (simp add: rtc_time_of_def rtc_time_bytes_eq [OF assms(3)] ds1307_address_defs tm_plain_def)
  then show ?thesis
    using rtc_set_time_eq [OF assms(2,3), of v t] rtc_get_time_eq [OF d1 assms(4), of v t0]
      s3(1) s4(1) f bs(1) n1 by simp
qed

text \<open>
  C22: setting and getting the time. On a chip that behaves as documented, and with its clock
  standing still in between, \<open>RTC_IOCTL_SET_TIME\<close> with fields from 0 to 79 followed by
  \<open>RTC_IOCTL_GET_TIME\<close> both return 0, and the structure of the second call is overwritten with
  the time of the first.
\<close>

theorem rtc_set_get_time:
  assumes "rtc_chip (sys_xmc hw) (ptr \<circ> sys_hw) (regs \<circ> sys_hw)"
    and "driver devices (i2c_node s) = Some (i2c (sys_xmc hw))"
    and "length buf0 = 8" "length buf1 = 8" "tm_plain t"
  shows "\<exists>s1 s2. ds1307_rtc_ioctl devices buf0 v RTC_IOCTL_SET_TIME (Tm_data t) s = Some (0, v, Tm_data t, s1) \<and>
    ds1307_rtc_ioctl devices buf1 v RTC_IOCTL_GET_TIME (Tm_data t0) s1 = Some (0, v, Tm_data t, s2)"
  by (rule rtc_set_then_get [OF assms])

section \<open>A chip for the examples\<close>

text \<open>
  The register file behind the bus, with the register a transaction stands at; and the line
  behind the UART of channel 1.
\<close>

record demo_chip =
  ch_first :: bool
  ch_ptr :: nat
  ch_regs :: "nat \<Rightarrow> u8"
  ch_wire :: "u16 list"

definition chip_do :: "xmc_call \<Rightarrow> demo_chip \<Rightarrow> demo_chip" where
  "chip_do c h = (case c of
     XMC_I2C_CH_MasterStart _ _ _ \<Rightarrow> h\<lparr>ch_first := True\<rparr>
   | XMC_USIC_CH_TXFIFO_PutData ch w \<Rightarrow>
       (if ch = XMC_UART0_CH1 then h\<lparr>ch_wire := ch_wire h @ [w]\<rparr>
        else if ch_first h then h\<lparr>ch_first := False, ch_ptr := unat (ucast w :: u8)\<rparr>
        else h\<lparr>ch_regs := (ch_regs h)(ch_ptr h := ucast w), ch_ptr := ch_ptr h + 1\<rparr>)
   | _ \<Rightarrow> h)"

definition chip_get :: "xmc_query \<Rightarrow> demo_chip \<Rightarrow> u32 \<times> demo_chip" where
  "chip_get q h = (case q of
     XMC_I2C_CH_GetStatusFlag _ \<Rightarrow> (7, h)
   | XMC_USIC_CH_RXFIFO_GetData _ \<Rightarrow> (ucast (ch_regs h (ch_ptr h)), h\<lparr>ch_ptr := ch_ptr h + 1\<rparr>)
   | _ \<Rightarrow> (0, h))"

definition chip_xmc :: "demo_chip xmc" where
  "chip_xmc = \<lparr>xmc_do = chip_do, xmc_get = chip_get, xmc_value = (\<lambda>c. case c of
     XMC_I2C_CH_STATUS_FLAG_ACK_RECEIVED \<Rightarrow> 1 | XMC_I2C_CH_STATUS_FLAG_RECEIVE_INDICATION \<Rightarrow> 2 | _ \<Rightarrow> 4)\<rparr>"

abbreviation demo_rtc_xmc :: "demo_chip sys xmc" where
  "demo_rtc_xmc \<equiv> sys_xmc chip_xmc"

lemma chip_send:
  "usic_i2c_send demo_rtc_xmc w s =
     Some (s\<lparr>sys_hw := chip_do (XMC_USIC_CH_TXFIFO_PutData I2C_CHANNEL w) (sys_hw s)\<rparr>)"
  by (simp add: usic_i2c_send_def spin.simps i2c_tx_full_def sys_xmc_def chip_xmc_def chip_get_def)

lemma chip_send_all:
  assumes "\<not> ch_first (sys_hw s)"
  shows "\<exists>s'. send_all (\<lambda>b. usic_i2c_send demo_rtc_xmc (ucast b)) bs s = Some s' \<and>
    ch_ptr (sys_hw s') = ch_ptr (sys_hw s) + length bs \<and> ch_regs (sys_hw s') =
      (\<lambda>i. if ch_ptr (sys_hw s) \<le> i \<and> i < ch_ptr (sys_hw s) + length bs
           then bs ! (i - ch_ptr (sys_hw s)) else ch_regs (sys_hw s) i)"
  using assms
proof (induction bs arbitrary: s)
  case (Cons b bs)
  let ?s = "s\<lparr>sys_hw := chip_do (XMC_USIC_CH_TXFIFO_PutData I2C_CHANNEL (ucast b)) (sys_hw s)\<rparr>"
  have s: "\<not> ch_first (sys_hw ?s)" "ch_ptr (sys_hw ?s) = ch_ptr (sys_hw s) + 1"
    "ch_regs (sys_hw ?s) = (ch_regs (sys_hw s))(ch_ptr (sys_hw s) := b)"
    using Cons.prems by (simp_all add: chip_do_def I2C_CHANNEL_def)
  from Cons.IH [OF s(1)] show ?case
    unfolding s by (auto simp: chip_send fun_eq_iff nth_Cons' Suc_diff_le le_Suc_eq)
qed (auto simp: fun_eq_iff)

lemma chip_wait_ack: "i2c_wait_ack demo_rtc_xmc f t s = s"
proof (induction "demo_rtc_xmc" f t s rule: i2c_wait_ack.induct)
  case (1 f t s)
  then show ?case
    by (subst i2c_wait_ack.simps) (simp add: sys_xmc_def chip_xmc_def chip_get_def)
qed

lemma chip_recv:
  "i2c_recv_step demo_rtc_xmc r s = Some (ch_regs (sys_hw s) (ch_ptr (sys_hw s)),
     s\<lparr>sys_hw := (sys_hw s)\<lparr>ch_ptr := ch_ptr (sys_hw s) + 1\<rparr>\<rparr>)"
  by (simp add: i2c_recv_step_def spin.simps i2c_receiving_def i2c_rx_flags_def usic_i2c_recv_def
      sys_xmc_def chip_xmc_def chip_get_def chip_do_def)

lemma chip_recv_all:
  "\<exists>s'. recv_all (i2c_recv_step demo_rtc_xmc) n s =
     Some (map (ch_regs (sys_hw s)) [ch_ptr (sys_hw s) ..< ch_ptr (sys_hw s) + n], s') \<and>
     ch_regs (sys_hw s') = ch_regs (sys_hw s)"
proof (induction n arbitrary: s)
  case (Suc n)
  from Suc [of "s\<lparr>sys_hw := (sys_hw s)\<lparr>ch_ptr := ch_ptr (sys_hw s) + 1\<rparr>\<rparr>"]
  show ?case by (auto simp: chip_recv upt_conv_Cons simp del: upt_Suc)
qed simp

lemma chip_is_rtc: "rtc_chip demo_rtc_xmc (ch_ptr \<circ> sys_hw) (ch_regs \<circ> sys_hw)"
  unfolding rtc_chip_def
proof (intro conjI allI impI)
  fix v :: node and a :: u8 and bs and s :: "demo_chip sys"
  let ?s = "s\<lparr>sys_hw := (sys_hw s)\<lparr>ch_first := False, ch_ptr := unat a\<rparr>\<rparr>"
  have "send_all (\<lambda>b. usic_i2c_send demo_rtc_xmc (ucast b)) (a # bs) (i2c_address demo_rtc_xmc (endpt v) s) =
      send_all (\<lambda>b. usic_i2c_send demo_rtc_xmc (ucast b)) bs ?s"
    by (simp add: i2c_address_def chip_wait_ack chip_send)
      (simp add: sys_xmc_def chip_xmc_def chip_do_def I2C_CHANNEL_def)
  then show "\<exists>s'. i2c_emit demo_rtc_xmc v (a # bs) s = Some s' \<and>
      (ch_ptr \<circ> sys_hw) s' = unat a + length bs \<and> (ch_regs \<circ> sys_hw) s' =
        (\<lambda>i. if unat a \<le> i \<and> i < unat a + length bs then bs ! (i - unat a) else (ch_regs \<circ> sys_hw) s i)"
    using chip_send_all [of ?s bs]
    by (auto simp: i2c_emit_def) (auto simp: sys_xmc_def chip_xmc_def chip_do_def)
next
  fix v :: node and n and s :: "demo_chip sys"
  let ?s = "xmc_do demo_rtc_xmc (XMC_I2C_CH_MasterStart I2C_CHANNEL (endpt v) XMC_I2C_CH_CMD_READ) s"
  have "ch_ptr (sys_hw ?s) = ch_ptr (sys_hw s)" "ch_regs (sys_hw ?s) = ch_regs (sys_hw s)"
    by (simp_all add: sys_xmc_def chip_xmc_def chip_do_def)
  then show "\<exists>s'. i2c_fetch demo_rtc_xmc v n s =
      Some (map ((ch_regs \<circ> sys_hw) s) [(ch_ptr \<circ> sys_hw) s ..< (ch_ptr \<circ> sys_hw) s + n], s') \<and>
      (ch_regs \<circ> sys_hw) s' = (ch_regs \<circ> sys_hw) s"
    using chip_recv_all [of n ?s]
    by (auto simp: i2c_fetch_def) (auto simp: sys_xmc_def chip_xmc_def chip_do_def)
qed

definition demo_node :: "nat \<Rightarrow> node" where
  "demo_node i = \<lparr>dev_type = I2C, dev_id = of_nat i, endpt = 0, offset = 0, data = No_data\<rparr>"

definition demo_rtc_sys :: "demo_chip sys" where
  "demo_rtc_sys = \<lparr>sys_hw = \<lparr>ch_first = False, ch_ptr = 0, ch_regs = (\<lambda>_. 0), ch_wire = []\<rparr>,
     uart_node = demo_node 2, i2c_node = demo_node 0, rtc_node = demo_node 6, spi_node = demo_node 1,
     sys_errno = EPERM\<rparr>"

definition demo_rtc_table :: "(node_data, demo_chip sys) dev_table" where
  "demo_rtc_table = driver_map DEV_I2C (i2c demo_rtc_xmc) no_devices"

lemma demo_rtc_driver: "driver demo_rtc_table (i2c_node demo_rtc_sys) = Some (i2c demo_rtc_xmc)"
  unfolding demo_rtc_table_def
  by (rule driver_map_same) (simp_all add: node_of_def demo_rtc_sys_def demo_node_def)

text \<open>The time \<open>uart_task\<close> of main.c sets: 17/6/16 14:53:00.\<close>

definition demo_tm :: tm where
  "demo_tm = \<lparr>tm_sec = 0, tm_min = 53, tm_hour = 14, tm_mday = 17, tm_mon = 6, tm_year = 16\<rparr>"

theorem rtc_set_get_time_witness:
  "\<exists>s1 s2. ds1307_rtc_ioctl demo_rtc_table (replicate 8 0xAB) (rtc_node demo_rtc_sys) RTC_IOCTL_SET_TIME
      (Tm_data demo_tm) demo_rtc_sys = Some (0, rtc_node demo_rtc_sys, Tm_data demo_tm, s1) \<and>
    ds1307_rtc_ioctl demo_rtc_table (replicate 8 0xCD) (rtc_node demo_rtc_sys) RTC_IOCTL_GET_TIME
      (Tm_data \<lparr>tm_sec = 1, tm_min = 1, tm_hour = 1, tm_mday = 1, tm_mon = 1, tm_year = 1\<rparr>) s1 =
      Some (0, rtc_node demo_rtc_sys, Tm_data demo_tm, s2)"
  by (rule rtc_set_get_time [OF chip_is_rtc demo_rtc_driver]) (simp_all add: tm_plain_def demo_tm_def)

text \<open>The bus of the I2C examples, under the system state.\<close>

definition demo_log_sys :: "xmc_call list sys" where
  "demo_log_sys = \<lparr>sys_hw = [], uart_node = demo_node 2, i2c_node = demo_node 0,
     rtc_node = demo_node 6, spi_node = demo_node 1,
     sys_errno = EPERM\<rparr>"

lemma demo_log_live: "i2c_live (sys_xmc demo_bus)"
proof -
  have "i2c_tx_full (sys_xmc demo_bus) s = (False, s)" for s
    by (simp add: i2c_tx_full_def demo_bus_def sys_xmc_def)
  moreover have "i2c_receiving (sys_xmc demo_bus) s = (False, s)" for s
    by (simp add: i2c_receiving_def i2c_rx_flags_def demo_bus_def sys_xmc_def)
  ultimately show ?thesis unfolding i2c_live_def by (blast intro: settles_now)
qed

definition demo_log_table :: "(node_data, xmc_call list sys) dev_table" where
  "demo_log_table = driver_map DEV_I2C (i2c (sys_xmc demo_bus)) no_devices"

lemma demo_log_driver: "driver demo_log_table (i2c_node demo_log_sys) = Some (i2c (sys_xmc demo_bus))"
  unfolding demo_log_table_def
  by (rule driver_map_same) (simp_all add: node_of_def demo_log_sys_def demo_node_def)

theorem rtc_set_time_transaction_witness:
  "\<exists>s'. ds1307_rtc_ioctl demo_log_table (replicate 8 0xAB) (rtc_node demo_log_sys) RTC_IOCTL_SET_TIME
      (Tm_data demo_tm) demo_log_sys = Some (0, rtc_node demo_log_sys, Tm_data demo_tm, s') \<and>
    sys_hw s' = i2c_write_calls (sys_xmc demo_bus) 0xD0 [0, 0, 0x53, 0x14, 0xAB, 0x17, 0x06, 0x16]"
proof -
  have b: "ucast (decimal_BCD 0) = (0 :: u8)" "ucast (decimal_BCD 53) = (0x53 :: u8)"
    "ucast (decimal_BCD 14) = (0x14 :: u8)" "ucast (decimal_BCD 17) = (0x17 :: u8)"
    "ucast (decimal_BCD 6) = (0x06 :: u8)" "ucast (decimal_BCD 16) = (0x16 :: u8)"
    by code_simp+
  show ?thesis
    using rtc_set_time_transaction [OF demo_log_driver, of "replicate 8 0xAB" "\<lambda>s. s"
        "rtc_node demo_log_sys" demo_tm, OF _ demo_bus_log demo_log_live]
    by (simp add: demo_tm_def b) (simp add: demo_log_sys_def)
qed

text \<open>
  The driver has no data to read, and \<open>dev_read\<close> does not cope with that: on a node of the
  clock it calls \<open>ds1307_rtc_read\<close>, which returns 0 and transfers nothing, for ever.
\<close>

theorem rtc_dev_read_hangs:
  assumes "driver devices v = Some (rtc devices0 buf0)" "0 < unat count" "unat count < 2 ^ 31"
  shows "dev_read devices ptr count v s = None"
proof (rule dev_read_stuck [OF assms(1) _ assms(2,3)])
  show "transfers_nothing (rtc devices0 buf0)"
    by (simp add: transfers_nothing_def rtc_def ds1307_rtc_read_def)
qed

theorem rtc_dev_read_hangs_witness:
  "dev_read (driver_map DEV_RTC (rtc demo_rtc_table (replicate 8 0)) demo_rtc_table) [0] 1
     (rtc_node demo_rtc_sys) demo_rtc_sys = None"
  by (rule rtc_dev_read_hangs [of _ _ demo_rtc_table "replicate 8 0"])
    (simp_all add: driver_map_same demo_rtc_table_def node_of_def demo_rtc_sys_def demo_node_def)

end
