(* ===== verification/Mcu_Pwm.thy ===== *)
theory Mcu_Pwm
  imports Device_Switch
begin

text \<open>
  The PWM driver of src/src/dev/pwm/ifx_ccu4.c with the request codes of pwm.h, the pin
  multiplexing of src/src/dev/gpio/ifx_gpio.h, and the identification of the microcontroller of
  src/src/dev/mcu/xmc.c. The drivers access peripheral registers, whose names and behaviour
  are the vendor's: a record of a read and a write is a parameter.
\<close>

section \<open>Registers\<close>

datatype xmc_reg =
    P0_IOCR4 | CCU4_GIDLC | CCU4_CC40PRS | CCU4_CC40CRS | CCU4_CC40TIMER | CCU4_GCSS | CCU4_CC40TCSET

record 's regs =
  reg_get :: "xmc_reg \<Rightarrow> 's \<Rightarrow> u32"
  reg_set :: "xmc_reg \<Rightarrow> u32 \<Rightarrow> 's \<Rightarrow> 's"

section \<open>Pin multiplexing\<close>

definition GPIO_SHIFT :: nat where "GPIO_SHIFT = 3"

definition GPIO_INPUT_INV :: u32 where "GPIO_INPUT_INV = push_bit GPIO_SHIFT 0x4"
definition GPIO_INPUT_NO :: u32 where "GPIO_INPUT_NO = push_bit GPIO_SHIFT 0x0"
definition GPIO_INPUT_PD :: u32 where "GPIO_INPUT_PD = push_bit GPIO_SHIFT 0x1"
definition GPIO_INPUT_PU :: u32 where "GPIO_INPUT_PU = push_bit GPIO_SHIFT 0x2"
definition GPIO_OUTPUT_PP :: u32 where "GPIO_OUTPUT_PP = push_bit GPIO_SHIFT 0x10"
definition GPIO_OUTPUT_OD :: u32 where "GPIO_OUTPUT_OD = push_bit GPIO_SHIFT 0x18"
definition GPIO_OUTPUT_ALT0 :: u32 where "GPIO_OUTPUT_ALT0 = push_bit GPIO_SHIFT 0x0"
definition GPIO_OUTPUT_ALT1 :: u32 where "GPIO_OUTPUT_ALT1 = push_bit GPIO_SHIFT 0x1"
definition GPIO_OUTPUT_ALT2 :: u32 where "GPIO_OUTPUT_ALT2 = push_bit GPIO_SHIFT 0x2"
definition GPIO_OUTPUT_ALT3 :: u32 where "GPIO_OUTPUT_ALT3 = push_bit GPIO_SHIFT 0x3"
definition GPIO_OUTPUT_ALT4 :: u32 where "GPIO_OUTPUT_ALT4 = push_bit GPIO_SHIFT 0x4"
definition GPIO_OUTPUT_ALT5 :: u32 where "GPIO_OUTPUT_ALT5 = push_bit GPIO_SHIFT 0x5"
definition GPIO_OUTPUT_ALT6 :: u32 where "GPIO_OUTPUT_ALT6 = push_bit GPIO_SHIFT 0x6"
definition GPIO_OUTPUT_ALT7 :: u32 where "GPIO_OUTPUT_ALT7 = push_bit GPIO_SHIFT 0x7"

definition GPIO_PI0 :: nat where "GPIO_PI0 = 0"
definition GPIO_PI1 :: nat where "GPIO_PI1 = 8"
definition GPIO_PI2 :: nat where "GPIO_PI2 = 16"
definition GPIO_PI3 :: nat where "GPIO_PI3 = 24"
definition GPIO_PI4 :: nat where "GPIO_PI4 = 0"
definition GPIO_PI5 :: nat where "GPIO_PI5 = 8"
definition GPIO_PI6 :: nat where "GPIO_PI6 = 16"
definition GPIO_PI7 :: nat where "GPIO_PI7 = 24"
definition GPIO_PI8 :: nat where "GPIO_PI8 = 0"
definition GPIO_PI9 :: nat where "GPIO_PI9 = 8"
definition GPIO_PI10 :: nat where "GPIO_PI10 = 16"
definition GPIO_PI11 :: nat where "GPIO_PI11 = 24"
definition GPIO_PI12 :: nat where "GPIO_PI12 = 0"
definition GPIO_PI13 :: nat where "GPIO_PI13 = 8"
definition GPIO_PI14 :: nat where "GPIO_PI14 = 16"
definition GPIO_PI15 :: nat where "GPIO_PI15 = 24"

definition GPIO_PIN_MUX :: "'s regs \<Rightarrow> xmc_reg \<Rightarrow> u32 \<Rightarrow> nat \<Rightarrow> 's \<Rightarrow> 's" where
  "GPIO_PIN_MUX hw port conf pin s =
     (let s1 = reg_set hw port (reg_get hw port s AND push_bit pin 0xFF) s
      in reg_set hw port (reg_get hw port s1 OR push_bit pin conf) s1)"

text \<open>Every output configuration fits into the byte of a pin, and differs from the others.\<close>

definition gpio_outputs :: "u32 list" where
  "gpio_outputs = [c OR alt. c \<leftarrow> [GPIO_OUTPUT_PP, GPIO_OUTPUT_OD],
     alt \<leftarrow> [GPIO_OUTPUT_ALT0, GPIO_OUTPUT_ALT1, GPIO_OUTPUT_ALT2, GPIO_OUTPUT_ALT3,
              GPIO_OUTPUT_ALT4, GPIO_OUTPUT_ALT5, GPIO_OUTPUT_ALT6, GPIO_OUTPUT_ALT7]]"

lemma gpio_outputs_fit: "distinct gpio_outputs \<and> list_all (\<lambda>c. c < 0x100) gpio_outputs"
  by code_simp

section \<open>The PWM driver\<close>

definition PWM_IOCTL_SET_DUTY :: u8 where "PWM_IOCTL_SET_DUTY = 0"
definition PWM_IOCTL_SET_PERIODE :: u8 where "PWM_IOCTL_SET_PERIODE = 1"
definition PWM_IOCTL_SET_UPDATE :: u8 where "PWM_IOCTL_SET_UPDATE = 2"

definition ccu4_pwm_open :: "'s regs \<Rightarrow> 'd vnode \<Rightarrow> 's \<Rightarrow> (cint \<times> 'd vnode \<times> 's) option" where
  "ccu4_pwm_open hw v s0 =
     (let s1 = GPIO_PIN_MUX hw P0_IOCR4 (GPIO_OUTPUT_PP OR GPIO_OUTPUT_ALT4) GPIO_PI5 s0;
          s2 = reg_set hw CCU4_GIDLC 0x101 s1;
          s3 = reg_set hw CCU4_CC40PRS 100 s2;
          s4 = reg_set hw CCU4_CC40CRS 5 s3;
          s5 = reg_set hw CCU4_CC40TIMER 0 s4;
          s6 = reg_set hw CCU4_GCSS 0x1 s5;
          s7 = reg_set hw CCU4_CC40TCSET 1 s6
      in Some (0, v, s7))"

definition ccu4_pwm_close :: "'d vnode \<Rightarrow> 's \<Rightarrow> (cint \<times> 'd vnode \<times> 's) option" where
  "ccu4_pwm_close v s = Some (0, v, s)"

definition ccu4_pwm_write :: "'d vnode \<Rightarrow> uio \<Rightarrow> 's \<Rightarrow> (cint \<times> 'd vnode \<times> uio \<times> 's) option" where
  "ccu4_pwm_write v u s = Some (0, v, u, s)"

definition ccu4_pwm_read :: "'d vnode \<Rightarrow> uio \<Rightarrow> 's \<Rightarrow> (cint \<times> 'd vnode \<times> uio \<times> 's) option" where
  "ccu4_pwm_read v u s = Some (0, v, u, s)"

text \<open>Setting a value reads it through the data pointer.\<close>

definition ccu4_pwm_ioctl ::
    "'s regs \<Rightarrow> 'd vnode \<Rightarrow> u8 \<Rightarrow> ioctl_data \<Rightarrow> 's \<Rightarrow> (cint \<times> 'd vnode \<times> ioctl_data \<times> 's) option" where
  "ccu4_pwm_ioctl hw v code d s =
     (if code = PWM_IOCTL_SET_DUTY then
        (case d of Int_data x \<Rightarrow> Some (0, v, d, reg_set hw CCU4_CC40CRS x s) | _ \<Rightarrow> None)
      else if code = PWM_IOCTL_SET_PERIODE then
        (case d of Int_data x \<Rightarrow> Some (0, v, d, reg_set hw CCU4_CC40PRS x s) | _ \<Rightarrow> None)
      else if code = PWM_IOCTL_SET_UPDATE then Some (0, v, d, reg_set hw CCU4_GCSS 0x1 s)
      else Some (0, v, d, s))"

definition pwm :: "'s regs \<Rightarrow> ('d, 's) dev_ops" where
  "pwm hw =
     \<lparr>d_open = ccu4_pwm_open hw, d_close = ccu4_pwm_close, d_read = ccu4_pwm_read,
      d_write = ccu4_pwm_write, d_ioctl = ccu4_pwm_ioctl hw\<rparr>"

section \<open>The microcontroller\<close>

text \<open>The string, and what the functions compute from the registers they read.\<close>

definition mcu_string0 :: "u8 list" where
  "mcu_string0 = map of_char ''Infineon XMC1100 version x'' @ [0]"

definition get_mcu_string :: "u32 \<Rightarrow> u8 list \<Rightarrow> u8 list" where
  "get_mcu_string DBGROMID str =
     str[25 := ucast (0x30 + (drop_bit 24 (DBGROMID AND 0xF0000000) AND 0xF))]"

definition get_flash_size :: "u32 \<Rightarrow> cint" where
  "get_flash_size FLSIZE = ((drop_bit 12 (FLSIZE AND 0x3F000) AND 0x3F) - 1) * 4"

definition get_ram_size :: "u32 \<Rightarrow> cint" where
  "get_ram_size RAM0SIZE = (drop_bit 8 (RAM0SIZE AND 0x1F00) AND 0x1F) * 256"

section \<open>Properties\<close>

text \<open>Registers that keep what is written to them.\<close>

definition reg_memory :: "'s regs \<Rightarrow> bool" where
  "reg_memory hw \<longleftrightarrow>
     (\<forall>r q x s. reg_get hw r (reg_set hw q x s) = (if r = q then x else reg_get hw r s))"

text \<open>
  Opening the PWM device. It starts a timer of period 100 with a duty of 5. The configuration it
  leaves in the register of pins 4 to 7 is not the one of pin 5 set and the others
  kept: the mask keeps the field of pin 5 and clears the other pins.
\<close>

lemma pwm_open_pins:
  assumes "reg_memory hw"
  shows "\<exists>s'. ccu4_pwm_open hw v s = Some (0, v, s') \<and>
    reg_get hw CCU4_CC40PRS s' = 100 \<and> reg_get hw CCU4_CC40CRS s' = 5 \<and> reg_get hw CCU4_CC40TCSET s' = 1 \<and>
    reg_get hw P0_IOCR4 s' = reg_get hw P0_IOCR4 s AND 0xFF00 OR 0xA000"
  using assms
  by (simp add: ccu4_pwm_open_def GPIO_PIN_MUX_def Let_def reg_memory_def GPIO_OUTPUT_PP_def
      GPIO_OUTPUT_ALT4_def GPIO_SHIFT_def GPIO_PI5_def)

text \<open>The version in the string is the character 0 for every identification register.\<close>

lemma mcu_version_zero: "get_mcu_string r mcu_string0 = map of_char ''Infineon XMC1100 version 0'' @ [0]"
proof -
  have "drop_bit 24 (r AND 0xF0000000) AND 0xF = 0"
    by (simp add: drop_bit_and and.assoc)
  then show ?thesis by (simp add: get_mcu_string_def mcu_string0_def)
qed

end
