(* ===== verification/Kernel_Entry.thy ===== *)
theory Kernel_Entry
  imports Kernel_Boot Rtc_Ds1307 System_Console Mcu_Pwm
begin

text \<open>
  The whole of \<open>_kernel_entry\<close> in src/src/kernel.c: the library's set-up, the start of the
  drivers, the banner, and the start of the scheduler. The build is that of Config.inc: UART
  on channel 1 at 19200 baud, I2C and RTC.
\<close>

section \<open>The start-up code\<close>

definition initPorts :: "'s xmc \<Rightarrow> 's \<Rightarrow> 's" where
  "initPorts hw = xmc_run hw
     [XMC_GPIO_SetMode (0, 5) XMC_GPIO_MODE_OUTPUT_PUSH_PULL, XMC_GPIO_SetOutputHigh (0, 5)]"

text \<open>The fields a node gets before it is opened.\<close>

definition node_for :: "dev_type \<Rightarrow> dev_id \<Rightarrow> node \<Rightarrow> node" where
  "node_for t i v = v\<lparr>dev_type := t, dev_id := of_nat (dev_id_code i)\<rparr>"

text \<open>
  The configurations \<open>uart_config1\<close> and \<open>i2c_config1\<close> are local variables without a value:
  \<open>cu\<close> and \<open>ci\<close>. The operations of the RTC call through the table as it is when they are mapped,
  in which the I2C driver is.
\<close>

definition start_drivers ::
    "'h xmc \<Rightarrow> u8 list \<Rightarrow> uart_config_t \<Rightarrow> i2c_config_t \<Rightarrow> (node_data, 'h sys) dev_table \<Rightarrow> 'h sys
      \<Rightarrow> ((node_data, 'h sys) dev_table \<times> 'h sys) option" where
  "start_drivers hw buf0 cu ci devices s = do {
     let t1 = driver_map DEV_UART (uart (sys_xmc hw) CH1 UART_19200) devices;
     let s1 = s\<lparr>uart_node := (node_for UART DEV_UART (uart_node s))\<lparr>data := Uart_config cu\<rparr>\<rparr>;
     (_, v, s2) \<leftarrow> dev_open t1 (uart_node s1) s1;
     let s3 = s2\<lparr>uart_node := v\<rparr>;
     let t2 = driver_map DEV_I2C (i2c (sys_xmc hw)) t1;
     let s4 = s3\<lparr>i2c_node := (node_for I2C DEV_I2C (i2c_node s3))\<lparr>data := I2c_config ci\<rparr>\<rparr>;
     (_, v, s5) \<leftarrow> dev_open t2 (i2c_node s4) s4;
     let s6 = s5\<lparr>i2c_node := v\<rparr>;
     let t3 = driver_map DEV_RTC (rtc t2 buf0) t2;
     let s7 = s6\<lparr>rtc_node := node_for DEV_T_RTC DEV_RTC (rtc_node s6)\<rparr>;
     (_, v, s8) \<leftarrow> dev_open t3 (rtc_node s7) s7;
     Some (t3, s8\<lparr>rtc_node := v\<rparr>)
   }"

text \<open>The registers that identify the microcontroller.\<close>

record mcu_id =
  DBGROMID :: u32
  FLSIZE :: u32
  RAM0SIZE :: u32

definition print_banner ::
    "(node_data, 'h sys) dev_table \<Rightarrow> locals \<Rightarrow> mcu_id \<Rightarrow> 'h sys \<Rightarrow> 'h sys option" where
  "print_banner devices l ids s = do {
     s1 \<leftarrow> printf_sys devices l (line ''PascalScheduler R0'') [] s;
     s2 \<leftarrow> printf_sys devices l (line '' -- %s'') [Va_str (get_mcu_string (DBGROMID ids) mcu_string0)] s1;
     s3 \<leftarrow> printf_sys devices l (line '' -- Flash : %dkB'') [Va_int (get_flash_size (FLSIZE ids))] s2;
     printf_sys devices l (line '' -- RAM   : %dB'') [Va_int (get_ram_size (RAM0SIZE ids))] s3
   }"

definition kernel_entry ::
    "'h xmc \<Rightarrow> (u32 \<Rightarrow> kern \<Rightarrow> kern) \<Rightarrow> u32 \<Rightarrow> bool \<Rightarrow> u32 \<Rightarrow> u32 list \<Rightarrow> mcu_id \<Rightarrow> locals \<Rightarrow> u8 list \<Rightarrow>
      uart_config_t \<Rightarrow> i2c_config_t \<Rightarrow> kern \<Rightarrow> 'h sys \<Rightarrow> (boot \<times> (node_data, 'h sys) dev_table \<times> 'h sys) option" where
  "kernel_entry hw cfg clk dbg stack_top fs ids l buf0 cu ci k s = do {
     let s1 = xmc_run (sys_xmc hw)
           [SystemCoreClockUpdate, NVIC_SetPriority SVCall_IRQn 0, NVIC_SetPriority SysTick_IRQn 2] s;
     let s2 = initPorts (sys_xmc hw) s1;
     (devices, s3) \<leftarrow> start_drivers hw buf0 cu ci no_devices s2;
     s4 \<leftarrow> print_banner devices l ids s3;
     b \<leftarrow> start_scheduler cfg clk dbg stack_top fs k;
     Some (b, devices, case b of Idle _ \<Rightarrow> s4
       | Halted _ \<Rightarrow> xmc_do (sys_xmc hw) (XMC_GPIO_SetOutputLow (0, 5)) s4)
   }"

section \<open>The line during start-up\<close>

text \<open>Only the transmit FIFO of the channel sends.\<close>

definition only_fifo_sends :: "'h xmc \<Rightarrow> ('h \<Rightarrow> u16 list) \<Rightarrow> bool" where
  "only_fifo_sends hw wire \<longleftrightarrow>
     (\<forall>c h. (\<forall>w. c \<noteq> XMC_USIC_CH_TXFIFO_PutData (UART_CHANNEL CH1) w) \<longrightarrow> wire (xmc_do hw c h) = wire h)"

fun puts_data :: "xmc_call \<Rightarrow> bool" where
  "puts_data (XMC_USIC_CH_TXFIFO_PutData ch w) = True"
| "puts_data _ = False"

lemma xmc_run_quiet:
  assumes "only_fifo_sends hw wire" "\<forall>c \<in> set cs. \<not> puts_data c"
  shows "\<exists>h. xmc_run (sys_xmc hw) cs s = s\<lparr>sys_hw := h\<rparr> \<and> wire h = wire (sys_hw s)"
  using assms(2)
proof (induction cs arbitrary: s)
  case Nil
  show ?case by (rule exI [of _ "sys_hw s"]) (simp add: xmc_run_def)
next
  case (Cons c cs)
  let ?s = "s\<lparr>sys_hw := xmc_do hw c (sys_hw s)\<rparr>"
  have "wire (xmc_do hw c (sys_hw s)) = wire (sys_hw s)"
    using assms(1) Cons.prems by (cases c) (auto simp: only_fifo_sends_def)
  moreover have "xmc_run (sys_xmc hw) (c # cs) s = xmc_run (sys_xmc hw) cs ?s"
    by (simp add: xmc_run_def sys_xmc_def)
  ultimately show ?case using Cons.IH [of ?s] Cons.prems by simp
qed

lemma uart_line_sys:
  assumes "uart_line hw ch wire"
  shows "uart_line (sys_xmc hw) ch (wire \<circ> sys_hw)"
proof -
  have full: "uart_tx_full (sys_xmc hw) ch s = (let (b, h) = uart_tx_full hw ch (sys_hw s) in (b, s\<lparr>sys_hw := h\<rparr>))"
    for s :: "'a sys"
    by (auto simp: uart_tx_full_def sys_xmc_def Let_def split: prod.splits)
  show ?thesis
    unfolding uart_line_def
  proof (intro conjI allI impI)
    fix s :: "'a sys"
    show "(wire \<circ> sys_hw) (snd (uart_tx_full (sys_xmc hw) ch s)) = (wire \<circ> sys_hw) s"
      using assms by (simp add: full uart_line_def Let_def split_beta)
    obtain h' where "settles (uart_tx_full hw ch) (sys_hw s) h'"
      using assms unfolding uart_line_def by blast
    from settles_sys [OF this full, of s] have "settles (uart_tx_full (sys_xmc hw) ch) s (s\<lparr>sys_hw := h'\<rparr>)" by simp
    then show "\<exists>s'. settles (uart_tx_full (sys_xmc hw) ch) s s'" by blast
  next
    fix s s' :: "'a sys" and w
    assume "uart_tx_full (sys_xmc hw) ch s = (False, s')"
    then have "uart_tx_full hw ch (sys_hw s) = (False, sys_hw s')"
      by (auto simp: full Let_def split: prod.splits)
    then show "(wire \<circ> sys_hw) (xmc_do (sys_xmc hw) (XMC_USIC_CH_TXFIFO_PutData (UART_CHANNEL ch) w) s') =
        (wire \<circ> sys_hw) s' @ [w]"
      using assms by (simp add: uart_line_def sys_xmc_def)
  qed
qed

lemma uart_send_sys:
  assumes "usic_uart_send (sys_xmc hw) ch b s = Some s'"
  shows "\<exists>h. s' = s\<lparr>sys_hw := h\<rparr>"
proof -
  obtain s1 where s1: "spin (uart_tx_full (sys_xmc hw) ch) s = Some s1"
    "s' = xmc_do (sys_xmc hw) (XMC_USIC_CH_TXFIFO_PutData (UART_CHANNEL ch) (ucast b)) s1"
    using assms by (auto simp: usic_uart_send_def Option.bind_eq_Some_conv)
  have "(\<exists>h. s1 = s\<lparr>sys_hw := h\<rparr>) \<and> (\<exists>s0. (\<exists>h. s0 = s\<lparr>sys_hw := h\<rparr>) \<and> uart_tx_full (sys_xmc hw) ch s0 = (False, s1))"
  proof (rule spin_keeps [OF s1(1), where P = "\<lambda>t. \<exists>h. t = s\<lparr>sys_hw := h\<rparr>"])
    show "\<exists>h. s = s\<lparr>sys_hw := h\<rparr>" by (rule exI [of _ "sys_hw s"]) simp
    show "\<exists>h. t = s\<lparr>sys_hw := h\<rparr> \<Longrightarrow> \<exists>h. snd (uart_tx_full (sys_xmc hw) ch t) = s\<lparr>sys_hw := h\<rparr>" for t
      by (auto simp: uart_tx_full_def sys_xmc_def Let_def split: prod.splits)
  qed
  then show ?thesis using s1(2) by (auto simp: sys_xmc_def)
qed

lemma uart_emit_sys: "uart_emit (sys_xmc hw) ch v bs s = Some s' \<Longrightarrow> \<exists>h. s' = s\<lparr>sys_hw := h\<rparr>"
proof (induction bs arbitrary: s)
  case Nil
  then show ?case by (intro exI [of _ "sys_hw s"]) (simp add: uart_emit_def)
next
  case (Cons b bs)
  then obtain s1 where s1: "usic_uart_send (sys_xmc hw) ch b s = Some s1"
    "uart_emit (sys_xmc hw) ch v bs s1 = Some s'"
    by (auto simp: uart_emit_def Option.bind_eq_Some_conv)
  obtain h where "s1 = s\<lparr>sys_hw := h\<rparr>" using uart_send_sys [OF s1(1)] by blast
  with Cons.IH [OF s1(2)] show ?case by auto
qed

text \<open>Printing on the system state changes the hardware only, and the line gets the text.\<close>

lemma printf_sys_line:
  assumes "has_uart devices (sys_xmc hw) ch baud" "uart_line hw ch wire" "length (l_bf l) = 12"
    and "\<forall>q \<in> set ps. piece_ok q" "shown 128 ps = ps" "fmt = pieces_fmt ps @ [0]" "va = pieces_args ps"
  shows "\<exists>h. printf_sys devices l fmt va s = Some (s\<lparr>sys_hw := h\<rparr>) \<and>
    wire h = wire (sys_hw s) @ map ucast (pieces_text ps)"
proof -
  obtain s' where s': "uart_emit (sys_xmc hw) ch (l_vnode l) (pieces_text ps) s = Some s'"
    "(wire \<circ> sys_hw) s' = (wire \<circ> sys_hw) s @ map ucast (pieces_text ps)"
    using uart_emit_line [OF uart_line_sys [OF assms(2)]] by blast
  obtain h where h: "s' = s\<lparr>sys_hw := h\<rparr>" using uart_emit_sys [OF s'(1)] by blast
  have "printf devices (l_vnode l) (l_bf l) fmt va (sys_errno s, s) = Some (0, sys_errno s, s')"
    using printf_emits [OF assms(1,4,3), of "l_vnode l" "[]" "[]" "sys_errno s" s "l_vnode l"] assms(5-7) s'(1)
    by simp
  then show ?thesis using s'(2) h by (intro exI [of _ h]) (simp add: printf_sys_def)
qed

section \<open>The start-up\<close>

lemma uart_open_calls:
  "\<exists>cfg cs. usic_uart_open hw ch b v s = Some (0, v\<lparr>data := Uart_config cfg\<rparr>, xmc_run hw cs s) \<and>
     (\<forall>c \<in> set cs. \<not> puts_data c)"
  unfolding usic_uart_open_def Let_def by (intro exI conjI, rule refl, simp)

lemma i2c_open_calls:
  "\<exists>cfg cs. usic_i2c_open hw v s = Some (0, v\<lparr>data := I2c_config cfg\<rparr>, xmc_run hw cs s) \<and>
     (\<forall>c \<in> set cs. \<not> puts_data c)"
  unfolding usic_i2c_open_def Let_def by (intro exI conjI, rule refl, simp)

lemma uart_open_quiet:
  assumes "only_fifo_sends hw wire"
  shows "\<exists>cfg h. usic_uart_open (sys_xmc hw) ch b v s = Some (0, v\<lparr>data := Uart_config cfg\<rparr>, s\<lparr>sys_hw := h\<rparr>) \<and>
    wire h = wire (sys_hw s)"
  using uart_open_calls [of "sys_xmc hw" ch b v s] xmc_run_quiet [OF assms] by metis

lemma i2c_open_quiet:
  assumes "only_fifo_sends hw wire"
  shows "\<exists>cfg h. usic_i2c_open (sys_xmc hw) v s = Some (0, v\<lparr>data := I2c_config cfg\<rparr>, s\<lparr>sys_hw := h\<rparr>) \<and>
    wire h = wire (sys_hw s)"
  using i2c_open_calls [of "sys_xmc hw" v s] xmc_run_quiet [OF assms] by metis

lemma d_open_simps [simp]:
  "d_open (uart hw ch b) = usic_uart_open hw ch b"
  "d_open (i2c hw) = usic_i2c_open hw"
  "d_open (rtc devices buf0) = ds1307_rtc_open"
  by (simp_all add: uart_def i2c_def rtc_def)

lemma node_of_node_for: "node_of i (node_for t i v)"
  by (cases i) (simp_all add: node_of_def node_for_def)

lemma node_of_data [simp]: "node_of i (v\<lparr>data := d\<rparr>) = node_of i v"
  by (simp add: node_of_def)

lemma start_drivers_spec:
  assumes "only_fifo_sends hw wire" "length devices = DRIVER_NB"
  obtains t s' where "start_drivers hw buf0 cu ci devices s = Some (t, s')" "wire (sys_hw s') = wire (sys_hw s)"
    "has_uart t (sys_xmc hw) CH1 UART_19200"
    "node_of DEV_UART (uart_node s')" "node_of DEV_I2C (i2c_node s')" "node_of DEV_RTC (rtc_node s')"
    "driver t (i2c_node s') = Some (i2c (sys_xmc hw))"
    "\<exists>t2. driver t (rtc_node s') = Some (rtc t2 buf0) \<and> driver t2 (i2c_node s') = Some (i2c (sys_xmc hw))"
proof -
  let ?t1 = "driver_map DEV_UART (uart (sys_xmc hw) CH1 UART_19200) devices"
  let ?t2 = "driver_map DEV_I2C (i2c (sys_xmc hw)) ?t1"
  let ?t3 = "driver_map DEV_RTC (rtc ?t2 buf0) ?t2"
  let ?vu = "(node_for UART DEV_UART (uart_node s))\<lparr>data := Uart_config cu\<rparr>"
  obtain cfg1 h1 where u: "usic_uart_open (sys_xmc hw) CH1 UART_19200 ?vu (s\<lparr>uart_node := ?vu\<rparr>) =
      Some (0, ?vu\<lparr>data := Uart_config cfg1\<rparr>, s\<lparr>uart_node := ?vu, sys_hw := h1\<rparr>)" "wire h1 = wire (sys_hw s)"
    using uart_open_quiet [OF assms(1), of CH1 UART_19200 ?vu "s\<lparr>uart_node := ?vu\<rparr>"] by auto
  let ?s3 = "s\<lparr>sys_hw := h1, uart_node := ?vu\<lparr>data := Uart_config cfg1\<rparr>\<rparr>"
  let ?vi = "(node_for I2C DEV_I2C (i2c_node s))\<lparr>data := I2c_config ci\<rparr>"
  obtain cfg2 h2 where i: "usic_i2c_open (sys_xmc hw) ?vi (?s3\<lparr>i2c_node := ?vi\<rparr>) =
      Some (0, ?vi\<lparr>data := I2c_config cfg2\<rparr>, ?s3\<lparr>i2c_node := ?vi, sys_hw := h2\<rparr>)" "wire h2 = wire h1"
    using i2c_open_quiet [OF assms(1), of ?vi "?s3\<lparr>i2c_node := ?vi\<rparr>"] by auto
  have d1: "driver ?t1 v = Some (uart (sys_xmc hw) CH1 UART_19200)" if "node_of DEV_UART v" for v :: node
    using that assms(2) by (rule driver_map_same [rotated])
  have d2: "driver ?t2 v = Some (i2c (sys_xmc hw))" if "node_of DEV_I2C v" for v :: node
    using that assms(2) by (intro driver_map_same) simp_all
  have d3: "driver ?t3 v = Some (rtc ?t2 buf0)" if "node_of DEV_RTC v" for v :: node
    using that assms(2) by (intro driver_map_same) simp_all
  have d3i: "driver ?t3 v = Some (i2c (sys_xmc hw))" if "node_of DEV_I2C v" for v :: node
    using driver_map_other [OF that, of DEV_RTC "rtc ?t2 buf0" ?t2] d2 [OF that] by simp
  let ?s8 = "s\<lparr>uart_node := ?vu\<lparr>data := Uart_config cfg1\<rparr>, sys_hw := h2, i2c_node := ?vi\<lparr>data := I2c_config cfg2\<rparr>,
      rtc_node := node_for DEV_T_RTC DEV_RTC (rtc_node s)\<rparr>"
  have "start_drivers hw buf0 cu ci devices s = Some (?t3, ?s8)"
    using u(1) i(1)
    by (simp add: start_drivers_def dev_open_def d1 d2 d3 node_of_node_for ds1307_rtc_open_def Let_def)
  moreover have "wire (sys_hw ?s8) = wire (sys_hw s)" using u(2) i(2) by simp
  moreover have "has_uart ?t3 (sys_xmc hw) CH1 UART_19200"
    by (intro has_uart_other has_uart_mapped assms(2)) simp_all
  moreover have "node_of DEV_UART (uart_node ?s8)" "node_of DEV_I2C (i2c_node ?s8)" "node_of DEV_RTC (rtc_node ?s8)"
    by (simp_all add: node_of_node_for)
  moreover from this(2) have "driver ?t3 (i2c_node ?s8) = Some (i2c (sys_xmc hw))" by (rule d3i)
  moreover have "driver ?t3 (rtc_node ?s8) = Some (rtc ?t2 buf0) \<and> driver ?t2 (i2c_node ?s8) = Some (i2c (sys_xmc hw))"
    using d2 d3 by (simp add: node_of_node_for)
  ultimately show ?thesis by (intro that) blast+
qed

lemma shown_all: "length (pieces_fmt ps) \<le> n \<Longrightarrow> shown n ps = ps"
proof (induction ps arbitrary: n)
  case (Cons q qs)
  have "0 < length (piece_fmt q)" by (cases q) simp_all
  moreover have "length (pieces_fmt (q # qs)) = length (piece_fmt q) + length (pieces_fmt qs)"
    by (simp add: pieces_fmt_def)
  ultimately have "0 < n" "length (pieces_fmt qs) \<le> n - length (piece_fmt q)"
    using Cons.prems by linarith+
  with Cons.IH show ?case by simp
qed simp

text \<open>The banner.\<close>

definition lits :: "string \<Rightarrow> piece list" where
  "lits str = map (\<lambda>c. Lit (of_char c)) str"

definition mcu_name :: "u8 list" where
  "mcu_name = map of_char ''Infineon XMC1100 version 0''"

definition banner :: "mcu_id \<Rightarrow> u8 list" where
  "banner ids =
     map of_char ''PascalScheduler R0'' @ [0x0A]
     @ map of_char '' -- '' @ mcu_name @ [0x0A]
     @ map of_char '' -- Flash : '' @ int_text 10 (sint (get_flash_size (FLSIZE ids))) @ map of_char ''kB'' @ [0x0A]
     @ map of_char '' -- RAM   : '' @ int_text 10 (sint (get_ram_size (RAM0SIZE ids))) @ map of_char ''B'' @ [0x0A]"

lemma print_banner_spec:
  assumes "has_uart devices (sys_xmc hw) ch baud" "uart_line hw ch wire" "length (l_bf l) = 12"
  shows "\<exists>h. print_banner devices l ids s = Some (s\<lparr>sys_hw := h\<rparr>) \<and>
    wire h = wire (sys_hw s) @ map ucast (banner ids)"
proof -
  note p = printf_sys_line [OF assms]
  let ?p1 = "lits ''PascalScheduler R0'' @ [Lit 0x0A]"
  let ?p2 = "lits '' -- '' @ [Conv None [] [] (Str mcu_name []), Lit 0x0A]"
  let ?p3 = "lits '' -- Flash : '' @ [Conv None [] [] (Dec (get_flash_size (FLSIZE ids)))] @ lits ''kB'' @ [Lit 0x0A]"
  let ?p4 = "lits '' -- RAM   : '' @ [Conv None [] [] (Dec (get_ram_size (RAM0SIZE ids)))] @ lits ''B'' @ [Lit 0x0A]"
  note defs = lits_def line_def pieces_fmt_def pieces_args_def mcu_name_def c_string_def
  obtain h1 where h1: "printf_sys devices l (line ''PascalScheduler R0'') [] s = Some (s\<lparr>sys_hw := h1\<rparr>)"
    "wire h1 = wire (sys_hw s) @ map ucast (pieces_text ?p1)"
    using p [of ?p1 "line ''PascalScheduler R0''" "[]" s] by (auto simp: defs shown_all)
  obtain h2 where h2: "printf_sys devices l (line '' -- %s'') [Va_str (get_mcu_string (DBGROMID ids) mcu_string0)]
      (s\<lparr>sys_hw := h1\<rparr>) = Some (s\<lparr>sys_hw := h2\<rparr>)" "wire h2 = wire h1 @ map ucast (pieces_text ?p2)"
    using p [of ?p2 "line '' -- %s''" "[Va_str (get_mcu_string (DBGROMID ids) mcu_string0)]" "s\<lparr>sys_hw := h1\<rparr>"]
    by (auto simp: defs shown_all mcu_version_zero)
  obtain h3 where h3: "printf_sys devices l (line '' -- Flash : %dkB'') [Va_int (get_flash_size (FLSIZE ids))]
      (s\<lparr>sys_hw := h2\<rparr>) = Some (s\<lparr>sys_hw := h3\<rparr>)" "wire h3 = wire h2 @ map ucast (pieces_text ?p3)"
    using p [of ?p3 "line '' -- Flash : %dkB''" "[Va_int (get_flash_size (FLSIZE ids))]" "s\<lparr>sys_hw := h2\<rparr>"]
    by (auto simp: defs shown_all)
  obtain h4 where h4: "printf_sys devices l (line '' -- RAM   : %dB'') [Va_int (get_ram_size (RAM0SIZE ids))]
      (s\<lparr>sys_hw := h3\<rparr>) = Some (s\<lparr>sys_hw := h4\<rparr>)" "wire h4 = wire h3 @ map ucast (pieces_text ?p4)"
    using p [of ?p4 "line '' -- RAM   : %dB''" "[Va_int (get_ram_size (RAM0SIZE ids))]" "s\<lparr>sys_hw := h3\<rparr>"]
    by (auto simp: defs shown_all)
  have t: "pieces_text ?p1 @ pieces_text ?p2 @ pieces_text ?p3 @ pieces_text ?p4 = banner ids"
    by (simp add: pieces_text_def lits_def banner_def)
  have "wire h4 = wire (sys_hw s) @ map ucast (banner ids)"
    unfolding t [symmetric] using h1(2) h2(2) h3(2) h4(2) by simp
  then show ?thesis
    using h1(1) h2(1) h3(1) h4(1) by (intro exI [of _ h4]) (simp add: print_banner_def)
qed

lemma kernel_entry_spec:
  assumes "uart_line hw CH1 wire" "only_fifo_sends hw wire" "length (l_bf l) = 12"
    and "systick_config_ok cfg" "0 < unat (clk div 1000)" "unat (clk div 1000) \<le> 2 ^ 24"
    and "length (tasks k) = MAX_TASKS" "0 \<notin> set fs" "length fs \<le> 7"
  shows "\<exists>k' t s'. kernel_entry hw cfg clk dbg stack_top (fs @ 0 # rest) ids l buf0 cu ci k s = Some (Idle k', t, s') \<and>
    wire (sys_hw s') = wire (sys_hw s) @ map ucast (banner ids) \<and>
    start_scheduler cfg clk dbg stack_top (fs @ 0 # rest) k = Some (Idle k') \<and>
    current_tid k' = 0 \<and> kern_wf k' \<and> registered_tasks k' = length fs \<and> irq_enabled k' \<and>
    (\<forall>i < length fs. starts_at dbg stack_top k' (Suc i) (fs ! i)) \<and>
    has_uart t (sys_xmc hw) CH1 UART_19200 \<and> driver t (uart_node s') = Some (uart (sys_xmc hw) CH1 UART_19200) \<and>
    driver t (i2c_node s') = Some (i2c (sys_xmc hw)) \<and>
    (\<exists>t2. driver t (rtc_node s') = Some (rtc t2 buf0) \<and> driver t2 (i2c_node s') = Some (i2c (sys_xmc hw)))"
proof -
  let ?s0 = "initPorts (sys_xmc hw) (xmc_run (sys_xmc hw)
           [SystemCoreClockUpdate, NVIC_SetPriority SVCall_IRQn 0, NVIC_SetPriority SysTick_IRQn 2] s)"
  have "\<exists>h. ?s0 = s\<lparr>sys_hw := h\<rparr> \<and> wire h = wire (sys_hw s)"
    using xmc_run_quiet [OF assms(2), of "[SystemCoreClockUpdate, NVIC_SetPriority SVCall_IRQn 0,
        NVIC_SetPriority SysTick_IRQn 2, XMC_GPIO_SetMode (0, 5) XMC_GPIO_MODE_OUTPUT_PUSH_PULL,
        XMC_GPIO_SetOutputHigh (0, 5)]" s]
    by (simp add: initPorts_def xmc_run_def)
  then obtain h0 where h0: "?s0 = s\<lparr>sys_hw := h0\<rparr>" "wire h0 = wire (sys_hw s)" by blast
  obtain t s1 where s1: "start_drivers hw buf0 cu ci no_devices ?s0 = Some (t, s1)"
    "wire (sys_hw s1) = wire (sys_hw ?s0)" "has_uart t (sys_xmc hw) CH1 UART_19200" "node_of DEV_UART (uart_node s1)"
    "driver t (i2c_node s1) = Some (i2c (sys_xmc hw))"
    "\<exists>t2. driver t (rtc_node s1) = Some (rtc t2 buf0) \<and> driver t2 (i2c_node s1) = Some (i2c (sys_xmc hw))"
    by (rule start_drivers_spec [OF assms(2), of no_devices buf0 cu ci ?s0]) simp_all
  obtain h2 where h2: "print_banner t l ids s1 = Some (s1\<lparr>sys_hw := h2\<rparr>)"
    "wire h2 = wire (sys_hw s1) @ map ucast (banner ids)"
    using print_banner_spec [OF s1(3) assms(1,3)] by blast
  obtain k' where k': "start_scheduler cfg clk dbg stack_top (fs @ 0 # rest) k = Some (Idle k')" "kern_wf k'"
    "registered_tasks k' = length fs" "irq_enabled k'" "\<forall>i < length fs. starts_at dbg stack_top k' (Suc i) (fs ! i)"
    "current_tid k' = 0"
    using start_scheduler_spec [OF assms(4-8), of dbg stack_top rest] unfolding if_P [OF assms(9)] by blast
  have "kernel_entry hw cfg clk dbg stack_top (fs @ 0 # rest) ids l buf0 cu ci k s = Some (Idle k', t, s1\<lparr>sys_hw := h2\<rparr>)"
    using s1(1) h2(1) k'(1) by (simp add: kernel_entry_def Let_def)
  moreover have "driver t (uart_node s1) = Some (uart (sys_xmc hw) CH1 UART_19200)"
    using s1(3,4) by (simp add: has_uart_def)
  ultimately show ?thesis
    using s1(2,3,5,6) h0 h2(2) k' by (intro exI [of _ k'] exI [of _ t] exI [of _ "s1\<lparr>sys_hw := h2\<rparr>"]) simp
qed

section \<open>Properties\<close>

text \<open>
  C8: booting. From power-up, with a UART that sends what is put into its transmit FIFO and
  nothing else, an interrupt period the timer can hold, and at most seven tasks: the start-up
  code gets to its idle loop. The line has received exactly the banner, with the sizes of the
  memories in decimal; the scheduler state is well-formed with every listed task ready on its own
  stack; and the nodes of the UART, the I2C bus and the clock reach their drivers, the clock's
  driver over the I2C driver.
\<close>

theorem kernel_entry_boots:
  assumes "uart_line hw CH1 wire" "only_fifo_sends hw wire" "length (l_bf l) = 12"
    and "systick_config_ok cfg" "0 < unat (clk div 1000)" "unat (clk div 1000) \<le> 2 ^ 24"
    and "length (tasks k) = MAX_TASKS" "0 \<notin> set fs" "length fs \<le> 7"
  shows "\<exists>k' t s'. kernel_entry hw cfg clk dbg stack_top (fs @ 0 # rest) ids l buf0 cu ci k s = Some (Idle k', t, s') \<and>
    wire (sys_hw s') = wire (sys_hw s) @ map ucast (banner ids) \<and>
    kern_wf k' \<and> registered_tasks k' = length fs \<and> irq_enabled k' \<and>
    (\<forall>i < length fs. starts_at dbg stack_top k' (Suc i) (fs ! i)) \<and>
    driver t (uart_node s') = Some (uart (sys_xmc hw) CH1 UART_19200) \<and>
    driver t (i2c_node s') = Some (i2c (sys_xmc hw)) \<and>
    (\<exists>t2. driver t (rtc_node s') = Some (rtc t2 buf0) \<and> driver t2 (i2c_node s') = Some (i2c (sys_xmc hw)))"
  using kernel_entry_spec [OF assms, of dbg stack_top rest ids buf0 cu ci s] by blast

definition boot_xmc :: "u16 list xmc" where
  "boot_xmc = \<lparr>xmc_do = (\<lambda>c h. case c of
       XMC_USIC_CH_TXFIFO_PutData ch w \<Rightarrow> if ch = XMC_UART0_CH1 then h @ [w] else h | _ \<Rightarrow> h),
     xmc_get = (\<lambda>q h. (0, h)), xmc_value = (\<lambda>_. 0)\<rparr>"

definition boot_sys :: "u16 list sys" where
  "boot_sys = \<lparr>sys_hw = [], uart_node = demo_node 0, i2c_node = demo_node 0, rtc_node = demo_node 0,
     spi_node = demo_node 0, sys_errno = EPERM\<rparr>"

text \<open>A device with 64 kB of flash and 16 kB of RAM, and the tasks of main.c.\<close>

theorem kernel_entry_boots_witness:
  "\<exists>k' t s'. kernel_entry boot_xmc demo_systick 32000000 True 0x20003D00 ([0x10001200, 0x10001300] @ 0 # [])
      \<lparr>DBGROMID = 0, FLSIZE = 0x11000, RAM0SIZE = 0x1000\<rparr>
      \<lparr>l_bytes = (\<lambda>_. 0xEE), l_bf = replicate 12 0xEE, l_vnode = demo_node 9\<rparr> (replicate 8 0xEE)
      \<lparr>uart_baudrate = 0, uart_data_bits = 0, uart_parity_mode = XMC_USIC_CH_PARITY_MODE_NONE, uart_stop_bits = 0\<rparr>
      \<lparr>i2c_baudrate = 0\<rparr> demo_kern boot_sys = Some (Idle k', t, s') \<and>
    registered_tasks k' = 2 \<and>
    sys_hw s' = map ucast (banner \<lparr>DBGROMID = 0, FLSIZE = 0x11000, RAM0SIZE = 0x1000\<rparr>)"
proof -
  have full: "uart_tx_full boot_xmc CH1 h = (False, h)" for h
    by (simp add: uart_tx_full_def boot_xmc_def)
  have "settles (uart_tx_full boot_xmc CH1) h h" for h by (rule settles_now) (rule full)
  then have u: "uart_line boot_xmc CH1 id"
    unfolding uart_line_def by (auto simp: full) (simp add: boot_xmc_def)
  have q: "only_fifo_sends boot_xmc id"
    unfolding only_fifo_sends_def
  proof (intro allI impI)
    fix c h assume "\<forall>w. c \<noteq> XMC_USIC_CH_TXFIFO_PutData (UART_CHANNEL CH1) w"
    then show "id (xmc_do boot_xmc c h) = id h" by (cases c) (auto simp: boot_xmc_def)
  qed
  have clk: "unat (32000000 div 1000 :: u32) = 32000" by (simp add: unat_div_distrib)
  let ?l = "\<lparr>l_bytes = (\<lambda>_. 0xEE), l_bf = replicate 12 0xEE, l_vnode = demo_node 9\<rparr>"
  have "length (l_bf ?l) = 12" "systick_config_ok demo_systick" "0 < unat (32000000 div 1000 :: u32)"
    "unat (32000000 div 1000 :: u32) \<le> 2 ^ 24" "length (tasks demo_kern) = MAX_TASKS"
    "0 \<notin> set [0x10001200, 0x10001300 :: u32]" "length [0x10001200, 0x10001300 :: u32] \<le> 7"
    unfolding clk by (simp_all add: systick_config_ok_def demo_systick_def demo_kern_def MAX_TASKS_def)
  from kernel_entry_boots [OF u q this, of True "0x20003D00" "[]"
      "\<lparr>DBGROMID = 0, FLSIZE = 0x11000, RAM0SIZE = 0x1000\<rparr>" "replicate 8 0xEE"
      "\<lparr>uart_baudrate = 0, uart_data_bits = 0, uart_parity_mode = XMC_USIC_CH_PARITY_MODE_NONE, uart_stop_bits = 0\<rparr>"
      "\<lparr>i2c_baudrate = 0\<rparr>" boot_sys]
  obtain k' t s' where r: "kernel_entry boot_xmc demo_systick 32000000 True 0x20003D00 ([0x10001200, 0x10001300] @ 0 # [])
      \<lparr>DBGROMID = 0, FLSIZE = 0x11000, RAM0SIZE = 0x1000\<rparr> ?l (replicate 8 0xEE)
      \<lparr>uart_baudrate = 0, uart_data_bits = 0, uart_parity_mode = XMC_USIC_CH_PARITY_MODE_NONE, uart_stop_bits = 0\<rparr>
      \<lparr>i2c_baudrate = 0\<rparr> demo_kern boot_sys = Some (Idle k', t, s')"
    "registered_tasks k' = length [0x10001200, 0x10001300 :: u32]"
    "id (sys_hw s') = id (sys_hw boot_sys) @ map ucast (banner \<lparr>DBGROMID = 0, FLSIZE = 0x11000, RAM0SIZE = 0x1000\<rparr>)"
    by blast
  then show ?thesis
    by (intro exI [of _ k'] exI [of _ t] exI [of _ s']) (simp add: boot_sys_def)
qed

end
