(* ===== verification/Mmc_Steps.thy ===== *)
theory Mmc_Steps
  imports Mmc_Properties Kernel_Entry
begin

text \<open>
  The calls of the memory card driver (src/src/dev/mmc/mmc_spi.c) beside the console: what each
  puts on the bus, what it gets from the card, and that it leaves the line alone, as \<open>printf\<close> leaves
  the card alone.
\<close>

section \<open>Bus and console\<close>

text \<open>
  The card hears transmissions on the SPI channel only, and the console line gets what is put into the
  transmit FIFO of the UART only; no query changes either.
\<close>

definition bus_and_line :: "'h xmc \<Rightarrow> ('h \<Rightarrow> u8 list) \<Rightarrow> ('h \<Rightarrow> nat) \<Rightarrow> ('h \<Rightarrow> u16 list) \<Rightarrow> bool" where
  "bus_and_line hw sent got wire \<longleftrightarrow>
     only_fifo_sends hw wire \<and> (\<forall>q h. wire (snd (xmc_get hw q h)) = wire h) \<and>
     (\<forall>c h. (\<forall>w m. c \<noteq> XMC_SPI_CH_Transmit XMC_SPI0_CH0 w m) \<longrightarrow>
        sent (xmc_do hw c h) = sent h \<and> got (xmc_do hw c h) = got h) \<and>
     (\<forall>h. let h' = snd (xmc_get hw (XMC_USIC_CH_TXFIFO_IsFull (UART_CHANNEL CH1)) h)
        in sent h' = sent h \<and> got h' = got h)"

lemma bus_and_lineD:
  assumes "bus_and_line hw sent got wire"
  shows "\<not> puts_data c \<Longrightarrow> wire (xmc_do hw c h) = wire h"
    "wire (snd (xmc_get hw q h)) = wire h"
    "(\<And>w m. c \<noteq> XMC_SPI_CH_Transmit XMC_SPI0_CH0 w m) \<Longrightarrow>
       sent (xmc_do hw c h) = sent h \<and> got (xmc_do hw c h) = got h"
    "sent (snd (uart_tx_full hw CH1 h)) = sent h \<and> got (snd (uart_tx_full hw CH1 h)) = got h"
proof -
  note a = assms [unfolded bus_and_line_def only_fifo_sends_def Let_def]
  show "\<not> puts_data c \<Longrightarrow> wire (xmc_do hw c h) = wire h"
    using a by (cases c) simp_all
  show "wire (snd (xmc_get hw q h)) = wire h" using a by blast
  show "(\<And>w m. c \<noteq> XMC_SPI_CH_Transmit XMC_SPI0_CH0 w m) \<Longrightarrow>
      sent (xmc_do hw c h) = sent h \<and> got (xmc_do hw c h) = got h"
    using a by blast
  show "sent (snd (uart_tx_full hw CH1 h)) = sent h \<and> got (snd (uart_tx_full hw CH1 h)) = got h"
    using a by (auto simp: uart_tx_full_def split: prod.splits) (metis snd_conv)+
qed

text \<open>What the bus does leaves the line alone.\<close>

lemma spi_shifting_line:
  assumes "bus_and_line hw sent got wire"
  shows "wire (sys_hw (snd (spi_shifting (sys_xmc hw) s))) = wire (sys_hw s)"
  using bus_and_lineD(2) [OF assms, of "XMC_SPI_CH_GetStatusFlag XMC_SPI0_CH0" "sys_hw s"]
  by (auto simp: spi_shifting_def sys_xmc_def Let_def split: prod.splits)

lemma spi_send_line:
  assumes "bus_and_line hw sent got wire" "usic_spi_send (sys_xmc hw) b s = Some s'"
  shows "wire (sys_hw s') = wire (sys_hw s)"
proof -
  let ?s0 = "xmc_do (sys_xmc hw) (XMC_SPI_CH_Transmit XMC_SPI0_CH0 (ucast b) XMC_SPI_CH_MODE_STANDARD) s"
  obtain s1 where s1: "spin (spi_shifting (sys_xmc hw)) ?s0 = Some s1"
    "s' = xmc_do (sys_xmc hw) (XMC_SPI_CH_ClearStatusFlag XMC_SPI0_CH0
       (xmc_value (sys_xmc hw) XMC_SPI_CH_STATUS_FLAG_TRANSMIT_SHIFT_INDICATION)) s1"
    using assms(2) by (auto simp: usic_spi_send_def Option.bind_eq_Some_conv)
  have "wire (sys_hw s1) = wire (sys_hw ?s0)"
    using spin_keeps [OF s1(1), of "\<lambda>t. wire (sys_hw t) = wire (sys_hw ?s0)"] spi_shifting_line [OF assms(1)]
    by simp
  then show ?thesis
    using s1(2) bus_and_lineD(1) [OF assms(1)] by (simp add: sys_xmc_def)
qed

lemma spi_emit_line:
  "bus_and_line hw sent got wire \<Longrightarrow> spi_emit (sys_xmc hw) v bs s = Some s' \<Longrightarrow>
     wire (sys_hw s') = wire (sys_hw s)"
  by (induction bs arbitrary: s)
    (auto simp: spi_emit_def Option.bind_eq_Some_conv dest: spi_send_line)

lemma spi_fetch_line:
  assumes "bus_and_line hw sent got wire"
  shows "spi_fetch (sys_xmc hw) v n s = Some (bs, s') \<Longrightarrow> wire (sys_hw s') = wire (sys_hw s)"
proof (induction n arbitrary: s bs)
  case 0
  then show ?case by (simp add: spi_fetch_def)
next
  case (Suc n)
  obtain b s1 where s1: "usic_spi_recv (sys_xmc hw) s = (b, s1)" by fastforce
  have "wire (sys_hw s1) = wire (sys_hw s)"
    using s1 bus_and_lineD(1,2) [OF assms]
    by (auto simp: usic_spi_recv_def sys_xmc_def split: prod.splits) (metis snd_conv puts_data.simps)
  moreover obtain bs' where "spi_fetch (sys_xmc hw) v n s1 = Some (bs', s')"
    using Suc.prems s1 by (auto simp: spi_fetch_def Option.bind_eq_Some_conv)
  ultimately show ?case using Suc.IH by simp
qed

text \<open>
  The state in which everything runs: the card is behind the SPI node, the UART is mapped for the
  console. A step changes the hardware only; \<open>at\<close> says what the card has heard and answered and what is
  on the line.
\<close>

definition stage ::
    "(node_data, 'h sys) dev_table \<Rightarrow> 'h xmc \<Rightarrow> (u8 list \<Rightarrow> nat \<Rightarrow> u8) \<Rightarrow> ('h \<Rightarrow> u8 list) \<Rightarrow> ('h \<Rightarrow> nat) \<Rightarrow>
      ('h \<Rightarrow> u16 list) \<Rightarrow> locals \<Rightarrow> node \<Rightarrow> bool" where
  "stage devices hw reply sent got wire l v \<longleftrightarrow>
     card_on devices hw reply sent got v \<and> bus_and_line hw sent got wire \<and> length (l_bf l) = 12 \<and>
     uart_line hw CH1 wire \<and> has_uart devices (sys_xmc hw) CH1 UART_19200"

lemma stageD:
  assumes "stage devices hw reply sent got wire l v"
  shows "card_on devices hw reply sent got v" "bus_and_line hw sent got wire" "length (l_bf l) = 12"
    "uart_line hw CH1 wire" "has_uart devices (sys_xmc hw) CH1 UART_19200"
    "driver devices v = Some (spi (sys_xmc hw))"
  using assms by (simp_all add: stage_def card_on_def)

lemma send_step:
  assumes st: "stage devices hw reply sent got wire l (spi_node s)" and n: "unat n < 2 ^ 31" "unat n \<le> length buf"
  shows "\<exists>h. mmc_send devices buf n s = Some (s\<lparr>sys_hw := h\<rparr>) \<and> sent h = sent (sys_hw s) @ take (unat n) buf \<and>
    (n \<noteq> 0 \<and> buf \<noteq> [] \<longrightarrow> got h = 0) \<and> wire h = wire (sys_hw s)"
proof -
  obtain h where h: "mmc_send devices buf n s = Some (s\<lparr>sys_hw := h\<rparr>)" "sent h = sent (sys_hw s) @ take (unat n) buf"
    "n \<noteq> 0 \<and> buf \<noteq> [] \<longrightarrow> got h = 0"
    using mmc_send_at [OF stageD(1) [OF st] n] by blast
  have "dev_write devices buf n (spi_node s) s =
      map_option (\<lambda>s'. (n, spi_node s, s')) (spi_emit (sys_xmc hw) (spi_node s) (take (unat n) buf) s)"
    by (rule spi_stream.dev_write_emits [OF stageD(6) [OF st] _ n]) (simp add: spi_def)
  with h(1) obtain s' where "spi_emit (sys_xmc hw) (spi_node s) (take (unat n) buf) s = Some s'"
    "s\<lparr>sys_hw := h\<rparr> = s'\<lparr>spi_node := spi_node s\<rparr>"
    by (auto simp: mmc_send_def Option.bind_eq_Some_conv)
  from this(2) spi_emit_line [OF stageD(2) [OF st] this(1)] have "wire h = wire (sys_hw s)"
    by (metis sys.select_convs(1) sys.surjective sys.update_convs(1) sys.update_convs(5))
  with h show ?thesis by blast
qed

lemma dev_read_line:
  assumes st: "stage devices hw reply sent got wire l (spi_node s)"
    and n: "0 < unat n" "unat n < 2 ^ 31" "unat n \<le> length buf"
    and r: "dev_read devices buf n (spi_node s) s = Some (c, b, v, s')"
  shows "wire (sys_hw s') = wire (sys_hw s)"
proof -
  have "dev_read devices buf n (spi_node s) s =
      map_option (\<lambda>(bs, s'). (n, overwrite 0 bs buf, spi_node s, s')) (spi_fetch (sys_xmc hw) (spi_node s) (unat n) s)"
    by (rule spi_stream.dev_read_fetches [OF stageD(6) [OF st] _ n]) (simp add: spi_def)
  with r show ?thesis using spi_fetch_line [OF stageD(2) [OF st]] by auto
qed

lemma read_byte_step:
  assumes st: "stage devices hw reply sent got wire l (spi_node s)"
  shows "\<exists>h. mmc_read_byte devices l s = Some (reply (sent (sys_hw s)) (got (sys_hw s)), s\<lparr>sys_hw := h\<rparr>) \<and>
    sent h = sent (sys_hw s) \<and> got h = Suc (got (sys_hw s)) \<and> wire h = wire (sys_hw s)"
proof -
  obtain h where h: "mmc_read_byte devices l s = Some (reply (sent (sys_hw s)) (got (sys_hw s)), s\<lparr>sys_hw := h\<rparr>)"
    "sent h = sent (sys_hw s)" "got h = Suc (got (sys_hw s))"
    using mmc_read_byte_at [OF stageD(1) [OF st]] by blast
  obtain c b v s' where r: "dev_read devices (l_array l 1) 1 (spi_node s) s = Some (c, b, v, s')"
    "s\<lparr>sys_hw := h\<rparr> = s'\<lparr>spi_node := v\<rparr>"
    using h(1) by (auto simp: mmc_read_byte_def Option.bind_eq_Some_conv)
  have "wire (sys_hw s') = wire (sys_hw s)"
    by (rule dev_read_line [OF st _ _ _ r(1)]) (simp_all add: l_array_def)
  then have "wire h = wire (sys_hw s)"
    using r(2) by (metis sys.select_convs(1) sys.surjective sys.update_convs(1) sys.update_convs(5))
  with h show ?thesis by blast
qed

text \<open>The waits and the reads of answers.\<close>

lemma wait_step:
  assumes "stage devices hw reply sent got wire l (spi_node s)"
    and "\<forall>j < k. reply (sent (sys_hw s)) (got (sys_hw s) + j) = 0xFF"
    and "reply (sent (sys_hw s)) (got (sys_hw s) + k) \<noteq> 0xFF"
  shows "\<exists>h. mmc_spi_wait_unbusy devices l s = Some (reply (sent (sys_hw s)) (got (sys_hw s) + k), s\<lparr>sys_hw := h\<rparr>) \<and>
    sent h = sent (sys_hw s) \<and> got h = got (sys_hw s) + k + 1 \<and> wire h = wire (sys_hw s)"
  using assms
proof (induction k arbitrary: s)
  case 0
  then show ?case
    using read_byte_step [OF "0.prems"(1)] by (auto simp: mmc_spi_wait_unbusy.simps [of devices l s])
next
  case (Suc k)
  obtain h1 where h1: "mmc_read_byte devices l s = Some (reply (sent (sys_hw s)) (got (sys_hw s)), s\<lparr>sys_hw := h1\<rparr>)"
    "sent h1 = sent (sys_hw s)" "got h1 = Suc (got (sys_hw s))" "wire h1 = wire (sys_hw s)"
    using read_byte_step [OF Suc.prems(1)] by blast
  have later: "\<forall>j < k. reply (sent (sys_hw s)) (Suc (got (sys_hw s) + j)) = 0xFF"
    using Suc.prems(2) by (metis Suc_less_eq add_Suc_right)
  have ff: "reply (sent (sys_hw s)) (got (sys_hw s)) = 0xFF" using Suc.prems(2) by fastforce
  have "\<exists>h. mmc_spi_wait_unbusy devices l (s\<lparr>sys_hw := h1\<rparr>) =
      Some (reply (sent (sys_hw s)) (Suc (got (sys_hw s)) + k), s\<lparr>sys_hw := h\<rparr>) \<and>
    sent h = sent (sys_hw s) \<and> got h = Suc (got (sys_hw s)) + k + 1 \<and> wire h = wire (sys_hw s)"
    using Suc.IH [of "s\<lparr>sys_hw := h1\<rparr>"] Suc.prems h1 later by auto
  then show ?case using h1(1) ff by (auto simp: mmc_spi_wait_unbusy.simps [of devices l s])
qed

text \<open>A wait for the start byte that ignores the status takes anything but the start byte.\<close>

lemma start_step:
  assumes "stage devices hw reply sent got wire l (spi_node s)"
    and "\<forall>j < k. reply (sent (sys_hw s)) (got (sys_hw s) + j) \<noteq> 0xFE"
    and "reply (sent (sys_hw s)) (got (sys_hw s) + k) = 0xFE"
  shows "\<exists>h. mmc_spi_wait_start_block devices l 1 s = Some (MMC_OK, s\<lparr>sys_hw := h\<rparr>) \<and>
    sent h = sent (sys_hw s) \<and> got h = got (sys_hw s) + k + 1 \<and> wire h = wire (sys_hw s)"
  using assms
proof (induction k arbitrary: s)
  case 0
  then show ?case
    using read_byte_step [OF "0.prems"(1)] by (auto simp: mmc_spi_wait_start_block.simps [of devices l 1 s])
next
  case (Suc k)
  obtain h1 where h1: "mmc_read_byte devices l s = Some (reply (sent (sys_hw s)) (got (sys_hw s)), s\<lparr>sys_hw := h1\<rparr>)"
    "sent h1 = sent (sys_hw s)" "got h1 = Suc (got (sys_hw s))" "wire h1 = wire (sys_hw s)"
    using read_byte_step [OF Suc.prems(1)] by blast
  have later: "\<forall>j < k. reply (sent (sys_hw s)) (Suc (got (sys_hw s) + j)) \<noteq> 0xFE"
    using Suc.prems(2) by (metis Suc_less_eq add_Suc_right)
  have no: "reply (sent (sys_hw s)) (got (sys_hw s)) \<noteq> 0xFE" using Suc.prems(2) by fastforce
  have "\<exists>h. mmc_spi_wait_start_block devices l 1 (s\<lparr>sys_hw := h1\<rparr>) = Some (MMC_OK, s\<lparr>sys_hw := h\<rparr>) \<and>
    sent h = sent (sys_hw s) \<and> got h = Suc (got (sys_hw s)) + k + 1 \<and> wire h = wire (sys_hw s)"
    using Suc.IH [of "s\<lparr>sys_hw := h1\<rparr>"] Suc.prems h1 later by auto
  then show ?case using h1(1) no by (auto simp: mmc_spi_wait_start_block.simps [of devices l 1 s])
qed

text \<open>\<open>answers f p bs\<close>: from position \<open>p\<close> on come idle bytes and then \<open>bs\<close>, which does not begin as one.\<close>

definition answers :: "(nat \<Rightarrow> u8) \<Rightarrow> nat \<Rightarrow> u8 list \<Rightarrow> bool" where
  "answers f p bs \<longleftrightarrow> bs \<noteq> [] \<and> hd bs \<noteq> 0xFF \<and>
     (\<exists>k. (\<forall>j < k. f (p + j) = 0xFF) \<and> map f [p + k ..< p + k + length bs] = bs)"

lemma read_step:
  assumes st: "stage devices hw reply sent got wire l (spi_node s)"
    and a: "answers (reply (sent (sys_hw s))) (got (sys_hw s)) bs"
    and n: "unat n = length bs" "length bs \<le> length buf" "length bs < 2 ^ 31"
  shows "\<exists>h. mmc_read devices l buf n s = Some (overwrite 0 bs buf, s\<lparr>sys_hw := h\<rparr>) \<and>
    sent h = sent (sys_hw s) \<and> wire h = wire (sys_hw s)"
proof -
  obtain k where k: "\<forall>j < k. reply (sent (sys_hw s)) (got (sys_hw s) + j) = 0xFF"
    "map (reply (sent (sys_hw s))) [got (sys_hw s) + k ..< got (sys_hw s) + k + length bs] = bs"
    "hd bs \<noteq> 0xFF" "bs \<noteq> []"
    using a unfolding answers_def by blast
  have "map (reply (sent (sys_hw s))) [got (sys_hw s) + k ..< got (sys_hw s) + k + length bs] ! 0 = bs ! 0"
    using k(2) by simp
  then have nf: "reply (sent (sys_hw s)) (got (sys_hw s) + k) \<noteq> 0xFF"
    using k(3,4) by (simp add: hd_conv_nth)
  obtain h where h: "mmc_read devices l buf n s = Some (overwrite 0 bs buf, s\<lparr>sys_hw := h\<rparr>)"
    "sent h = sent (sys_hw s)"
    using mmc_read_at [OF stageD(1) [OF st] k(1) nf, of n buf l] n k by auto
  obtain h1 where h1: "mmc_spi_wait_unbusy devices l s = Some (reply (sent (sys_hw s)) (got (sys_hw s) + k), s\<lparr>sys_hw := h1\<rparr>)"
    "wire h1 = wire (sys_hw s)"
    using wait_step [OF st k(1) nf] by blast
  obtain c b v s2 where r: "dev_read devices (tl buf) (n - 1) (spi_node s) (s\<lparr>sys_hw := h1\<rparr>) = Some (c, b, v, s2)"
    "s\<lparr>sys_hw := h\<rparr> = s2\<lparr>spi_node := v\<rparr>"
    using h(1) h1(1) by (auto simp: mmc_read_def Option.bind_eq_Some_conv)
  have n0: "0 < unat n" using n(1) k(4) by simp
  then have n1: "unat (n - 1) = unat n - 1" by (simp add: unat_minus_one unat_gt_0)
  have "wire (sys_hw s2) = wire h1"
  proof (cases "unat n = 1")
    case True
    then have "n - 1 = 0" using n1 by (simp add: unat_eq_zero)
    then show ?thesis
      using r(1) spi_stream.dev_read_nothing [of devices "spi_node s" "spi (sys_xmc hw)" "tl buf" "s\<lparr>sys_hw := h1\<rparr>"]
        stageD(6) [OF st] by auto
  next
    case False
    then have "1 < length bs" using n0 n(1) by linarith
    then have "wire (sys_hw s2) = wire (sys_hw (s\<lparr>sys_hw := h1\<rparr>))"
      using n n0 n1 r(1) st by (intro dev_read_line [of devices hw reply sent got wire l "s\<lparr>sys_hw := h1\<rparr>" "n - 1" "tl buf" c b v s2]) auto
    then show ?thesis by simp
  qed
  then have "wire h = wire (sys_hw s)"
    using r(2) h1(2) by (metis sys.select_convs(1) sys.surjective sys.update_convs(1) sys.update_convs(5))
  with h show ?thesis by blast
qed

text \<open>What the console does leaves the card alone.\<close>

lemma uart_send_card:
  assumes "bus_and_line hw sent got wire" "usic_uart_send (sys_xmc hw) CH1 b s = Some s'"
  shows "sent (sys_hw s') = sent (sys_hw s) \<and> got (sys_hw s') = got (sys_hw s)"
proof -
  obtain s1 where s1: "spin (uart_tx_full (sys_xmc hw) CH1) s = Some s1"
    "s' = xmc_do (sys_xmc hw) (XMC_USIC_CH_TXFIFO_PutData (UART_CHANNEL CH1) (ucast b)) s1"
    using assms(2) by (auto simp: usic_uart_send_def Option.bind_eq_Some_conv)
  have full: "sys_hw (snd (uart_tx_full (sys_xmc hw) CH1 t)) = snd (uart_tx_full hw CH1 (sys_hw t))" for t :: "'a sys"
    by (auto simp: uart_tx_full_def sys_xmc_def Let_def split: prod.splits)
  have "sent (sys_hw s1) = sent (sys_hw s) \<and> got (sys_hw s1) = got (sys_hw s)"
    using spin_keeps [OF s1(1), of "\<lambda>t. sent (sys_hw t) = sent (sys_hw s) \<and> got (sys_hw t) = got (sys_hw s)"]
      bus_and_lineD(4) [OF assms(1)] by (simp add: full)
  then show ?thesis
    using s1(2) bus_and_lineD(3) [OF assms(1), of "XMC_USIC_CH_TXFIFO_PutData (UART_CHANNEL CH1) (ucast b)" "sys_hw s1"]
    by (simp add: sys_xmc_def)
qed

lemma uart_emit_card:
  assumes "bus_and_line hw sent got wire"
  shows "uart_emit (sys_xmc hw) CH1 v bs s = Some s' \<Longrightarrow>
    sent (sys_hw s') = sent (sys_hw s) \<and> got (sys_hw s') = got (sys_hw s)"
proof (induction bs arbitrary: s)
  case Nil
  then show ?case by (simp add: uart_emit_def)
next
  case (Cons b bs)
  then obtain s1 where "usic_uart_send (sys_xmc hw) CH1 b s = Some s1" "uart_emit (sys_xmc hw) CH1 v bs s1 = Some s'"
    by (auto simp: uart_emit_def Option.bind_eq_Some_conv)
  with Cons.IH [of s1] uart_send_card [OF assms] show ?case by simp
qed

lemma print_step:
  assumes st: "stage devices hw reply sent got wire l v"
    and "\<forall>q \<in> set ps. piece_ok q" "shown 128 ps = ps" "fmt = pieces_fmt ps @ [0]" "va = pieces_args ps"
  shows "\<exists>h. printf_sys devices l fmt va s = Some (s\<lparr>sys_hw := h\<rparr>) \<and> sent h = sent (sys_hw s) \<and>
    got h = got (sys_hw s) \<and> wire h = wire (sys_hw s) @ map ucast (pieces_text ps)"
proof -
  obtain h where h: "printf_sys devices l fmt va s = Some (s\<lparr>sys_hw := h\<rparr>)"
    "wire h = wire (sys_hw s) @ map ucast (pieces_text ps)"
    using printf_sys_line [OF stageD(5,4,3) [OF st] assms(2-5)] by blast
  have "printf devices (l_vnode l) (l_bf l) fmt va (sys_errno s, s) =
      map_option (\<lambda>s'. (0, sys_errno s, s')) (uart_emit (sys_xmc hw) CH1 (l_vnode l) (pieces_text ps) s)"
    using printf_emits [OF stageD(5) [OF st] assms(2) stageD(3) [OF st], of "l_vnode l" "[]" "[]" "sys_errno s" s "l_vnode l"]
      assms(3-5) by simp
  with h(1) obtain s' where "uart_emit (sys_xmc hw) CH1 (l_vnode l) (pieces_text ps) s = Some s'"
    "s\<lparr>sys_hw := h\<rparr> = s'\<lparr>sys_errno := sys_errno s\<rparr>"
    by (auto simp: printf_sys_def Option.bind_eq_Some_conv)
  with uart_emit_card [OF stageD(2) [OF st] this(1)]
  have "sent h = sent (sys_hw s)" "got h = got (sys_hw s)"
    by (metis sys.select_convs(1) sys.surjective sys.update_convs(1) sys.update_convs(6))+
  with h show ?thesis by blast
qed

text \<open>A line of plain text.\<close>

lemma print_line_step:
  assumes st: "stage devices hw reply sent got wire l v"
    and "\<forall>q \<in> set (lits str). piece_ok q" "length str < 128"
  shows "\<exists>h. printf_sys devices l (line str) [] s = Some (s\<lparr>sys_hw := h\<rparr>) \<and> sent h = sent (sys_hw s) \<and>
    got h = got (sys_hw s) \<and> wire h = wire (sys_hw s) @ map ucast (map of_char str @ [0x0A :: u8])"
proof -
  let ?ps = "lits str @ [Lit 0x0A]"
  have f: "pieces_fmt ?ps = map of_char str @ [0x0A]" "pieces_args ?ps = []" "pieces_text ?ps = map of_char str @ [0x0A]"
    by (induction str) (simp_all add: lits_def pieces_fmt_def pieces_args_def pieces_text_def)
  have "length (pieces_fmt ?ps) \<le> 128" unfolding f(1) using assms(3) by simp
  then have "shown 128 ?ps = ?ps" by (rule shown_all)
  from print_step [OF st _ this, of "line str" "[]" s] assms(2) show ?thesis
    by (simp add: f line_def)
qed

lemma ioctl_step:
  assumes st: "stage devices hw reply sent got wire l (spi_node s)"
    and "code = SPI_IOCTL_DISABLE_SLAVE \<and> d = NULL \<or> code = SPI_IOCTL_ENABLE_SLAVE \<and> d = Int_data c"
  shows "\<exists>h. spi_ioctl devices code d s = Some (d, s\<lparr>sys_hw := h\<rparr>) \<and> sent h = sent (sys_hw s) \<and>
    wire h = wire (sys_hw s)"
proof -
  note q = bus_and_lineD(1,3) [OF stageD(2) [OF st]]
  show ?thesis
    using assms(2) stageD(6) [OF st]
    by (auto simp: spi_ioctl_def dev_ioctl_def spi_def usic_spi_ioctl_def usic_spi_disable_slave_def
        usic_spi_enable_slave_def xmc_run_def sys_xmc_def q SPI_IOCTL_DISABLE_SLAVE_def SPI_IOCTL_ENABLE_SLAVE_def)
qed

end
