(* ===== verification/Mmc_Open.thy ===== *)
theory Mmc_Open
  imports Mmc_Steps
begin

text \<open>
  Opening a memory card: the commands \<open>mmc_spi_open\<close> of src/src/dev/mmc/mmc_spi.c gives to a card that
  behaves as the specification of SD cards documents, what the open leaves in the node, and what it
  prints; and what it does when there is no card.
\<close>

section \<open>A card that opens\<close>

text \<open>
  What the card has heard after each command of the opening; the card is ready after \<open>n\<close> polls.
\<close>

definition acmd41 :: "u8 list" where
  "acmd41 = [0xFF, 0x77, 0, 0, 0, 0, 0x01, 0xFF, 0xFF, 0xFF, 0xFF] @
     tl (mmc_frame MMC_CMD41 (MMC_OCR_VOLTAGE_30_31 OR MMC_OCR_HCS))"

definition heard_idle :: "u8 list \<Rightarrow> u8 list" where
  "heard_idle xs = xs @ replicate 10 0xFF @ [0x40, 0, 0, 0, 0, 0x95]"

definition heard_cmd8 :: "u8 list \<Rightarrow> u8 list" where
  "heard_cmd8 xs = heard_idle xs @ [0xFF, 0xFF] @ mmc_frame MMC_CMD08 (MMC_VOLTAGE_27_36 OR 0xAA)"

definition heard_polls :: "u8 list \<Rightarrow> nat \<Rightarrow> u8 list" where
  "heard_polls xs n = heard_cmd8 xs @ concat (replicate n acmd41)"

definition heard_cmd58 :: "u8 list \<Rightarrow> nat \<Rightarrow> u8 list" where
  "heard_cmd58 xs n = heard_polls xs n @ mmc_frame MMC_CMD58 0"

definition heard_cmd9 :: "u8 list \<Rightarrow> nat \<Rightarrow> u8 list" where
  "heard_cmd9 xs n = heard_cmd58 xs n @ mmc_frame MMC_CMD09 0"

definition heard_cmd10 :: "u8 list \<Rightarrow> nat \<Rightarrow> u8 list" where
  "heard_cmd10 xs n = heard_cmd9 xs n @ mmc_frame MMC_CMD10 0"



lemma overwrite_all: "length bs = length buf \<Longrightarrow> overwrite 0 bs buf = bs"
  by (simp add: overwrite_def)

lemma length_l_array [simp]: "length (l_array l n) = n"
  by (simp add: l_array_def)



text \<open>The first ten bytes, and the reset.\<close>

lemma ten_bytes_step:
  assumes st: "stage devices hw reply sent got wire l (spi_node s)" and b: "length bs = 6" "hd bs = 0xFF"
  shows "\<exists>h. fold (\<lambda>_ r. Option.bind r (mmc_send devices bs 1)) [0 ..< n] (Some s) = Some (s\<lparr>sys_hw := h\<rparr>) \<and>
    sent h = sent (sys_hw s) @ replicate n 0xFF \<and> wire h = wire (sys_hw s)"
proof (induction n)
  case 0
  show ?case by (rule exI [of _ "sys_hw s"]) simp
next
  case (Suc n)
  obtain h where h: "fold (\<lambda>_ r. Option.bind r (mmc_send devices bs 1)) [0 ..< n] (Some s) = Some (s\<lparr>sys_hw := h\<rparr>)"
    "sent h = sent (sys_hw s) @ replicate n 0xFF" "wire h = wire (sys_hw s)"
    using Suc by blast
  have "take 1 bs = [0xFF]" using b by (cases bs) auto
  then obtain h1 where "mmc_send devices bs 1 (s\<lparr>sys_hw := h\<rparr>) = Some (s\<lparr>sys_hw := h1\<rparr>)"
    "sent h1 = sent h @ [0xFF]" "wire h1 = wire h"
    using send_step [of devices hw reply sent got wire l "s\<lparr>sys_hw := h\<rparr>" 1 bs] st b(1) by auto
  with h show ?case by (auto simp: replicate_append_same)
qed

lemma idle_loop_line:
  assumes "stage devices hw reply sent got wire l (spi_node s)"
  shows "idle_loop devices l i s = Some (r, s') \<Longrightarrow> wire (sys_hw s') = wire (sys_hw s)"
  using assms
proof (induction devices l i s rule: idle_loop.induct)
  case (1 devices l i s)
  obtain h where h: "mmc_read_byte devices l s = Some (reply (sent (sys_hw s)) (got (sys_hw s)), s\<lparr>sys_hw := h\<rparr>)"
    "wire h = wire (sys_hw s)"
    using read_byte_step [OF "1.prems"(2)] by blast
  show ?case
    using "1.prems" h "1.IH" [OF h(1) refl]
    by (subst (asm) idle_loop.simps) (auto split: if_splits)
qed

lemma idle_any:
  assumes st: "stage devices hw reply sent got wire l (spi_node s)"
  shows "\<exists>h. mmc_to_idle devices l s =
      Some (if \<exists>j \<le> 128. reply (sent (sys_hw s) @ [0x40, 0, 0, 0, 0, 0x95]) j = 1 then MMC_OK else MMC_ERROR, s\<lparr>sys_hw := h\<rparr>) \<and>
    sent h = sent (sys_hw s) @ [0x40, 0, 0, 0, 0, 0x95] \<and> wire h = wire (sys_hw s)"
proof -
  obtain h1 where h1: "mmc_send devices [0x40, 0, 0, 0, 0, 0x95] 6 s = Some (s\<lparr>sys_hw := h1\<rparr>)"
    "sent h1 = sent (sys_hw s) @ [0x40, 0, 0, 0, 0, 0x95]" "got h1 = 0" "wire h1 = wire (sys_hw s)"
    using send_step [OF st, of 6 "[0x40, 0, 0, 0, 0, 0x95]"] by auto
  obtain r h where h: "idle_loop devices l 0 (s\<lparr>sys_hw := h1\<rparr>) = Some (r, s\<lparr>sys_hw := h\<rparr>)" "sent h = sent h1"
    "r = (if \<exists>j \<le> 128. reply (sent h1) j = 1 then MMC_OK else MMC_ERROR)"
    using idle_loop_at [of devices hw reply sent got "s\<lparr>sys_hw := h1\<rparr>" 0 l] stageD(1) [OF st] h1(2,3)
    by (auto simp: TIMEOUT_def)
  have "wire h = wire h1"
    using idle_loop_line [of devices hw reply sent got wire l "s\<lparr>sys_hw := h1\<rparr>", OF _ h(1)] st by simp
  with h h1 show ?thesis by (intro exI [of _ h]) (simp add: mmc_to_idle_def)
qed

lemma idle_fails:
  assumes st: "stage devices hw reply sent got wire l (spi_node s)"
    and no: "\<not> (\<exists>j \<le> 128. reply (sent (sys_hw s) @ [0x40, 0, 0, 0, 0, 0x95]) j = 1)"
  shows "\<exists>h. mmc_to_idle devices l s = Some (MMC_ERROR, s\<lparr>sys_hw := h\<rparr>) \<and>
    sent h = sent (sys_hw s) @ [0x40, 0, 0, 0, 0, 0x95] \<and> wire h = wire (sys_hw s)"
  using idle_any [OF st] unfolding if_not_P [OF no] .



section \<open>The registers\<close>






abbreviation put_line :: "string \<Rightarrow> u16 list" where
  "put_line str \<equiv> map ucast (map of_char str @ [0x0A :: u8])"












section \<open>Opening\<close>



text \<open>The ten bytes with the slave not selected, and its selection.\<close>

lemma select_step:
  assumes "stage devices hw reply sent got wire l (spi_node s)"
  shows "\<exists>h1 h2 h. spi_ioctl devices SPI_IOCTL_DISABLE_SLAVE NULL s = Some (NULL, s\<lparr>sys_hw := h1\<rparr>) \<and>
    fold (\<lambda>_ r. Option.bind r (mmc_send devices ([0xFF] @ drop 1 (l_array l 6)) 1)) [0 ..< 10] (Some (s\<lparr>sys_hw := h1\<rparr>)) =
      Some (s\<lparr>sys_hw := h2\<rparr>) \<and>
    spi_ioctl devices SPI_IOCTL_ENABLE_SLAVE (Int_data c) (s\<lparr>sys_hw := h2\<rparr>) = Some (Int_data c, s\<lparr>sys_hw := h\<rparr>) \<and>
    sent h = sent (sys_hw s) @ replicate 10 0xFF \<and> wire h = wire (sys_hw s)"
proof -
  have st': "stage devices hw reply sent got wire l (spi_node (s\<lparr>sys_hw := h\<rparr>))" for h using assms by simp
  obtain h1 where h1: "spi_ioctl devices SPI_IOCTL_DISABLE_SLAVE NULL s = Some (NULL, s\<lparr>sys_hw := h1\<rparr>)"
    "sent h1 = sent (sys_hw s)" "wire h1 = wire (sys_hw s)"
    using ioctl_step [OF assms, of SPI_IOCTL_DISABLE_SLAVE NULL] by auto
  obtain h2 where h2: "fold (\<lambda>_ r. Option.bind r (mmc_send devices ([0xFF] @ drop 1 (l_array l 6)) 1)) [0 ..< 10]
      (Some (s\<lparr>sys_hw := h1\<rparr>)) = Some (s\<lparr>sys_hw := h2\<rparr>)" "sent h2 = sent (sys_hw s) @ replicate 10 0xFF"
    "wire h2 = wire (sys_hw s)"
    using ten_bytes_step [OF st', of "[0xFF] @ drop 1 (l_array l 6)" 10 h1] h1 by auto
  show ?thesis
    using ioctl_step [OF st', of SPI_IOCTL_ENABLE_SLAVE "Int_data c" c h2] h1(1) h2 by auto
qed


text \<open>
  C26: opening without a card. If no idle status comes within 129 bytes of the reset, \<open>dev_open\<close> says so on
  the console, resets once more, returns -1 and marks the node as disabled.
\<close>

theorem mmc_open_without_card:
  assumes "stage devices hw reply sent got wire l (spi_node s)" "driver table v = Some (mmc devices l)"
    and "data v = Mmc_data i" "\<forall>j \<le> 128. reply (heard_idle (sent (sys_hw s))) j \<noteq> 1"
  shows "\<exists>h. dev_open table v s =
      Some (- 1, v\<lparr>data := Mmc_data (i\<lparr>mmc_flags := MMC_DISABLED\<rparr>)\<rparr>, s\<lparr>sys_hw := h\<rparr>) \<and>
    sent h = heard_idle (sent (sys_hw s)) @ [0x40, 0, 0, 0, 0, 0x95] \<and>
    wire h = wire (sys_hw s) @ put_line ''MMC : Error''"
proof -
  have st': "stage devices hw reply sent got wire l (spi_node (s\<lparr>sys_hw := h\<rparr>))" for h using assms(1) by simp
  let ?xs = "sent (sys_hw s)" and ?i = "i\<lparr>mmc_flags := 0\<rparr>"
  obtain h1 h2 h3 where h: "spi_ioctl devices SPI_IOCTL_DISABLE_SLAVE NULL s = Some (NULL, s\<lparr>sys_hw := h1\<rparr>)"
    "fold (\<lambda>_ r. Option.bind r (mmc_send devices ([0xFF] @ drop 1 (l_array l 6)) 1)) [0 ..< 10] (Some (s\<lparr>sys_hw := h1\<rparr>)) =
      Some (s\<lparr>sys_hw := h2\<rparr>)"
    "spi_ioctl devices SPI_IOCTL_ENABLE_SLAVE (Int_data (spi_channel ?i)) (s\<lparr>sys_hw := h2\<rparr>) =
      Some (Int_data (spi_channel ?i), s\<lparr>sys_hw := h3\<rparr>)"
    and h3: "sent h3 = ?xs @ replicate 10 0xFF" "wire h3 = wire (sys_hw s)"
    using select_step [OF assms(1), of "spi_channel ?i"] by blast
  have no: "\<not> (\<exists>j \<le> 128. reply (heard_idle ?xs) j = 1)" using assms(4) by blast
  have e: "sent h3 @ [0x40, 0, 0, 0, 0, 0x95] = heard_idle ?xs" using h3(1) by (simp add: heard_idle_def)
  obtain h4 where h4: "mmc_to_idle devices l (s\<lparr>sys_hw := h3\<rparr>) = Some (MMC_ERROR, s\<lparr>sys_hw := h4\<rparr>)"
    "sent h4 = heard_idle ?xs" "wire h4 = wire (sys_hw s)"
    using idle_fails [OF st', of h3] no h3(2) e by auto
  obtain h5 where h5: "printf_sys devices l (line ''MMC : Error'') [] (s\<lparr>sys_hw := h4\<rparr>) = Some (s\<lparr>sys_hw := h5\<rparr>)"
    "sent h5 = heard_idle ?xs" "wire h5 = wire (sys_hw s) @ put_line ''MMC : Error''"
    using print_line_step [OF assms(1), of "''MMC : Error''" "s\<lparr>sys_hw := h4\<rparr>"] h4 by (auto simp: lits_def)
  obtain r h6 where h6: "mmc_to_idle devices l (s\<lparr>sys_hw := h5\<rparr>) = Some (r, s\<lparr>sys_hw := h6\<rparr>)"
    "sent h6 = heard_idle ?xs @ [0x40, 0, 0, 0, 0, 0x95]" "wire h6 = wire h5"
    using idle_any [OF st', of h5] h5(2) by auto
  have "mmc_start devices l i s = Some (- 1, ?i, s\<lparr>sys_hw := h5\<rparr>)"
    using h h4(1) h5(1) unfolding mmc_start_def by (simp del: upt_rec_numeral)
  then have "dev_open table v s = Some (- 1, v\<lparr>data := Mmc_data (i\<lparr>mmc_flags := MMC_DISABLED\<rparr>)\<rparr>, s\<lparr>sys_hw := h6\<rparr>)"
    using assms(2,3) h6(1) by (simp add: dev_open_def mmc_def mmc_spi_open_def mmc_data_def)
  then show ?thesis using h6(2,3) h5(3) by (intro exI [of _ h6]) simp
qed

section \<open>Examples\<close>

text \<open>A desk with a card on the bus and a console on the line; the card is busy for one poll.\<close>

record desk =
  dk_sent :: "u8 list"
  dk_got :: nat
  dk_wire :: "u16 list"





fun desk_do :: "xmc_call \<Rightarrow> desk \<Rightarrow> desk" where
  "desk_do (XMC_SPI_CH_Transmit ch w m) h = (if ch = XMC_SPI0_CH0 then h\<lparr>dk_sent := dk_sent h @ [ucast w], dk_got := 0\<rparr> else h)"
| "desk_do (XMC_USIC_CH_TXFIFO_PutData ch w) h = (if ch = XMC_UART0_CH1 then h\<lparr>dk_wire := dk_wire h @ [w]\<rparr> else h)"
| "desk_do _ h = h"

fun desk_get :: "(u8 list \<Rightarrow> nat \<Rightarrow> u8) \<Rightarrow> xmc_query \<Rightarrow> desk \<Rightarrow> u32 \<times> desk" where
  "desk_get reply (XMC_SPI_CH_GetReceivedData ch) h = (ucast (reply (dk_sent h) (dk_got h)), h\<lparr>dk_got := Suc (dk_got h)\<rparr>)"
| "desk_get reply (XMC_SPI_CH_GetStatusFlag ch) h = (1, h)"
| "desk_get reply _ h = (0, h)"

definition desk_xmc :: "(u8 list \<Rightarrow> nat \<Rightarrow> u8) \<Rightarrow> desk xmc" where
  "desk_xmc reply = \<lparr>xmc_do = desk_do, xmc_get = desk_get reply, xmc_value = (\<lambda>_. 1)\<rparr>"

definition desk_sys :: "desk sys" where
  "desk_sys = \<lparr>sys_hw = \<lparr>dk_sent = [], dk_got = 0, dk_wire = []\<rparr>, uart_node = demo_mmc_node 2 No_data,
     i2c_node = demo_mmc_node 0 No_data, rtc_node = demo_mmc_node 6 No_data,
     spi_node = demo_mmc_node 1 No_data, sys_errno = EPERM\<rparr>"

definition desk_table :: "(u8 list \<Rightarrow> nat \<Rightarrow> u8) \<Rightarrow> (node_data, desk sys) dev_table" where
  "desk_table reply = driver_map DEV_UART (uart (sys_xmc (desk_xmc reply)) CH1 UART_19200)
     (driver_map DEV_SPI (spi (sys_xmc (desk_xmc reply))) no_devices)"

definition desk_mmc :: "(u8 list \<Rightarrow> nat \<Rightarrow> u8) \<Rightarrow> (node_data, desk sys) dev_table" where
  "desk_mmc reply = driver_map DEV_MMC (mmc (desk_table reply) demo_locals) no_devices"

lemma desk_stage: "stage (desk_table reply) (desk_xmc reply) reply dk_sent dk_got dk_wire demo_locals (spi_node desk_sys)"
proof -
  have sh: "spi_shifting (desk_xmc reply) h = (False, h)" for h
    by (simp add: spi_shifting_def desk_xmc_def)
  then have "settles (spi_shifting (desk_xmc reply)) h h" for h by (rule settles_now)
  then have a: "answering (desk_xmc reply) reply dk_sent dk_got"
    unfolding answering_def by (auto simp: desk_xmc_def Let_def)
  have full: "uart_tx_full (desk_xmc reply) CH1 h = (False, h)" for h
    by (simp add: uart_tx_full_def desk_xmc_def)
  then have "settles (uart_tx_full (desk_xmc reply) CH1) h h" for h by (rule settles_now)
  then have u: "uart_line (desk_xmc reply) CH1 dk_wire"
    unfolding uart_line_def by (auto simp: full) (simp add: desk_xmc_def)
  have w: "dk_wire (desk_do c h) = dk_wire h" if "\<forall>w. c \<noteq> XMC_USIC_CH_TXFIFO_PutData XMC_UART0_CH1 w" for c h
    using that by (cases c) auto
  have t: "dk_sent (desk_do c h) = dk_sent h \<and> dk_got (desk_do c h) = dk_got h"
    if "\<forall>w m. c \<noteq> XMC_SPI_CH_Transmit XMC_SPI0_CH0 w m" for c h
    using that by (cases c) auto
  have q: "dk_wire (snd (desk_get reply q h)) = dk_wire h" for q h by (cases q) auto
  have b: "bus_and_line (desk_xmc reply) dk_sent dk_got dk_wire"
    unfolding bus_and_line_def only_fifo_sends_def using w t q by (simp add: desk_xmc_def)
  have "driver (driver_map DEV_SPI (spi (sys_xmc (desk_xmc reply))) no_devices) (spi_node desk_sys) = Some (spi (sys_xmc (desk_xmc reply)))"
    by (rule driver_map_same) (simp_all add: node_of_def desk_sys_def demo_mmc_node_def)
  then have "driver (desk_table reply) (spi_node desk_sys) = Some (spi (sys_xmc (desk_xmc reply)))"
    unfolding desk_table_def
    by (subst driver_map_other [of DEV_SPI]) (simp_all add: node_of_def desk_sys_def demo_mmc_node_def)
  moreover have "has_uart (desk_table reply) (sys_xmc (desk_xmc reply)) CH1 UART_19200"
    unfolding desk_table_def by (rule has_uart_mapped) simp
  ultimately show ?thesis
    using a b u by (simp add: stage_def card_on_def demo_locals_def)
qed

lemma desk_driver: "driver (desk_mmc reply) demo_card = Some (mmc (desk_table reply) demo_locals)"
  unfolding desk_mmc_def
  by (rule driver_map_same) (simp_all add: node_of_def demo_card_def)

lemma heard_lengths:
  "length (heard_idle []) = 16" "length (heard_cmd8 []) = 25" "length (heard_polls [] n) = 25 + 17 * n"
  "length (heard_cmd58 [] n) = 32 + 17 * n" "length (heard_cmd9 [] n) = 39 + 17 * n" "length (heard_cmd10 [] n) = 46 + 17 * n"
  by (simp_all add: heard_idle_def heard_cmd8_def heard_polls_def heard_cmd58_def heard_cmd9_def heard_cmd10_def
      acmd41_def length_concat sum_list_replicate)






theorem mmc_open_without_card_witness:
  "\<exists>h. dev_open (desk_mmc (\<lambda>_ _. 0xFF)) demo_card desk_sys =
      Some (- 1, demo_card\<lparr>data := Mmc_data (demo_info\<lparr>mmc_flags := MMC_DISABLED\<rparr>)\<rparr>, desk_sys\<lparr>sys_hw := h\<rparr>) \<and>
    length (dk_sent h) = 22 \<and> dk_wire h = put_line ''MMC : Error''"
  using mmc_open_without_card [OF desk_stage [of "\<lambda>_ _. 0xFF"] desk_driver, of demo_info]
  by (auto simp: demo_card_def desk_sys_def heard_lengths)

end
