(* ===== verification/Reset_Startup.thy ===== *)
theory Reset_Startup
  imports Kernel_Boot
begin

text \<open>
  The reset code: \<open>_start\<close> of src/src/arch/arm/cortex-m0/init.s, which fills the RAM before any C
  code runs, and \<open>c_init\<close> of src/src/c_init.c. The memory is a map from addresses to bytes; the
  sections' addresses and sizes are those the linker script defines.
\<close>

section \<open>The loops\<close>

type_synonym bytes = "u32 \<Rightarrow> u8"

text \<open>
  A word is loaded, then stored. The processor faults on an address that is no multiple of
  four: no result.
\<close>

definition copy_word :: "u32 \<Rightarrow> u32 \<Rightarrow> bytes \<Rightarrow> bytes option" where
  "copy_word src dst m =
     (if src AND 3 \<noteq> 0 \<or> dst AND 3 \<noteq> 0 then None
      else Some (m(dst := m src, dst + 1 := m (src + 1), dst + 2 := m (src + 2), dst + 3 := m (src + 3))))"

lemma counter_decreases: "r \<noteq> (1 :: u32) \<Longrightarrow> unat (r - 2) < unat (r - 1)"
  using unat_minus_one [of "r - 1"] unat_gt_0 [of "r - 1"] by simp

text \<open>The loops test their counter after they have decremented it.\<close>

function vector_loop :: "u32 \<Rightarrow> u32 \<Rightarrow> u32 \<Rightarrow> bytes \<Rightarrow> bytes option" where
  "vector_loop r1 r3 r5 m = do {
     m1 \<leftarrow> copy_word r1 r3 m;
     let r5' = r5 - 1;
     if r5' \<noteq> 0 then vector_loop (r1 + 4) (r3 + 4) r5' m1 else Some m1
   }"
  by pat_completeness auto

termination
  by (relation "measure (\<lambda>(r1, r3, r5, m). unat (r5 - 1))") (auto simp: counter_decreases)

declare vector_loop.simps [simp del]

text \<open>\<open>bss_loop\<close> and \<open>stack_loop\<close>, which differ in the byte they store.\<close>

function fill_loop :: "u8 \<Rightarrow> u32 \<Rightarrow> u32 \<Rightarrow> bytes \<Rightarrow> bytes" where
  "fill_loop r2 r3 r5 m =
     (let m1 = m(r3 := r2);
          r5' = r5 - 1
      in if r5' \<noteq> 0 then fill_loop r2 (r3 + 1) r5' m1 else m1)"
  by pat_completeness auto
termination
  by (relation "measure (\<lambda>(r2, r3, r5, m). unat (r5 - 1))") (auto simp: counter_decreases)

declare fill_loop.simps [simp del]

text \<open>What the linker script defines, and the code up to the call of \<open>c_init\<close>.\<close>

record sections =
  data_flash :: u32
  data_ram :: u32
  data_size :: u32
  bss_start :: u32
  bss_size :: u32
  stack_start :: u32
  stack_size :: u32

definition start_memory :: "sections \<Rightarrow> bytes \<Rightarrow> bytes option" where
  "start_memory im m = do {
     m1 \<leftarrow> vector_loop (data_flash im) (data_ram im) (data_size im) m;
     let m2 = fill_loop 0 (bss_start im) (bss_size im) m1;
     Some (fill_loop 0xAB (stack_start im) (stack_size im) m2)
   }"

text \<open>
  \<open>c_init\<close>. \<open>SysTick_CTRL\<close> is the write of the control register; the result of \<open>SysTick_Config\<close> is
  ignored.
\<close>

definition c_init :: "(u32 \<Rightarrow> kern \<Rightarrow> kern) \<Rightarrow> (u32 \<Rightarrow> kern \<Rightarrow> kern) \<Rightarrow> u32 \<Rightarrow> kern \<Rightarrow> kern" where
  "c_init SysTick_CTRL SysTick_Config SystemCoreClock k =
     SysTick_Config (SystemCoreClock div 1000) (SysTick_CTRL 3 k)"

section \<open>What the loops do\<close>

lemma fill_loop_spec:
  "fill_loop b r n m a = (if n = 0 \<or> unat (a - r) < unat n then b else m a)"
proof (induction b r n m rule: fill_loop.induct)
  case (1 b r n m)
  have n1: "unat (n - 1) = unat n - 1" if "n \<noteq> 0" using that by (rule unat_minus_one)
  have a1: "unat (a - (r + 1)) = unat (a - r) - 1" "0 < unat (a - r)" if "a \<noteq> r"
    using that unat_minus_one [of "a - r"] by (simp_all add: diff_diff_eq unat_gt_0)
  have lt: "unat (a - (r + 1)) < unat (- 1 :: u32)" if "a \<noteq> r"
  proof -
    have "a - (r + 1) \<noteq> - 1" using that by (simp add: algebra_simps)
    then show ?thesis
      by (metis unat_mono word_not_simps(3) word_order.not_eq_extremum)
  qed
  show ?case
  proof (cases "n - 1 = 0")
    case True
    then show ?thesis by (subst fill_loop.simps) (auto simp: unat_eq_0)
  next
    case False
    then have "fill_loop b r n m a = (if unat (a - (r + 1)) < unat (n - 1) then b else (m(r := b)) a)"
      using "1.IH" [of "m(r := b)" "n - 1"]
      by (subst fill_loop.simps) (simp only: Let_def not_False_eq_True if_True simp_thms)
    also have "\<dots> = (if n = 0 \<or> unat (a - r) < unat n then b else m a)"
    proof (cases "a = r \<or> n = 0")
      case True
      then show ?thesis using lt by (cases "a = r"; cases "n = 0") (simp_all add: unat_gt_0)
    next
      case False
      then have "unat (a - r) - 1 < unat n - 1 \<longleftrightarrow> unat (a - r) < unat n"
        using a1(2) by linarith
      then show ?thesis using False n1 a1(1) by simp
    qed
    finally show ?thesis .
  qed
qed

lemma fill_loop_eq: "fill_loop b r n m = (\<lambda>a. if n = 0 \<or> unat (a - r) < unat n then b else m a)"
  by (rule ext) (rule fill_loop_spec)

lemma and_3: "x AND 3 = take_bit 2 (x :: u32)"
  by (simp add: take_bit_eq_mask mask_numeral)

lemma aligned_iff: "x AND 3 = (0 :: u32) \<longleftrightarrow> unat x mod 4 = 0"
proof -
  have "unat (take_bit 2 x) = unat x mod 4" 
    by (simp only: unsigned_take_bit_eq) (simp add: take_bit_eq_mod)
  then show ?thesis by (simp add: and_3 flip: unat_eq_0)
qed

lemma aligned_4: "x AND 3 = 0 \<Longrightarrow> (x + 4) AND 3 = (0 :: u32)"
proof -
  assume "x AND 3 = 0"
  moreover have "unat (x + 4) mod 4 = (unat x + 4) mod 2 ^ 32 mod 4"
    by (simp add: unat_word_ariths)
  moreover have "\<dots> = unat x mod 4" by (subst mod_mod_cancel) simp_all
  ultimately show ?thesis by (simp only: aligned_iff)
qed

lemma unat_less_4: "unat (x :: u32) < 4 \<longleftrightarrow> x = 0 \<or> x = 1 \<or> x = 2 \<or> x = 3"
proof -
  have "unat x < 4 \<longleftrightarrow> unat x = unat (0 :: u32) \<or> unat x = unat (1 :: u32) \<or> unat x = unat (2 :: u32) \<or> unat x = unat (3 :: u32)"
    by auto
  then show ?thesis by (simp only: unsigned_word_eqI word_unat_eq_iff)
qed

lemma copy_word_eq:
  assumes "s AND 3 = 0" "d AND 3 = 0"
  shows "copy_word s d m = Some (\<lambda>a. if unat (a - d) < 4 then m (s + (a - d)) else m a)"
proof -
  have "(m(d := m s, d + 1 := m (s + 1), d + 2 := m (s + 2), d + 3 := m (s + 3))) a =
      (if unat (a - d) < 4 then m (s + (a - d)) else m a)" for a
  proof -
    have "unat (a - d) < 4 \<longleftrightarrow> a = d \<or> a = d + 1 \<or> a = d + 2 \<or> a = d + 3"
      unfolding unat_less_4 by (simp add: algebra_simps)
    then show ?thesis by auto
  qed
  then show ?thesis using assms by (simp add: copy_word_def fun_eq_iff)
qed

lemma unat_skip_4:
  "unat (x - 4 :: u32) = (if unat x < 4 then 2 ^ 32 - 4 + unat x else unat x - 4)"
proof (cases "unat x < 4")
  case True
  then show ?thesis unfolding unat_less_4 by (elim disjE) (simp_all add: unsigned_minus_1_eq_mask mask_eq_exp_minus_1)
next
  case False
  then have "4 \<le> x" by (simp add: word_le_nat_alt)
  then show ?thesis using False by (simp add: unat_sub)
qed

lemma vector_loop_eq:
  assumes "s AND 3 = 0" "d AND 3 = 0" "n \<noteq> 0" "4 * unat n \<le> 2 ^ 32"
    and "\<forall>a. unat (a - s) < 4 * unat n \<longrightarrow> \<not> unat (a - d) < 4 * unat n"
  shows "vector_loop s d n m = Some (\<lambda>a. if unat (a - d) < 4 * unat n then m (s + (a - d)) else m a)"
  using assms
proof (induction s d n m rule: vector_loop.induct)
  case (1 s d n m)
  let ?m1 = "\<lambda>a. if unat (a - d) < 4 then m (s + (a - d)) else m a"
  have c: "copy_word s d m = Some ?m1" using copy_word_eq 1(2,3) .
  have n1: "unat (n - 1) = unat n - 1" "0 < unat n" using 1(4) by (simp_all add: unat_minus_one unat_gt_0)
  show ?case
  proof (cases "n - 1 = 0")
    case True
    then have "n = 1" by simp
    then show ?thesis by (subst vector_loop.simps) (simp add: c)
  next
    case False
    have dis: "\<not> unat (s + (a - d) - d) < 4" if "unat (a - d) < 4 * unat n" for a
      using 1(6) [rule_format, of "s + (a - d)"] that n1 by auto
    have "vector_loop s d n m = vector_loop (s + 4) (d + 4) (n - 1) ?m1"
      by (subst vector_loop.simps) (simp add: c Let_def False del: right_minus_eq)
    also have "\<dots> = Some (\<lambda>a. if unat (a - (d + 4)) < 4 * unat (n - 1) then ?m1 (s + 4 + (a - (d + 4))) else ?m1 a)"
    proof (rule "1.IH" [OF c refl False aligned_4 [OF 1(2)] aligned_4 [OF 1(3)] False])
      show "4 * unat (n - 1) \<le> 2 ^ 32" using 1(5) n1 by simp
      show "\<forall>a. unat (a - (s + 4)) < 4 * unat (n - 1) \<longrightarrow> \<not> unat (a - (d + 4)) < 4 * unat (n - 1)"
      proof (intro allI impI notI)
        fix a assume "unat (a - (s + 4)) < 4 * unat (n - 1)" "unat (a - (d + 4)) < 4 * unat (n - 1)"
        then have "unat (a - s) < 4 * unat n" "unat (a - d) < 4 * unat n"
          using unat_skip_4 [of "a - s"] unat_skip_4 [of "a - d"] n1 1(5)
          by (auto simp: diff_diff_eq split: if_splits)
        with 1(6) show False by blast
      qed
    qed
    also have "\<dots> = Some (\<lambda>a. if unat (a - d) < 4 * unat n then m (s + (a - d)) else m a)"
    proof -
      have "(if unat (a - (d + 4)) < 4 * unat (n - 1) then ?m1 (s + 4 + (a - (d + 4))) else ?m1 a) =
          (if unat (a - d) < 4 * unat n then m (s + (a - d)) else m a)" for a
      proof -
        have e: "s + 4 + (a - (d + 4)) = s + (a - d)" by simp
        have u: "unat (a - (d + 4)) = (if unat (a - d) < 4 then 2 ^ 32 - 4 + unat (a - d) else unat (a - d) - 4)"
          using unat_skip_4 [of "a - d"] by (simp add: diff_diff_eq)
        show ?thesis
        proof (cases "unat (a - d) < 4")
          case True
          then have "\<not> unat (a - (d + 4)) < 4 * unat (n - 1)" using u n1 1(5) by auto
          then show ?thesis using True n1 by simp
        next
          case False
          then have "unat (a - (d + 4)) < 4 * unat (n - 1) \<longleftrightarrow> unat (a - d) < 4 * unat n"
            using u n1 by auto
          then show ?thesis using False dis [of a] unfolding e by simp
        qed
      qed
      then show ?thesis by presburger
    qed
    finally show ?thesis .
  qed
qed

section \<open>The filled memory\<close>

text \<open>
  The sections in the order of the linker script: code and the initial values of \<open>.data\<close> in the
  flash, then in the RAM \<open>.data\<close>, \<open>.bss\<close>, the heap and the stacks, none of the three sections empty.
\<close>

definition sections_ok :: "sections \<Rightarrow> bool" where
  "sections_ok im \<longleftrightarrow> data_flash im AND 3 = 0 \<and> data_ram im AND 3 = 0 \<and>
     0 < unat (data_size im) \<and> 0 < unat (bss_size im) \<and> 0 < unat (stack_size im) \<and>
     unat (data_flash im) + 4 * unat (data_size im) \<le> unat (data_ram im) \<and>
     unat (data_ram im) + 4 * unat (data_size im) \<le> 2 ^ 32 \<and>
     unat (data_ram im) + unat (data_size im) \<le> unat (bss_start im) \<and>
     unat (bss_start im) + unat (bss_size im) \<le> unat (stack_start im) \<and>
     unat (stack_start im) + unat (stack_size im) \<le> 2 ^ 32"

lemma unat_diff_le: "unat b \<le> unat a \<Longrightarrow> unat (a - b :: u32) = unat a - unat b"
  by (simp add: unat_sub word_le_nat_alt)

lemma in_section:
  assumes "unat b + n \<le> 2 ^ 32"
  shows "unat (a - b :: u32) < n \<longleftrightarrow> unat b \<le> unat a \<and> unat a < unat b + n"
proof (cases "unat b \<le> unat a")
  case True
  then show ?thesis using unat_diff_le [OF True] by auto
next
  case False
  then have "unat (a - b) = 2 ^ 32 + unat a - unat b"
    using unat_sub_if' [of a b] by simp
  then show ?thesis using False assms by auto
qed

text \<open>
  The memory the C code starts with. Every byte of the stack section is 0xAB, every byte of
  \<open>.bss\<close> is 0, every byte of \<open>.data\<close> has its initial value, and the rest of the memory is as it was,
  but for the beginning of the heap: \<open>vector_loop\<close> takes the size in bytes for a number of words,
  so it copies three times the size of \<open>.data\<close> too much, of which \<open>.bss\<close> and the
  stacks are overwritten afterwards.
\<close>

theorem start_memory_sections:
  assumes "sections_ok im"
  shows "\<exists>m'. start_memory im m = Some m' \<and> (\<forall>a. m' a =
    (if unat (stack_start im) \<le> unat a \<and> unat a < unat (stack_start im) + unat (stack_size im) then 0xAB
     else if unat (bss_start im) \<le> unat a \<and> unat a < unat (bss_start im) + unat (bss_size im) then 0
     else if unat (data_ram im) \<le> unat a \<and> unat a < unat (data_ram im) + 4 * unat (data_size im)
       then m (data_flash im + (a - data_ram im))
     else m a))"
proof -
  note ok = assms [unfolded sections_ok_def]
  let ?n = "4 * unat (data_size im)"
  have ne: "data_size im \<noteq> 0" "bss_size im \<noteq> 0" "stack_size im \<noteq> 0"
    using ok by (auto simp flip: unat_gt_0)
  have sec: "unat (a - data_flash im) < ?n \<longleftrightarrow> unat (data_flash im) \<le> unat a \<and> unat a < unat (data_flash im) + ?n"
    "unat (a - data_ram im) < ?n \<longleftrightarrow> unat (data_ram im) \<le> unat a \<and> unat a < unat (data_ram im) + ?n"
    "unat (a - bss_start im) < unat (bss_size im) \<longleftrightarrow>
       unat (bss_start im) \<le> unat a \<and> unat a < unat (bss_start im) + unat (bss_size im)"
    "unat (a - stack_start im) < unat (stack_size im) \<longleftrightarrow>
       unat (stack_start im) \<le> unat a \<and> unat a < unat (stack_start im) + unat (stack_size im)" for a
    using ok by (intro in_section; linarith)+
  have "vector_loop (data_flash im) (data_ram im) (data_size im) m =
      Some (\<lambda>a. if unat (a - data_ram im) < ?n then m (data_flash im + (a - data_ram im)) else m a)"
  proof (rule vector_loop_eq)
    show "\<forall>a. unat (a - data_flash im) < ?n \<longrightarrow> \<not> unat (a - data_ram im) < ?n"
      unfolding sec using ok by auto
  qed (use ok ne in simp_all)
  then show ?thesis
    using ne by (simp add: start_memory_def Let_def fill_loop_eq sec)
qed

definition demo_sections :: sections where
  "demo_sections = \<lparr>data_flash = 0x10004000, data_ram = 0x20000000, data_size = 0x110, bss_start = 0x20000110,
     bss_size = 0x140, stack_start = 0x20001250, stack_size = 0x1200\<rparr>"

text \<open>A byte of the heap that gets the contents of the flash behind the initial values.\<close>

theorem start_memory_sections_witness:
  "\<exists>m'. start_memory demo_sections (\<lambda>a. if a = 0x10004300 then 0x55 else 0xFF) = Some m' \<and> m' 0x20000300 = 0x55 \<and>
    m' 0x20000110 = 0 \<and> m' 0x20001250 = 0xAB"
proof -
  have "sections_ok demo_sections" by (simp add: sections_ok_def demo_sections_def)
  from start_memory_sections [OF this, of "\<lambda>a. if a = 0x10004300 then 0x55 else 0xFF"]
  obtain m' where "start_memory demo_sections (\<lambda>a. if a = 0x10004300 then 0x55 else 0xFF) = Some m'"
    "\<forall>a. m' a = (if unat (stack_start demo_sections) \<le> unat a \<and> unat a < unat (stack_start demo_sections) + unat (stack_size demo_sections) then 0xAB
     else if unat (bss_start demo_sections) \<le> unat a \<and> unat a < unat (bss_start demo_sections) + unat (bss_size demo_sections) then 0
     else if unat (data_ram demo_sections) \<le> unat a \<and> unat a < unat (data_ram demo_sections) + 4 * unat (data_size demo_sections)
       then (if data_flash demo_sections + (a - data_ram demo_sections) = 0x10004300 then 0x55 else 0xFF)
     else (if a = 0x10004300 then 0x55 else 0xFF))" by blast
  then show ?thesis by (intro exI [of _ m']) (simp add: demo_sections_def)
qed

text \<open>
  The loops run once before they test their counter: for an empty section they go through
  the whole address space.
\<close>

lemma fill_loop_empty: "fill_loop b r 0 m = (\<lambda>_. b)"
  by (simp add: fill_loop_eq)

text \<open>
  The timer \<open>c_init\<close> starts is set again when the scheduler starts: for the kernel state it has
  no effect, if writing the control register has none.
\<close>

lemma c_init_redundant:
  assumes "systick_config_ok cfg" "\<And>x k. ctrl x k = k" "0 < unat (clk div 1000)" "unat (clk div 1000) \<le> 2 ^ 24"
  shows "scheduler_init cfg clk (c_init ctrl cfg clk k) = scheduler_init cfg clk k"
proof -
  have cfg: "cfg (clk div 1000) k' = k'\<lparr>SysTick_LOAD := clk div 1000 - 1, SysTick_VAL := 0\<rparr>" for k'
    using assms(1,3,4) unfolding systick_config_ok_def by blast
  show ?thesis
    unfolding c_init_def scheduler_init_def set_state_def Let_def cfg assms(2) by simp
qed

end
