(* ===== verification/Reset_Vectors.thy ===== *)
theory Reset_Vectors
  imports Reset_Startup
begin

text \<open>
  The whole of \<open>_start\<close> in src/src/arch/arm/cortex-m0/init.s: the stacks it chooses around the filling
  of the RAM (theory \<open>Reset_Startup\<close>), and the exception vectors of the same file, which the
  filling puts at the beginning of the RAM.
\<close>

section \<open>The vectors\<close>

text \<open>
  The section \<open>.remapped_vectors\<close>: for every exception number one word, which is zero or holds the two
  instructions \<open>ldr r0, =handler\<close> and \<open>mov pc, r0\<close>. The boot program of the microcontroller
  jumps to word n when it takes exception n. Interrupts have the numbers from 16 on.
\<close>

datatype vector_target = To_start | To_HardFault | To_SVC | To_PendSV | To_SysTick

datatype vector_slot = Zero_word | Jump vector_target

definition vectors :: "vector_slot list" where
  "vectors =
     [Zero_word, Jump To_start, Zero_word, Jump To_HardFault] @ replicate 7 Zero_word @
     [Jump To_SVC, Zero_word, Zero_word, Jump To_PendSV, Jump To_SysTick] @ replicate 31 Zero_word"

text \<open>A zero word is two instructions without effect, so the processor goes on to the next slot.\<close>

fun follow_slots :: "vector_slot list \<Rightarrow> vector_target option" where
  "follow_slots [] = None"
| "follow_slots (Zero_word # vs) = follow_slots vs"
| "follow_slots (Jump h # vs) = Some h"

definition vector_handler :: "nat \<Rightarrow> vector_target option" where
  "vector_handler n = follow_slots (drop n vectors)"

text \<open>
  The exceptions the kernel handles, by their numbers. A fault or a restart does not come back, nor
  does \<open>PendSV_Handler\<close>, which is the endless loop \<open>Default_handler\<close> of isr_s.s.
\<close>

fun exn_number :: "exn \<Rightarrow> nat" where
  "exn_number SVCallExn = 11"
| "exn_number SysTickExn = 15"

definition take_exception :: "(u32 \<Rightarrow> u8) \<Rightarrow> nat \<Rightarrow> cpu \<Rightarrow> kern \<Rightarrow> (cpu \<times> kern) option" where
  "take_exception code n c k =
     (case vector_handler n of
        Some To_SysTick \<Rightarrow> SysTick_Handler c k
      | Some To_SVC \<Rightarrow> SVC_Handler code c k
      | _ \<Rightarrow> None)"

lemma follow_replicate: "follow_slots (replicate n Zero_word @ vs) = follow_slots vs"
  by (induction n) simp_all

lemma vector_handlers:
  "vector_handler 1 = Some To_start" "vector_handler 3 = Some To_HardFault"
  "vector_handler 11 = Some To_SVC" "vector_handler 14 = Some To_PendSV"
  "vector_handler 15 = Some To_SysTick"
  by code_simp+

text \<open>Without a vector of its own, an exception gets the handler of the next one that has one.\<close>

lemma vector_fall_through:
  "vector_handler 2 = Some To_HardFault"
  "4 \<le> n \<Longrightarrow> n \<le> 10 \<Longrightarrow> vector_handler n = Some To_SVC"
  "n = 12 \<or> n = 13 \<Longrightarrow> vector_handler n = Some To_PendSV"
proof -
  show "vector_handler 2 = Some To_HardFault" by code_simp
  have "\<forall>n \<in> {4, 5, 6, 7, 8, 9, 10}. vector_handler n = Some To_SVC" by code_simp
  then show "vector_handler n = Some To_SVC" if "4 \<le> n" "n \<le> 10"
    using that by (auto simp: le_Suc_eq numeral_eq_Suc)
  have "\<forall>n \<in> {12, 13}. vector_handler n = Some To_PendSV" by code_simp
  then show "vector_handler n = Some To_PendSV" if "n = 12 \<or> n = 13"
    using that by auto
qed

text \<open>No interrupt of a peripheral unit has a handler.\<close>

lemma vector_interrupt: "16 \<le> n \<Longrightarrow> vector_handler n = None"
proof -
  assume "16 \<le> n"
  then have "drop n vectors = drop (n - 16) (drop 16 vectors)" by simp
  also have "drop 16 vectors = replicate 31 Zero_word" by code_simp
  also have "drop (n - 16) \<dots> = replicate (31 - (n - 16)) Zero_word" by (rule drop_replicate)
  finally show ?thesis
    using follow_replicate [of "31 - (n - 16)" "[]"] by (simp add: vector_handler_def)
qed

lemma handle_by_vector:
  "handle code x k = take_exception code (exn_number (entry_exn x)) (entry_cpu x) (at_entry x k)"
  using vector_handlers by (cases "entry_exn x") (simp_all add: handle_def take_exception_def)

section \<open>The code after a reset\<close>

text \<open>
  The processor: the interrupt mask, the register CONTROL, whose bit 1 selects the stack pointer that
  \<open>sp\<close> stands for, the two stack pointers, and the memory. A reset loads the main stack pointer from the
  first word of the section \<open>.vectors\<close>, \<open>MAIN_STACK_TOP\<close>, and starts at the second, \<open>_start\<close>.
\<close>

record start_cpu =
  masked :: bool
  control :: u32
  start_msp :: u32
  start_psp :: u32
  start_mem :: bytes

definition THREAD_MODE_PSP :: u32 where
  "THREAD_MODE_PSP = 2"

definition set_sp :: "u32 \<Rightarrow> start_cpu \<Rightarrow> start_cpu" where
  "set_sp v c = (if control c AND 2 \<noteq> 0 then c\<lparr>start_psp := v\<rparr> else c\<lparr>start_msp := v\<rparr>)"

definition get_sp :: "start_cpu \<Rightarrow> u32" where
  "get_sp c = (if control c AND 2 \<noteq> 0 then start_psp c else start_msp c)"

definition push_r5 :: "u32 \<Rightarrow> start_cpu \<Rightarrow> start_cpu" where
  "push_r5 v c =
     (let a = get_sp c - 4
      in (set_sp a c)\<lparr>start_mem := (start_mem c)(a := ucast v, a + 1 := ucast (drop_bit 8 v),
           a + 2 := ucast (drop_bit 16 v), a + 3 := ucast (drop_bit 24 v))\<rparr>)"

definition after_reset :: "u32 \<Rightarrow> u32 \<Rightarrow> bytes \<Rightarrow> start_cpu" where
  "after_reset main_top any_psp m =
     \<lparr>masked = False, control = 0, start_msp = main_top, start_psp = any_psp, start_mem = m\<rparr>"

definition start_code :: "bool \<Rightarrow> sections \<Rightarrow> u32 \<Rightarrow> start_cpu \<Rightarrow> start_cpu option" where
  "start_code stack_debug im thread_top c = do {
     let c1 = c\<lparr>masked := True\<rparr>;
     m \<leftarrow> start_memory im (start_mem c1);
     let c2 = c1\<lparr>start_mem := m, control := THREAD_MODE_PSP\<rparr>;
     let c3 = set_sp thread_top c2;
     Some (if stack_debug then push_r5 0xDEADBEEF c3 else c3)
   }"

section \<open>Properties\<close>

text \<open>What \<open>start_memory_sections\<close> says the memory holds.\<close>

definition filled :: "sections \<Rightarrow> bytes \<Rightarrow> bytes" where
  "filled im m a =
    (if unat (stack_start im) \<le> unat a \<and> unat a < unat (stack_start im) + unat (stack_size im) then 0xAB
     else if unat (bss_start im) \<le> unat a \<and> unat a < unat (bss_start im) + unat (bss_size im) then 0
     else if unat (data_ram im) \<le> unat a \<and> unat a < unat (data_ram im) + 4 * unat (data_size im)
       then m (data_flash im + (a - data_ram im))
     else m a)"

lemma start_memory_filled:
  assumes "sections_ok im"
  shows "start_memory im m = Some (filled im m)"
proof -
  obtain m' where m: "start_memory im m = Some m'" and "\<forall>a. m' a = filled im m a"
    using start_memory_sections [OF assms, of m] unfolding filled_def by blast
  then have "m' = filled im m" by blast
  with m show ?thesis by simp
qed

lemma filled_data:
  assumes "sections_ok im" "i < unat (data_size im)"
  shows "unat (data_ram im + of_nat i) = unat (data_ram im) + i"
    and "filled im m (data_ram im + of_nat i) = m (data_flash im + of_nat i)"
proof -
  have "unat (data_size im) < 2 ^ LENGTH(32)" by (rule unsigned_less)
  note unat_data_size = this [simplified]
  have i: "unat (of_nat i :: u32) = i"
    using assms(2) unat_data_size by (simp add: unsigned_of_nat take_bit_nat_eq_self)
  have "unat (data_ram im) + i < 2 ^ 32" using assms by (simp add: sections_ok_def)
  then show u: "unat (data_ram im + of_nat i) = unat (data_ram im) + i"
    using i by (simp add: unat_word_ariths)
  show "filled im m (data_ram im + of_nat i) = m (data_flash im + of_nat i)"
    using assms unfolding filled_def u by (auto simp: sections_ok_def)
qed

text \<open>The thread stack ends in the stack section.\<close>

definition thread_top_ok :: "sections \<Rightarrow> u32 \<Rightarrow> bool" where
  "thread_top_ok im st \<longleftrightarrow> unat (stack_start im) + 4 \<le> unat st \<and>
     unat st \<le> unat (stack_start im) + unat (stack_size im)"

lemma sp_simps [simp]:
  "get_sp (c\<lparr>control := THREAD_MODE_PSP, start_psp := v\<rparr>) = v"
  "set_sp v (c\<lparr>control := THREAD_MODE_PSP\<rparr>) = c\<lparr>control := THREAD_MODE_PSP, start_psp := v\<rparr>"
  by (simp_all add: get_sp_def set_sp_def THREAD_MODE_PSP_def)

lemma get_sp_set_sp [simp]: "get_sp (set_sp v c) = v"
  by (simp add: get_sp_def set_sp_def)

lemma set_sp_keeps [simp]:
  "masked (set_sp v c) = masked c" "control (set_sp v c) = control c" "start_mem (set_sp v c) = start_mem c"
  by (simp_all add: set_sp_def)

lemma push_r5_spec:
  "get_sp (push_r5 v c) = get_sp c - 4"
  "masked (push_r5 v c) = masked c" "control (push_r5 v c) = control c"
  "4 \<le> unat (b - (get_sp c - 4)) \<Longrightarrow> start_mem (push_r5 v c) b = start_mem c b"
  "map (\<lambda>i. start_mem (push_r5 v c) (get_sp c - 4 + i)) [0, 1, 2, 3] =
     [ucast v, ucast (drop_bit 8 v), ucast (drop_bit 16 v), ucast (drop_bit 24 v)]"
proof -
  let ?a = "get_sp c - 4"
  show "get_sp (push_r5 v c) = get_sp c - 4"
    by (simp add: push_r5_def Let_def get_sp_def set_sp_def)
  show "masked (push_r5 v c) = masked c" "control (push_r5 v c) = control c"
    by (simp_all add: push_r5_def Let_def)
  show "start_mem (push_r5 v c) b = start_mem c b" if "4 \<le> unat (b - ?a)"
  proof -
    have "b \<noteq> ?a + j" if "unat j < 4" for j
      using that \<open>4 \<le> unat (b - ?a)\<close> by auto
    from this [of 0] this [of 1] this [of 2] this [of 3] show ?thesis
      by (simp add: push_r5_def Let_def)
  qed
  show "map (\<lambda>i. start_mem (push_r5 v c) (?a + i)) [0, 1, 2, 3] =
     [ucast v, ucast (drop_bit 8 v), ucast (drop_bit 16 v), ucast (drop_bit 24 v)]"
    by (simp add: push_r5_def Let_def)
qed

lemma start_code_runs:
  assumes "sections_ok im"
  shows "start_code dbg im st (after_reset main_top any m) =
    Some (let c = \<lparr>masked = True, control = THREAD_MODE_PSP, start_msp = main_top, start_psp = st,
       start_mem = filled im m\<rparr> in if dbg then push_r5 0xDEADBEEF c else c)"
  by (simp add: start_code_def after_reset_def Let_def start_memory_filled [OF assms] set_sp_def
      THREAD_MODE_PSP_def)

text \<open>The slots of the vectors are below the stack section.\<close>

lemma vector_below_stack:
  assumes "sections_ok im" "thread_top_ok im st" "i < unat (data_size im)"
  shows "4 \<le> unat (data_ram im + of_nat i - (st - 4))"
proof -
  have t: "unat (st - 4) = unat st - 4"
    using assms(2) by (subst unat_diff_le) (auto simp: thread_top_ok_def)
  have "unat (data_ram im + of_nat i) < unat (st - 4)"
    using assms filled_data(1) [OF assms(1,3)] t by (auto simp: sections_ok_def thread_top_ok_def)
  moreover have "unat st < 2 ^ LENGTH(32)" by (rule unsigned_less)
  then have "unat (st - 4) + 4 \<le> 2 ^ 32"
    using assms(2) t by (simp add: thread_top_ok_def)
  ultimately show ?thesis
    using in_section [of "st - 4" 4 "data_ram im + of_nat i"] by linarith
qed

text \<open>
  C12: the processor as the C code finds it. After a reset \<open>_start\<close> reaches \<open>c_init\<close> with interrupts
  masked; the stack in use is the thread stack, from its top, with the mark 0xDEADBEEF under a stack
  debugging build; the main stack, which the exceptions use, is the one the reset has loaded; the
  memory is filled. The code of every exception vector is in place at the beginning of the RAM, and a
  system call and a tick of the timer go through it to the handlers of the kernel's history.
\<close>

theorem start_code_prepares:
  assumes "sections_ok im" "thread_top_ok im st" "4 * List.length vectors \<le> unat (data_size im)"
  shows "\<exists>c. start_code dbg im st (after_reset main_top any m) = Some c \<and> masked c \<and>
     get_sp c = (if dbg then st - 4 else st) \<and> start_msp c = main_top \<and>
     (\<forall>a. 4 \<le> unat (a - (st - 4)) \<or> \<not> dbg \<longrightarrow> start_mem c a = filled im m a) \<and>
     (dbg \<longrightarrow> map (\<lambda>i. start_mem c (st - 4 + i)) [0, 1, 2, 3] = [0xEF, 0xBE, 0xAD, 0xDE]) \<and>
     (\<forall>i < 4 * List.length vectors. start_mem c (data_ram im + of_nat i) = m (data_flash im + of_nat i)) \<and>
     (\<forall>code x k. handle code x k =
        take_exception code (exn_number (entry_exn x)) (entry_cpu x) (at_entry x k))"
proof -
  let ?c = "\<lparr>masked = True, control = THREAD_MODE_PSP, start_msp = main_top, start_psp = st,
    start_mem = filled im m\<rparr>"
  let ?d = "if dbg then push_r5 0xDEADBEEF ?c else ?c"
  have sp: "get_sp ?c = st" by (simp add: get_sp_def THREAD_MODE_PSP_def)
  have msp: "start_msp (push_r5 v ?c) = main_top" for v
    by (simp add: push_r5_def Let_def set_sp_def THREAD_MODE_PSP_def)
  have mem: "start_mem ?d a = filled im m a" if "4 \<le> unat (a - (st - 4)) \<or> \<not> dbg" for a
    using that push_r5_spec(4) [of a ?c] sp by auto
  have "start_mem ?d (data_ram im + of_nat i) = m (data_flash im + of_nat i)"
    if "i < 4 * List.length vectors" for i
    using that assms(3) mem vector_below_stack [OF assms(1,2), of i] filled_data(2) [OF assms(1), of i]
    by simp
  moreover have "map (\<lambda>i. start_mem ?d (st - 4 + i)) [0, 1, 2, 3] = [0xEF, 0xBE, 0xAD, 0xDE]" if dbg
    using push_r5_spec(5) [of "0xDEADBEEF" ?c] that sp by simp
  ultimately show ?thesis
    using mem sp msp push_r5_spec(1,2) [of _ ?c] start_code_runs [OF assms(1)]
    by (intro exI [of _ ?d]) (simp add: handle_by_vector Let_def split: if_splits)
qed

text \<open>
  The vector of SysTick, number 15, in an image that has 0x48 in the byte 0x3D of \<open>.data\<close>, and the mark on the
  stack.
\<close>

theorem start_code_prepares_witness:
  "\<exists>c. start_code True demo_sections 0x20002250
       (after_reset 0x20002450 0 (\<lambda>a. if a = 0x1000403D then 0x48 else 0)) = Some c \<and>
     masked c \<and> get_sp c = 0x2000224C \<and> start_mem c 0x2000224D = 0xBE \<and> start_mem c 0x2000003D = 0x48 \<and>
     start_mem c 0x20002248 = 0xAB"
proof -
  have n: "List.length vectors = 47" by code_simp
  have ok: "sections_ok demo_sections" "thread_top_ok demo_sections 0x20002250"
    "4 * List.length vectors \<le> unat (data_size demo_sections)"
    by (simp_all add: n sections_ok_def thread_top_ok_def demo_sections_def)
  from start_code_prepares [OF ok, where dbg = True and main_top = "0x20002450" and any = "0"
      and m = "\<lambda>a. if a = 0x1000403D then 0x48 else 0"]
  obtain c where c: "start_code True demo_sections 0x20002250
       (after_reset 0x20002450 0 (\<lambda>a. if a = 0x1000403D then 0x48 else 0)) = Some c" "masked c"
    "get_sp c = 0x20002250 - 4"
    "\<forall>a. 4 \<le> unat (a - (0x20002250 - 4)) \<longrightarrow>
       start_mem c a = filled demo_sections (\<lambda>a. if a = 0x1000403D then 0x48 else 0) a"
    "map (\<lambda>i. start_mem c (0x20002250 - 4 + i)) [0, 1, 2, 3] = [0xEF, 0xBE, 0xAD, 0xDE]"
    "\<forall>i < 4 * List.length vectors. start_mem c (data_ram demo_sections + of_nat i) =
       (if data_flash demo_sections + of_nat i = 0x1000403D then 0x48 else 0)" by auto
  have "start_mem c 0x2000003D = 0x48" using c(6) [rule_format, of "0x3D"] by (simp add: n demo_sections_def)
  moreover have "start_mem c 0x20002248 = 0xAB"
    using c(4) [rule_format, of "0x20002248"] by (simp add: filled_def demo_sections_def)
  ultimately show ?thesis using c by (intro exI [of _ c]) simp
qed

end
