(* ===== verification/Scheduler_Abstract.thy ===== *)
theory Scheduler_Abstract
  imports Demo_Kernel
begin

text \<open>
  An abstract scheduler and the proof that src/src/scheduler.c implements it: no state words, no
  loops over the task table, no timer register, no stack frames. It says when a task is due, who is
  given the mutex, and who runs next.
\<close>

section \<open>The abstract scheduler\<close>

datatype status = Running | Ready | Asleep cint | Contending

record sched =
  statuses :: "status list"
  active :: nat
  now :: cint
  taken :: bool
  announced :: bool

text \<open>A task sleeps until the clock has passed its deadline.\<close>

fun due :: "cint \<Rightarrow> status \<Rightarrow> bool" where
  "due t (Asleep d) = cless d t"
| "due t Running = False"
| "due t Ready = False"
| "due t Contending = False"

text \<open>
  The tasks other than the idle task 0. When the mutex is free, the first of them that contends for it
  is given it.
\<close>

definition heir :: "sched \<Rightarrow> nat option" where
  "heir a = (if taken a then None
     else find (\<lambda>i. statuses a ! i = Contending) [1 ..< length (statuses a)])"

definition wake :: "sched \<Rightarrow> sched" where
  "wake a = a\<lparr>
     statuses := map (\<lambda>i. if 0 < i \<and> (due (now a) (statuses a ! i) \<or> heir a = Some i) then Ready
       else statuses a ! i) [0 ..< length (statuses a)],
     taken := taken a \<or> heir a \<noteq> None\<rparr>"

text \<open>
  The circular order of the tasks that begins after the active one, without the active one and the idle
  task; the first ready one runs, and the idle task when there is none.
\<close>

definition others :: "sched \<Rightarrow> nat list" where
  "others a =
     filter (\<lambda>i. i \<noteq> 0 \<and> i \<noteq> active a) (rotate (Suc (active a)) [0 ..< length (statuses a)])"

definition elect :: "sched \<Rightarrow> sched" where
  "elect a =
     (let i = (case find (\<lambda>i. statuses a ! i = Ready) (others a) of None \<Rightarrow> 0 | Some i \<Rightarrow> i)
      in a\<lparr>active := i, statuses := (statuses a)[i := Running]\<rparr>)"

text \<open>The active task takes a new status, and another task is chosen.\<close>

definition switch_as :: "status \<Rightarrow> sched \<Rightarrow> sched" where
  "switch_as st a = elect (wake (a\<lparr>statuses := (statuses a)[active a := st]\<rparr>))"

fun sched_step :: "kevent \<Rightarrow> sched \<Rightarrow> sched" where
  "sched_step Tick a =
     switch_as (if announced a then Asleep 0 else Ready) (a\<lparr>now := now a + 1, announced := False\<rparr>)"
| "sched_step (Sleep t) a = switch_as (Asleep (now a + t)) a"
| "sched_step Yield a = switch_as Ready a"
| "sched_step Lock a = (if taken a then switch_as Contending a else a\<lparr>taken := True\<rparr>)"
| "sched_step Unlock a = a\<lparr>taken := False\<rparr>"
| "sched_step (Raise s) a = a"
| "sched_step (Wait s) a = a\<lparr>announced := s \<noteq> 0\<rparr>"

section \<open>The abstraction\<close>

definition status_of :: "kern \<Rightarrow> nat \<Rightarrow> status" where
  "status_of k i =
     (if state_of k i = TASK_RUNNING then Running
      else if state_of k i = TASK_READY then Ready
      else if state_of k i = TASK_MUTEX_BLOCKED then Contending
      else Asleep (sleep_until (tasks k ! i)))"

definition sched_of :: "kern \<Rightarrow> sched" where
  "sched_of k =
     \<lparr>statuses = map (status_of k) [0 ..< Suc (registered_tasks k)], active = current_tid k,
      now = jiffy k, taken = (mutex k \<noteq> 0), announced = (signal_flag k \<noteq> 0)\<rparr>"

lemma sched_of_fields [simp]:
  "active (sched_of k) = current_tid k"
  "now (sched_of k) = jiffy k"
  "taken (sched_of k) \<longleftrightarrow> mutex k \<noteq> 0"
  "announced (sched_of k) \<longleftrightarrow> signal_flag k \<noteq> 0"
  "length (statuses (sched_of k)) = Suc (registered_tasks k)"
  "i \<le> registered_tasks k \<Longrightarrow> statuses (sched_of k) ! i = status_of k i"
  by (simp_all add: sched_of_def del: upt_Suc)

lemma sched_of_same [simp]:
  "(sched_of k)\<lparr>now := jiffy k, announced := signal_flag k \<noteq> 0\<rparr> = sched_of k"
  by (simp add: sched_of_def)

lemma sched_eqI:
  assumes "length (statuses a) = length (statuses b)"
    and "\<And>i. i < length (statuses b) \<Longrightarrow> statuses a ! i = statuses b ! i"
    and "active a = active b" "now a = now b" "taken a = taken b" "announced a = announced b"
  shows "a = (b :: sched)"
  using assms nth_equalityI [OF assms(1)] by (cases a; cases b) auto

lemma status_of_iff:
  "status_of k i = Ready \<longleftrightarrow> state_of k i = TASK_READY"
  "status_of k i = Contending \<longleftrightarrow> state_of k i = TASK_MUTEX_BLOCKED"
  "status_of k i = Running \<longleftrightarrow> state_of k i = TASK_RUNNING"
  by (auto simp: status_of_def)

lemma others_candidates:
  assumes "active a < length (statuses a)"
  shows "others a = candidates (length (statuses a) - 1) (active a)"
proof -
  let ?n = "length (statuses a)" and ?c = "active a"
  have "others a = filter (\<lambda>i. i \<noteq> 0 \<and> i \<noteq> ?c) ([Suc ?c ..< ?n] @ [0 ..< Suc ?c])"
  proof (cases "Suc ?c = ?n")
    case True
    then have "rotate (Suc ?c) [0 ..< ?n] = [0 ..< ?n]"
      by (subst rotate_conv_mod) simp
    with True show ?thesis by (simp add: others_def)
  next
    case False
    with assms show ?thesis
      by (simp add: others_def rotate_drop_take take_upt drop_upt del: upt_Suc)
  qed
  moreover have "filter (\<lambda>i. i \<noteq> 0 \<and> i \<noteq> ?c) [Suc ?c ..< ?n] = [Suc ?c ..< ?n]"
    by (intro filter_True) auto
  moreover have "filter (\<lambda>i. i \<noteq> 0 \<and> i \<noteq> ?c) [0 ..< Suc ?c] = [1 ..< ?c]"
  proof (cases ?c)
    case (Suc m)
    have "[0 ..< Suc ?c] = 0 # [1 ..< ?c] @ [?c]"
      using Suc by (simp add: upt_conv_Cons)
    moreover have "filter (\<lambda>i. i \<noteq> 0 \<and> i \<noteq> ?c) [1 ..< ?c] = [1 ..< ?c]"
      by (intro filter_True) auto
    ultimately show ?thesis using Suc by simp
  qed simp
  ultimately show ?thesis
    using assms by (cases ?n) (simp_all add: candidates_def del: upt_Suc)
qed

text \<open>Waking.\<close>

lemma find_first_ready:
  "0 \<notin> set is \<Longrightarrow> find R is = (if first_ready R is = 0 then None else Some (first_ready R is))"
  by (induction "is") auto

lemma heir_sched_of:
  "heir (sched_of k) = (if mutex k = 0 \<and> mutex_waiter k (registered_tasks k) \<noteq> 0
     then Some (mutex_waiter k (registered_tasks k)) else None)"
proof -
  let ?is = "[1 ..< Suc (registered_tasks k)]"
  have "find (\<lambda>i. statuses (sched_of k) ! i = Contending) ?is =
      find (\<lambda>i. state_of k i = TASK_MUTEX_BLOCKED) ?is"
    by (intro find_cong) (auto simp: status_of_iff)
  then show ?thesis
    by (simp add: heir_def find_first_ready mutex_waiter_def del: upt_Suc)
qed

lemma due_status_of:
  assumes "kern_pre k" "i \<le> registered_tasks k"
  shows "due (jiffy k) (status_of k i) \<longleftrightarrow> wakes k i"
proof -
  have "state_of k i \<in> waiting_states" using assms by (simp add: kern_pre_def)
  then show ?thesis by (auto simp: status_of_def wakes_def waiting_states_iff)
qed

lemma wake_sched_of:
  assumes "kern_pre k"
  shows "wake (sched_of k) = (sched_of k)\<lparr>
    statuses := map (\<lambda>i. if woken k (registered_tasks k) i then Ready else status_of k i)
      [0 ..< Suc (registered_tasks k)],
    taken := mutex k \<noteq> 0 \<or> mutex_waiter k (registered_tasks k) \<noteq> 0\<rparr>"
  using mutex_waiter_le [of k "registered_tasks k"]
  by (intro sched_eqI)
    (auto simp: wake_def heir_sched_of woken_def due_status_of [OF assms] simp del: upt_Suc)

text \<open>Choosing.\<close>

lemma elect_dispatch:
  assumes "kern_pre k" "k_dispatch k = Some k'"
  shows "sched_of k' = elect (wake (sched_of k))"
proof -
  let ?n = "registered_tasks k" and ?a = "wake (sched_of k)"
  have n: "current_tid k \<le> ?n" using assms(1) by (simp add: kern_pre_def kern_bounds_def)
  have a: "length (statuses ?a) = Suc ?n" "active ?a = current_tid k" "now ?a = jiffy k"
    "taken ?a \<longleftrightarrow> mutex k \<noteq> 0 \<or> mutex_waiter k ?n \<noteq> 0" "announced ?a \<longleftrightarrow> signal_flag k \<noteq> 0"
    "\<And>i. i \<le> ?n \<Longrightarrow> statuses ?a ! i = (if woken k ?n i then Ready else status_of k i)"
    by (simp_all add: wake_sched_of [OF assms(1)] del: upt_Suc)
  have cand: "others ?a = candidates ?n (current_tid k)" "0 \<notin> set (candidates ?n (current_tid k))"
    using n by (simp_all add: others_candidates a set_candidates)
  have "find (\<lambda>i. statuses ?a ! i = Ready) (others ?a) =
      find (ready_after_wake k) (candidates ?n (current_tid k))"
    unfolding cand(1)
    using n by (intro find_cong) (auto simp: a set_candidates ready_after_wake_def status_of_iff)
  also have "\<dots> = (if next_task k = 0 then None else Some (next_task k))"
    using cand(2) by (simp add: find_first_ready next_task_def)
  finally have e: "elect ?a =
      ?a\<lparr>active := next_task k, statuses := (statuses ?a)[next_task k := Running]\<rparr>"
    by (simp add: elect_def Let_def)
  obtain k2 where "k_dispatch k = Some k2"
    and k2: "current_tid k2 = next_task k" "registered_tasks k2 = ?n"
      "\<And>j. state_of k2 j = (if j = next_task k then TASK_RUNNING
        else if woken k ?n j then TASK_READY else state_of k j)"
      "mutex k2 = (if mutex k = 0 \<and> mutex_waiter k ?n \<noteq> 0 then 1 else mutex k)"
      "\<And>j. sleep_until (tasks k2 ! j) = sleep_until (tasks k ! j)"
      "jiffy k2 = jiffy k" "signal_flag k2 = signal_flag k"
    using dispatch_spec [OF assms(1)] by metis
  then have "k2 = k'" using assms(2) by simp
  with k2 show ?thesis
    unfolding e using next_task_le [OF assms(1)]
    by (intro sched_eqI) (auto simp: a status_of_def nth_list_update_if)
qed

text \<open>The statuses a handler gives the active task.\<close>

fun given :: "kevent \<Rightarrow> kern \<Rightarrow> status" where
  "given Tick k = (if signal_flag k \<noteq> 0 then Asleep 0 else Ready)"
| "given (Sleep t) k = Asleep (jiffy k + t)"
| "given Lock k = Contending"
| "given e k = Ready"

lemma sched_of_before_dispatch:
  assumes "kern_wf k" "switching e k"
  shows "sched_of (before_dispatch e k) =
    (sched_of k)\<lparr>now := (if e = Tick then jiffy k + 1 else jiffy k),
      announced := signal_flag k \<noteq> 0 \<and> e \<noteq> Tick,
      statuses := (statuses (sched_of k))[current_tid k := given e k]\<rparr>" (is "_ = ?a")
proof (rule sched_eqI)
  fix i
  assume "i < length (statuses ?a)"
  then have i: "i \<le> registered_tasks k" by simp
  have "status_of (before_dispatch e k) i =
    (if i = current_tid k then given e k else status_of k i)"
    using assms current_index [OF assms(1)] before_dispatch_other [OF assms(1), of i e]
    by (cases e) (auto simp: status_of_def state_of_tick_pre sleep_until_tick_pre state_of_sleep_pre
      sleep_until_sleep_pre state_of_set_state)
  then show "statuses (sched_of (before_dispatch e k)) ! i = statuses ?a ! i"
    using i by (simp add: nth_list_update_if)
qed (use assms in \<open>cases e; auto\<close>)+

lemma kstep_sched:
  assumes "kern_wf k" "kstep e k = Some k'"
  shows "sched_of k' = sched_step e (sched_of k)"
proof (cases "switching e k")
  case True
  have "k_dispatch (before_dispatch e k) = Some k'" using kstep_switching [OF True] assms(2) by simp
  from elect_dispatch [OF kern_pre_before_dispatch [OF assms(1) True] this]
  have "sched_of k' = elect (wake (sched_of (before_dispatch e k)))" .
  also have "\<dots> = sched_step e (sched_of k)"
    unfolding sched_of_before_dispatch [OF assms(1) True]
    using True by (cases e) (auto simp: switch_as_def)
  finally show ?thesis .
next
  case False
  then show ?thesis
    using assms kstep_not_switching [OF False]
    by (cases e) (auto intro!: sched_eqI simp: k_mutex_lock_def k_mutex_unlock_def status_of_def state_of_def
      signal_raise_def)
qed

section \<open>The refinement\<close>

interpretation ksim: simulation kstep sched_step sched_of kern_wf
proof
  fix k :: kern and e
  assume "kern_wf k"
  then show "\<exists>k'. kstep e k = Some k' \<and> kern_wf k' \<and> sched_of k' = sched_step e (sched_of k)"
    using kstep_wf [of k e] kstep_sched by metis
qed

text \<open>
  scheduler.c implements the abstract scheduler. From every well-formed state and for every list
  of interrupts and calls, the code runs to its end, and the clock, the running task, what every task
  waits for, the mutex and a pending signal are those the abstract scheduler computes: the active
  task takes the status of its call, tasks that are due wake, a free mutex goes to the first task
  that contends for it, and the next ready task in circular order runs, or the idle task.
\<close>

theorem scheduler_refines:
  assumes "kern_wf k"
  shows "\<exists>k'. run kstep es k = Some k' \<and> kern_wf k' \<and> sched_of k' = fold sched_step es (sched_of k)"
  by (rule ksim.sim_run [OF assms])

lemma demo_sched:
  "fold sched_step [Sleep 3, Unlock, Tick, Tick, Wait 4, Lock, Tick, Tick, Tick] (sched_of demo_kern) =
     \<lparr>statuses = [Ready, Ready, Contending, Running], active = 3, now = 10, taken = True,
      announced = False\<rparr>"
  by code_simp

theorem scheduler_refines_witness:
  "\<exists>k. run kstep [Sleep 3, Unlock, Tick, Tick, Wait 4, Lock, Tick, Tick, Tick] demo_kern = Some k \<and>
     sched_of k = \<lparr>statuses = [Ready, Ready, Contending, Running], active = 3, now = 10, taken = True,
       announced = False\<rparr>"
  using scheduler_refines [OF demo_kern_wf,
      of "[Sleep 3, Unlock, Tick, Tick, Wait 4, Lock, Tick, Tick, Tick]"] demo_sched by metis

end
