(* ===== verification/Task_Machine.thy ===== *)
theory Task_Machine
  imports Supervisor Scheduler_Abstract
begin

text \<open>
  The exceptions as an abstract machine: every task has a processor of its own, and the abstract
  scheduler says which of them runs. The assembly of scheduler_s.s and isr_s.s, the dispatch of isr.c and
  the scheduler together implement it.
\<close>

section \<open>Tasks with processors of their own\<close>

text \<open>
  What an exception asks for: a tick, or the call whose number is in the byte before the return
  address of the stacked frame, with R0 as its argument; a number that is no call asks for nothing.
\<close>

definition exn_event :: "(u32 \<Rightarrow> u8) \<Rightarrow> exn_entry \<Rightarrow> kevent option" where
  "exn_event code x =
     (case entry_exn x of
        SysTickExn \<Rightarrow> Some Tick
      | SVCallExn \<Rightarrow>
          (let frame = pop_frame (entry_ram x) (psp (entry_cpu x)); n = code (fr_pc frame - 2)
           in if n = 0 then Some Yield else if n = 1 then Some (Sleep (fr_r0 frame))
              else if n = 2 then Some Lock else if n = 3 then Some Unlock else None))"

record machine =
  scheduling :: sched
  contexts :: "nat \<Rightarrow> cpu"

text \<open>
  The active task stops with the processor the exception finds, having announced a wait or not;
  then the scheduler does what it asks for.
\<close>

definition machine_step :: "(u32 \<Rightarrow> u8) \<Rightarrow> exn_entry \<Rightarrow> machine \<Rightarrow> machine" where
  "machine_step code x v =
     (let a = (scheduling v)\<lparr>announced := entry_signal_flag x \<noteq> 0\<rparr>
      in \<lparr>scheduling = (case exn_event code x of None \<Rightarrow> a | Some e \<Rightarrow> sched_step e a),
          contexts = (contexts v)(active a := entry_cpu x)\<rparr>)"

definition machine_of :: "cpu \<times> kern \<Rightarrow> machine" where
  "machine_of s = \<lparr>scheduling = sched_of (snd s), contexts = saved_cpu (snd s)\<rparr>"

definition handle_step :: "(u32 \<Rightarrow> u8) \<Rightarrow> exn_entry \<Rightarrow> cpu \<times> kern \<Rightarrow> (cpu \<times> kern) option" where
  "handle_step code x s = handle code x (snd s)"

lemma handle_all_run: "handle_all code xs s = run (handle_step code) xs s"
proof (induction xs arbitrary: s)
  case (Cons x xs)
  then show ?case by (cases "handle code x (snd s)") (simp_all add: handle_step_def)
qed simp

section \<open>The refinement\<close>

lemma sched_of_entry:
  assumes "kern_wf k"
  shows "sched_of (task_save_context c (at_entry x k)) = (sched_of k)\<lparr>announced := entry_signal_flag x \<noteq> 0\<rparr>"
  using current_index [OF assms]
  by (intro sched_eqI)
    (auto simp: task_save_context_def at_entry_def status_of_def state_of_def nth_list_update_if)

lemma svc_event_kstep:
  assumes "entry_exn x = SVCallExn" "ram k = entry_ram x"
  shows "SVC_C_Handler code (psp (entry_cpu x)) k =
    (case exn_event code x of None \<Rightarrow> Some k | Some e \<Rightarrow> kstep e k)"
proof -
  have u: "(ucast n :: u32) = ucast m \<longleftrightarrow> n = m" for n m :: u8
    using unat_ucast_up [of n, where 'b = 32] unat_ucast_up [of m, where 'b = 32] by simp (metis unsigned_word_eqI)
  have "(ucast n :: u32) = 0 \<longleftrightarrow> n = 0" "(ucast n :: u32) = 1 \<longleftrightarrow> n = 1"
    "(ucast n :: u32) = 2 \<longleftrightarrow> n = 2" "(ucast n :: u32) = 3 \<longleftrightarrow> n = 3" for n :: u8
    using u [of n 0] u [of n 1] u [of n 2] u [of n 3] by simp_all
  then show ?thesis
    using assms
    by (simp add: SVC_C_Handler_def svc_number_def svc_arg_def exn_event_def pop_frame_def Let_def)
qed

lemma handle_machine:
  assumes "kern_wf k"
  shows "\<exists>c' k'. handle code x k = Some (c', k') \<and> kern_wf k' \<and> c' = saved_cpu k' (current_tid k') \<and>
    machine_of (c', k') = machine_step code x (machine_of (c, k))"
proof -
  let ?k = "task_save_context (entry_cpu x) (at_entry x k)"
  obtain c' k' where h: "handle code x k = Some (c', k')" "kern_wf k'" "c' = saved_cpu k' (current_tid k')"
    "\<And>t. saved_cpu k' t = (if t = current_tid k then entry_cpu x else saved_cpu k t)"
    by (rule handle_spec [OF assms, of code x]) blast
  have wf: "kern_wf ?k" using assms by (simp add: kern_wf_save)
  have "Some k' = (case exn_event code x of None \<Rightarrow> Some ?k | Some e \<Rightarrow> kstep e ?k)"
  proof (cases "entry_exn x")
    case SysTickExn
    then show ?thesis
      using h(1) by (auto simp: handle_def SysTick_Handler_def exn_event_def Option.bind_eq_Some_conv)
  next
    case SVCallExn
    have "ram ?k = entry_ram x" by (simp add: task_save_context_def at_entry_def)
    from svc_event_kstep [OF SVCallExn this] show ?thesis
      using h(1) SVCallExn by (auto simp: handle_def SVC_Handler_def Option.bind_eq_Some_conv)
  qed
  then have "sched_of k' = (case exn_event code x of None \<Rightarrow> sched_of ?k | Some e \<Rightarrow> sched_step e (sched_of ?k))"
    using kstep_sched [OF wf] by (cases "exn_event code x") auto
  note sc = this [unfolded sched_of_entry [OF assms]]
  have "saved_cpu k' = (saved_cpu k)(current_tid k := entry_cpu x)"
    using h(4) by auto
  with sc have "machine_of (c', k') = machine_step code x (machine_of (c, k))"
    by (simp add: machine_of_def machine_step_def Let_def)
  with h(1-3) show ?thesis by blast
qed

interpretation exn_sim: simulation "handle_step code" "machine_step code" machine_of "\<lambda>s. kern_wf (snd s)"
proof
  fix s :: "cpu \<times> kern" and x
  assume "kern_wf (snd s)"
  then show "\<exists>s'. handle_step code x s = Some s' \<and> kern_wf (snd s') \<and> machine_of s' = machine_step code x (machine_of s)"
    using handle_machine [of "snd s" code x "fst s"] by (auto simp: handle_step_def)
qed

lemma handle_all_cpu:
  "handle_all code xs (c, k) = Some (c', k') \<Longrightarrow> kern_wf k \<Longrightarrow> xs \<noteq> [] \<Longrightarrow> c' = saved_cpu k' (current_tid k')"
proof (induction xs arbitrary: c k)
  case (Cons x xs)
  obtain c1 k1 where h: "handle code x k = Some (c1, k1)" "kern_wf k1" "c1 = saved_cpu k1 (current_tid k1)"
    using handle_machine [OF Cons.prems(2)] by blast
  show ?case
    using Cons.IH [of c1 k1] Cons.prems(1) h by (cases xs) auto
qed simp

section \<open>Properties\<close>

text \<open>
  C5: the kernel implements tasks with processors of their own. From every well-formed state, for
  every history of ticks and supervisor calls, with whatever the tasks do in between, the handlers
  return; the clock, the statuses, the mutex and the active task are those of the abstract scheduler, each
  task's stack pointer and R4 to R7 are those with which it was last interrupted, and the last
  exception returns to the active task with its own.
\<close>

theorem exceptions_refine:
  assumes "kern_wf k"
  shows "\<exists>c' k'. handle_all code xs (c, k) = Some (c', k') \<and> kern_wf k' \<and>
    machine_of (c', k') = fold (machine_step code) xs (machine_of (c, k)) \<and>
    c' = (if xs = [] then c else contexts (machine_of (c', k')) (active (scheduling (machine_of (c', k')))))"
proof -
  obtain c' k' where "run (handle_step code) xs (c, k) = Some (c', k')" "kern_wf k'"
    "machine_of (c', k') = fold (machine_step code) xs (machine_of (c, k))"
    using exn_sim.sim_run [of "(c, k)" code xs] assms by auto
  note r = this
  have "c' = (if xs = [] then c else contexts (machine_of (c', k')) (active (scheduling (machine_of (c', k')))))"
    using r(1) handle_all_cpu [of code xs c k c' k'] assms by (auto simp: handle_all_run machine_of_def)
  with r show ?thesis unfolding handle_all_run by blast
qed

text \<open>A tick in task 1, with the stack at 7, and a call of \<open>sys_sleep(100)\<close> in task 2.\<close>

definition demo_history :: "exn_entry list" where
  "demo_history = demo_exns @
     [\<lparr>entry_exn = SVCallExn, entry_cpu = \<lparr>psp = 0x20000100, r4_r7 = [5, 6, 7, 8]\<rparr>,
       entry_ram = (\<lambda>a. if a = 0x20000100 then 100 else 2), entry_signal_flag = 0, entry_signals_flags = 0\<rparr>]"

theorem exceptions_refine_witness:
  "\<exists>c k. handle_all demo_svc_code demo_history (\<lparr>psp = 9, r4_r7 = []\<rparr>, demo_free) = Some (c, k) \<and>
    sched_of k = \<lparr>statuses = [Ready, Ready, Asleep 106, Running], active = 3, now = 6, taken = False, announced = False\<rparr> \<and>
    saved_cpu k 1 = \<lparr>psp = 7, r4_r7 = [1, 2, 3, 4]\<rparr> \<and> saved_cpu k 2 = \<lparr>psp = 0x20000100, r4_r7 = [5, 6, 7, 8]\<rparr> \<and>
    c = saved_cpu k 3"
proof -
  have wf: "kern_wf demo_free" by code_simp
  have s: "sched_of demo_free = \<lparr>statuses = [Ready, Running, Ready, Ready], active = 1, now = 5, taken = False, announced = False\<rparr>"
    by code_simp
  let ?x = "\<lparr>entry_exn = SVCallExn, entry_cpu = \<lparr>psp = 0x20000100, r4_r7 = [5, 6, 7, 8]\<rparr>,
    entry_ram = (\<lambda>a. if a = 0x20000100 then 100 else 2), entry_signal_flag = 0, entry_signals_flags = 0\<rparr>"
  have e: "exn_event demo_svc_code ?x = Some (Sleep 100)"
    by (simp add: exn_event_def pop_frame_def demo_svc_code_def)
  have t: "sched_step Tick \<lparr>statuses = [Ready, Running, Ready, Ready], active = Suc 0, now = 5, taken = False, announced = False\<rparr> =
      \<lparr>statuses = [Ready, Ready, Running, Ready], active = 2, now = 6, taken = False, announced = False\<rparr>"
    "sched_step (Sleep 100) \<lparr>statuses = [Ready, Ready, Running, Ready], active = 2, now = 6, taken = False, announced = False\<rparr> =
      \<lparr>statuses = [Ready, Ready, Asleep 106, Running], active = 3, now = 6, taken = False, announced = False\<rparr>"
    by code_simp+
  let ?v = "\<lparr>scheduling = \<lparr>statuses = [Ready, Ready, Asleep 106, Running], active = 3, now = 6, taken = False, announced = False\<rparr>,
      contexts = (saved_cpu demo_free)(1 := \<lparr>psp = 7, r4_r7 = [1, 2, 3, 4]\<rparr>, 2 := \<lparr>psp = 0x20000100, r4_r7 = [5, 6, 7, 8]\<rparr>)\<rparr>"
  have f: "fold (machine_step demo_svc_code) demo_history (machine_of (\<lparr>psp = 9, r4_r7 = []\<rparr>, demo_free)) = ?v"
    by (simp add: demo_history_def demo_exns_def machine_step_def machine_of_def s e t exn_event_def [of _ "\<lparr>entry_exn = SysTickExn,
      entry_cpu = c, entry_ram = m, entry_signal_flag = sf, entry_signals_flags = ss\<rparr>" for c m sf ss] del: sched_step.simps)
  obtain c k where h: "handle_all demo_svc_code demo_history (\<lparr>psp = 9, r4_r7 = []\<rparr>, demo_free) = Some (c, k)"
    "machine_of (c, k) = ?v" "c = contexts (machine_of (c, k)) (active (scheduling (machine_of (c, k))))"
    using exceptions_refine [OF wf, of demo_svc_code demo_history "\<lparr>psp = 9, r4_r7 = []\<rparr>", unfolded f]
    by (auto simp: demo_history_def)
  have "sched_of k = scheduling ?v" "saved_cpu k = contexts ?v"
    using arg_cong [OF h(2), of scheduling] arg_cong [OF h(2), of contexts] by (simp_all add: machine_of_def)
  with h(1,3) show ?thesis
    by (intro exI [of _ c] exI [of _ k]) (simp add: machine_of_def)
qed

end
