(* ===== verification/Lcd_Hd44780.thy ===== *)
theory Lcd_Hd44780
  imports I2c_Usic
begin

text \<open>
  The character display of src/src/dev/lcd/hd44780.c, behind a port expander on the I2C bus (the
  configuration LCD_I2C_BUS with LCD_ADDRESS 0x40 of Config.inc). The file calls
  \<open>dev_write(&code, 0, 1, &node)\<close>, which is not the \<open>dev_write\<close> of dev.h: this call, and
  \<open>sys_sleep\<close>, are parameters.
\<close>

section \<open>The driver\<close>

definition HD44780_4_BITS_OPS :: u8 where "HD44780_4_BITS_OPS = push_bit 4 0x2"
definition HD44780_CLR_DISPLAY :: u8 where "HD44780_CLR_DISPLAY = 0x1"
definition HD44780_RETURN_HOME :: u8 where "HD44780_RETURN_HOME = 0x2"
definition LCD_ADDRESS :: cint where "LCD_ADDRESS = 0x40"

record 's lcd_calls =
  call_sleep :: "cint \<Rightarrow> 's \<Rightarrow> 's option"
  call_write :: "u8 \<Rightarrow> node \<Rightarrow> 's \<Rightarrow> (node \<times> 's) option"

text \<open>The global variable \<open>node\<close> of the file, and the rest of the system.\<close>

record 's lcd_sys =
  lcd_node :: node
  lcd_env :: 's

definition hd44780_check_busy :: "'s lcd_calls \<Rightarrow> 's lcd_sys \<Rightarrow> 's lcd_sys option" where
  "hd44780_check_busy io l = map_option (\<lambda>s. l\<lparr>lcd_env := s\<rparr>) (call_sleep io 2 (lcd_env l))"

definition hd44780_write_bus :: "'s lcd_calls \<Rightarrow> u8 \<Rightarrow> u8 \<Rightarrow> u8 \<Rightarrow> 's lcd_sys \<Rightarrow> 's lcd_sys option" where
  "hd44780_write_bus io dat rs e l =
     (let c0 = push_bit 4 (e AND 0x1);
          c1 = c0 OR push_bit 5 (rs AND 0x1);
          c2 = c1 OR (dat AND 0xF)
      in map_option (\<lambda>(v, s). l\<lparr>lcd_node := v, lcd_env := s\<rparr>) (call_write io c2 (lcd_node l) (lcd_env l)))"

definition hd44780_send_4 :: "'s lcd_calls \<Rightarrow> u8 \<Rightarrow> u8 \<Rightarrow> 's lcd_sys \<Rightarrow> 's lcd_sys option" where
  "hd44780_send_4 io dat rs l =
     (if rs \<noteq> 0 \<and> (dat < of_char CHR '' '' \<or> of_char CHR ''z'' < dat) then Some l
      else do {
        l1 \<leftarrow> hd44780_check_busy io l;
        l2 \<leftarrow> hd44780_write_bus io (drop_bit 4 (dat AND 0xF0)) rs 1 l1;
        l3 \<leftarrow> hd44780_write_bus io (drop_bit 4 (dat AND 0xF0)) rs 0 l2;
        l4 \<leftarrow> hd44780_write_bus io (dat AND 0x0F) rs 1 l3;
        hd44780_write_bus io (dat AND 0x0F) 0 0 l4
      })"

definition hd44780_send_8 :: "'s lcd_calls \<Rightarrow> u8 \<Rightarrow> u8 \<Rightarrow> 's lcd_sys \<Rightarrow> 's lcd_sys option" where
  "hd44780_send_8 io dat rs l = do {
     l1 \<leftarrow> hd44780_check_busy io l;
     l2 \<leftarrow> hd44780_write_bus io dat rs 1 l1;
     hd44780_write_bus io dat rs 0 l2
   }"

definition hd44780_open ::
    "(node_data, 's) dev_table \<Rightarrow> 's lcd_calls \<Rightarrow> 'd vnode \<Rightarrow> 's lcd_sys \<Rightarrow> (cint \<times> 'd vnode \<times> 's lcd_sys) option" where
  "hd44780_open devices io v l = do {
     let n = (lcd_node l)\<lparr>dev_type := I2C, dev_id := of_nat (dev_id_code DEV_I2C)\<rparr>;
     (_, n1, _, s1) \<leftarrow> dev_ioctl devices n I2C_IOCTL_SET_PEER (Int_data LCD_ADDRESS) (lcd_env l);
     (_, n2, s2) \<leftarrow> dev_open devices n1 s1;
     l1 \<leftarrow> hd44780_send_8 io HD44780_4_BITS_OPS 0 (l\<lparr>lcd_node := n2, lcd_env := s2\<rparr>);
     l2 \<leftarrow> hd44780_send_4 io 0x28 0 l1;
     l3 \<leftarrow> hd44780_send_4 io 0x0C 0 l2;
     l4 \<leftarrow> hd44780_send_4 io 0x06 0 l3;
     l5 \<leftarrow> hd44780_send_4 io (of_char CHR ''H'') 1 l4;
     l6 \<leftarrow> hd44780_send_4 io (of_char CHR ''e'') 1 l5;
     l7 \<leftarrow> hd44780_send_4 io (of_char CHR ''l'') 1 l6;
     l8 \<leftarrow> hd44780_send_4 io (of_char CHR ''l'') 1 l7;
     l9 \<leftarrow> hd44780_send_4 io (of_char CHR ''o'') 1 l8;
     Some (0, v, l9)
   }"

definition hd44780_close :: "'d vnode \<Rightarrow> 's \<Rightarrow> (cint \<times> 'd vnode \<times> 's) option" where
  "hd44780_close v s = Some (0, v, s)"

definition hd44780_write :: "'d vnode \<Rightarrow> uio \<Rightarrow> 's \<Rightarrow> (cint \<times> 'd vnode \<times> uio \<times> 's) option" where
  "hd44780_write v u s = Some (0, v, u, s)"

definition hd44780_read :: "'d vnode \<Rightarrow> uio \<Rightarrow> 's \<Rightarrow> (cint \<times> 'd vnode \<times> uio \<times> 's) option" where
  "hd44780_read v u s = Some (0, v, u, s)"

definition hd44780_ioctl :: "'d vnode \<Rightarrow> u8 \<Rightarrow> ioctl_data \<Rightarrow> 's \<Rightarrow> (cint \<times> 'd vnode \<times> ioctl_data \<times> 's) option" where
  "hd44780_ioctl v code d s = Some (0, v, d, s)"

definition lcd :: "(node_data, 's) dev_table \<Rightarrow> 's lcd_calls \<Rightarrow> ('d, 's lcd_sys) dev_ops" where
  "lcd devices io =
     \<lparr>d_open = hd44780_open devices io, d_close = hd44780_close, d_read = hd44780_read,
      d_write = hd44780_write, d_ioctl = hd44780_ioctl\<rparr>"

section \<open>The display\<close>

text \<open>
  The display takes the four data lines and the line RS at a falling edge of E: the codes on
  the port, bit 4 of which is E and bit 5 RS. A pair of edge and value while E was up.
\<close>

fun strobes :: "u8 \<Rightarrow> u8 list \<Rightarrow> (bool \<times> u8) list" where
  "strobes c [] = []"
| "strobes c (d # ds) =
     (if bit c 4 \<and> \<not> bit d 4 then (bit c 5, c AND 0xF) # strobes d ds else strobes d ds)"

text \<open>
  What it makes of them: it starts with an interface of eight lines, of which the lower four are
  not connected, and each nibble is the upper half of a byte; the function-set instruction
  with DL = 0 selects four lines, and from then on two nibbles make a byte. RS
  tells data from instructions.
\<close>

fun four_lines :: "(bool \<times> u8) list \<Rightarrow> (bool \<times> u8) list" where
  "four_lines ((rs, hi) # (_, lo) # xs) = (rs, push_bit 4 hi OR lo) # four_lines xs"
| "four_lines _ = []"

fun eight_lines :: "(bool \<times> u8) list \<Rightarrow> (bool \<times> u8) list" where
  "eight_lines [] = []"
| "eight_lines ((rs, n) # xs) =
     (rs, push_bit 4 n) # (if \<not> rs \<and> n = 0x2 then four_lines xs else eight_lines xs)"

definition display_bytes :: "u8 list \<Rightarrow> (bool \<times> u8) list" where
  "display_bytes cs = eight_lines (strobes 0 cs)"

section \<open>What the driver sends\<close>

text \<open>A port that takes every code; \<open>codes\<close> lists those it has taken.\<close>

definition lcd_port :: "'s lcd_calls \<Rightarrow> ('s \<Rightarrow> u8 list) \<Rightarrow> bool" where
  "lcd_port io codes \<longleftrightarrow>
     (\<forall>c v s. \<exists>v' s'. call_write io c v s = Some (v', s') \<and> codes s' = codes s @ [c]) \<and>
     (\<forall>n s. \<exists>s'. call_sleep io n s = Some s' \<and> codes s' = codes s)"

definition lcd_code :: "u8 \<Rightarrow> u8 \<Rightarrow> u8 \<Rightarrow> u8" where
  "lcd_code dat rs e = (push_bit 4 (e AND 0x1) OR push_bit 5 (rs AND 0x1)) OR (dat AND 0xF)"

lemma write_bus_eq: "hd44780_write_bus io dat rs e l =
    map_option (\<lambda>(v, s). l\<lparr>lcd_node := v, lcd_env := s\<rparr>) (call_write io (lcd_code dat rs e) (lcd_node l) (lcd_env l))"
  by (simp only: hd44780_write_bus_def lcd_code_def Let_def)

definition codes_4 :: "u8 \<Rightarrow> u8 \<Rightarrow> u8 list" where
  "codes_4 dat rs = [lcd_code (drop_bit 4 (dat AND 0xF0)) rs 1, lcd_code (drop_bit 4 (dat AND 0xF0)) rs 0,
     lcd_code (dat AND 0x0F) rs 1, lcd_code (dat AND 0x0F) 0 0]"

definition codes_8 :: "u8 \<Rightarrow> u8 \<Rightarrow> u8 list" where
  "codes_8 dat rs = [lcd_code dat rs 1, lcd_code dat rs 0]"

lemma write_bus_codes:
  assumes "lcd_port io codes"
  shows "\<exists>l'. hd44780_write_bus io dat rs e l = Some l' \<and> codes (lcd_env l') = codes (lcd_env l) @ [lcd_code dat rs e]"
proof -
  obtain v s where "call_write io (lcd_code dat rs e) (lcd_node l) (lcd_env l) = Some (v, s)"
    "codes s = codes (lcd_env l) @ [lcd_code dat rs e]"
    using assms unfolding lcd_port_def by blast
  then show ?thesis
    by (intro exI [of _ "l\<lparr>lcd_node := v, lcd_env := s\<rparr>"]) (simp add: write_bus_eq)
qed

lemma check_busy_codes:
  assumes "lcd_port io codes"
  shows "\<exists>l'. hd44780_check_busy io l = Some l' \<and> codes (lcd_env l') = codes (lcd_env l)"
proof -
  obtain s where "call_sleep io 2 (lcd_env l) = Some s" "codes s = codes (lcd_env l)"
    using assms unfolding lcd_port_def by blast
  then show ?thesis
    by (intro exI [of _ "l\<lparr>lcd_env := s\<rparr>"]) (simp add: hd44780_check_busy_def)
qed

lemma send_4_codes:
  assumes "lcd_port io codes" "rs = 0 \<or> of_char CHR '' '' \<le> dat \<and> dat \<le> of_char CHR ''z''"
  shows "\<exists>l'. hd44780_send_4 io dat rs l = Some l' \<and> codes (lcd_env l') = codes (lcd_env l) @ codes_4 dat rs"
proof -
  note w = write_bus_codes [OF assms(1)]
  obtain l1 where l1: "hd44780_check_busy io l = Some l1" "codes (lcd_env l1) = codes (lcd_env l)"
    using check_busy_codes [OF assms(1)] by blast
  obtain l2 where l2: "hd44780_write_bus io (drop_bit 4 (dat AND 0xF0)) rs 1 l1 = Some l2"
    "codes (lcd_env l2) = codes (lcd_env l1) @ [lcd_code (drop_bit 4 (dat AND 0xF0)) rs 1]" using w by blast
  obtain l3 where l3: "hd44780_write_bus io (drop_bit 4 (dat AND 0xF0)) rs 0 l2 = Some l3"
    "codes (lcd_env l3) = codes (lcd_env l2) @ [lcd_code (drop_bit 4 (dat AND 0xF0)) rs 0]" using w by blast
  obtain l4 where l4: "hd44780_write_bus io (dat AND 0x0F) rs 1 l3 = Some l4"
    "codes (lcd_env l4) = codes (lcd_env l3) @ [lcd_code (dat AND 0x0F) rs 1]" using w by blast
  obtain l5 where l5: "hd44780_write_bus io (dat AND 0x0F) 0 0 l4 = Some l5"
    "codes (lcd_env l5) = codes (lcd_env l4) @ [lcd_code (dat AND 0x0F) 0 0]" using w by blast
  have "\<not> (rs \<noteq> 0 \<and> (dat < of_char CHR '' '' \<or> of_char CHR ''z'' < dat))" using assms(2) by auto
  then have "hd44780_send_4 io dat rs l = Some l5"
    unfolding hd44780_send_4_def if_not_P by (simp only: l1(1) l2(1) l3(1) l4(1) l5(1) if_False Option.bind.bind_lunit)
  then show ?thesis
    using l1(2) l2(2) l3(2) l4(2) l5(2) by (intro exI [of _ l5]) (simp add: codes_4_def)
qed

lemma send_8_codes:
  assumes "lcd_port io codes"
  shows "\<exists>l'. hd44780_send_8 io dat rs l = Some l' \<and> codes (lcd_env l') = codes (lcd_env l) @ codes_8 dat rs"
proof -
  obtain l1 where l1: "hd44780_check_busy io l = Some l1" "codes (lcd_env l1) = codes (lcd_env l)"
    using check_busy_codes [OF assms(1)] by blast
  obtain l2 where l2: "hd44780_write_bus io dat rs 1 l1 = Some l2"
    "codes (lcd_env l2) = codes (lcd_env l1) @ [lcd_code dat rs 1]" using write_bus_codes [OF assms] by blast
  obtain l3 where l3: "hd44780_write_bus io dat rs 0 l2 = Some l3"
    "codes (lcd_env l3) = codes (lcd_env l2) @ [lcd_code dat rs 0]" using write_bus_codes [OF assms] by blast
  show ?thesis
    using l1 l2 l3 by (intro exI [of _ l3]) (simp add: hd44780_send_8_def codes_8_def)
qed

text \<open>The two halves of the byte, RS as given, and no code but those.\<close>

lemma strobes_codes_4:
  assumes "\<not> bit c 4"
  shows "strobes c (codes_4 dat rs @ ds) =
    (bit rs 0, drop_bit 4 dat) # (bit rs 0, dat AND 0xF) # strobes (lcd_code (dat AND 0xF) 0 0) ds"
proof -
  have b: "bit (lcd_code d r e) 4 = bit e 0" "bit (lcd_code d r e) 5 = bit r 0" "lcd_code d r e AND 0xF = d AND 0xF"
    for d r e
    by (simp_all add: lcd_code_def bit_simps bit.conj_disj_distrib2 and.assoc)
  have m: "(15 :: u8) = mask 4" by (simp add: mask_numeral)
  have "drop_bit 4 dat AND 0xF = drop_bit 4 dat"
    unfolding m by (rule bit_word_eqI) (auto simp: bit_simps dest: bit_imp_le_length)
  then show ?thesis using assms by (simp add: codes_4_def b and.assoc)
qed

text \<open>The bytes sent one after the other.\<close>

fun send_list :: "'s lcd_calls \<Rightarrow> (u8 \<times> u8) list \<Rightarrow> 's lcd_sys \<Rightarrow> 's lcd_sys option" where
  "send_list io [] l = Some l"
| "send_list io ((dat, rs) # xs) l = Option.bind (hd44780_send_4 io dat rs l) (send_list io xs)"

lemma send_list_codes:
  assumes "lcd_port io codes" "\<forall>(dat, rs) \<in> set xs. rs = 0 \<or> of_char CHR '' '' \<le> dat \<and> dat \<le> of_char CHR ''z''"
  shows "\<exists>l'. send_list io xs l = Some l' \<and>
    codes (lcd_env l') = codes (lcd_env l) @ concat (map (\<lambda>(dat, rs). codes_4 dat rs) xs)"
  using assms(2)
proof (induction xs arbitrary: l)
  case (Cons x xs)
  obtain dat rs where x: "x = (dat, rs)" by fastforce
  have "rs = 0 \<or> of_char CHR '' '' \<le> dat \<and> dat \<le> of_char CHR ''z''" using Cons.prems x by simp
  from send_4_codes [OF assms(1) this, of l] obtain l1 where "hd44780_send_4 io dat rs l = Some l1"
    "codes (lcd_env l1) = codes (lcd_env l) @ codes_4 dat rs" by blast
  with Cons x show ?case using Cons.IH [of l1] by auto
qed simp

definition lcd_text :: "(u8 \<times> u8) list" where
  "lcd_text = [(0x28, 0), (0x0C, 0), (0x06, 0), (of_char CHR ''H'', 1), (of_char CHR ''e'', 1),
     (of_char CHR ''l'', 1), (of_char CHR ''l'', 1), (of_char CHR ''o'', 1)]"

lemma open_eq: "hd44780_open devices io v l = do {
     let n = (lcd_node l)\<lparr>dev_type := I2C, dev_id := of_nat (dev_id_code DEV_I2C)\<rparr>;
     (_, n1, _, s1) \<leftarrow> dev_ioctl devices n I2C_IOCTL_SET_PEER (Int_data LCD_ADDRESS) (lcd_env l);
     (_, n2, s2) \<leftarrow> dev_open devices n1 s1;
     l1 \<leftarrow> hd44780_send_8 io HD44780_4_BITS_OPS 0 (l\<lparr>lcd_node := n2, lcd_env := s2\<rparr>);
     map_option (\<lambda>l. (0, v, l)) (send_list io lcd_text l1)
   }"
  by (simp add: hd44780_open_def lcd_text_def Let_def map_conv_bind_option o_def del: of_char_of)

section \<open>Properties\<close>

definition open_codes :: "u8 list" where
  "open_codes = codes_8 HD44780_4_BITS_OPS 0 @ concat (map (\<lambda>(dat, rs). codes_4 dat rs) lcd_text)"

text \<open>
  C13: starting the display. On a port that takes every code, and with the I2C driver mapped,
  opening the display returns 0. The display should select four lines with the nibble 2,
  and then receive the function set, the two mode instructions and the text Hello. But
  \<open>hd44780_send_8\<close> sends the lower half of its byte 0x20: the nibble 0. So the display is still in
  its mode of eight lines for the first half of the function set, and from there on the
  halves are paired wrongly: none of the instructions arrives, nor does the text.
\<close>

theorem lcd_open_loses_mode:
  assumes "lcd_port io codes" "\<And>c s. codes (xmc_do hw c s) = codes s"
    and "\<And>v. node_of DEV_I2C v \<Longrightarrow> driver devices v = Some (i2c hw)"
  shows "\<exists>l' cs tl. hd44780_open devices io v l = Some (0, v, l') \<and> codes (lcd_env l') = codes (lcd_env l) @ cs \<and>
    strobes 0 cs = (False, 0) # tl \<and>
    eight_lines ((False, 2) # tl) = (False, 0x20) # map (\<lambda>(dat, rs). (rs \<noteq> 0, dat)) lcd_text \<and>
    display_bytes cs = [(False, 0x00), (False, 0x20), (False, 0x80), (False, 0xC0), (False, 0x64),
      (True, 0x86), (True, 0x56), (True, 0xC6), (True, 0xC6)]"
proof -
  let ?n = "(lcd_node l)\<lparr>dev_type := I2C, dev_id := of_nat (dev_id_code DEV_I2C)\<rparr>"
  have d: "driver devices (?n\<lparr>endpt := a\<rparr>) = Some (i2c hw)" "driver devices ?n = Some (i2c hw)" for a
    by (intro assms(3); simp add: node_of_def)+
  have run: "codes (xmc_run hw cs s) = codes s" for cs s
    by (induction cs arbitrary: s) (simp_all add: xmc_run_def assms(2))
  obtain n2 s2 where o: "dev_open devices (?n\<lparr>endpt := LCD_ADDRESS\<rparr>) (lcd_env l) = Some (0, n2, s2)"
    "codes s2 = codes (lcd_env l)"
    using run by (simp add: dev_open_def d [simplified] i2c_def usic_i2c_open_def Let_def)
  obtain l1 where l1: "hd44780_send_8 io HD44780_4_BITS_OPS 0 (l\<lparr>lcd_node := n2, lcd_env := s2\<rparr>) = Some l1"
    "codes (lcd_env l1) = codes s2 @ codes_8 HD44780_4_BITS_OPS 0"
    using send_8_codes [OF assms(1), of HD44780_4_BITS_OPS 0 "l\<lparr>lcd_node := n2, lcd_env := s2\<rparr>"] by auto
  obtain l2 where l2: "send_list io lcd_text l1 = Some l2"
    "codes (lcd_env l2) = codes (lcd_env l1) @ concat (map (\<lambda>(dat, rs). codes_4 dat rs) lcd_text)"
    using send_list_codes [OF assms(1), of lcd_text l1] by (auto simp: lcd_text_def)
  have "hd44780_open devices io v l = Some (0, v, l2)"
    using o(1) l1(1) l2(1) by (simp add: open_eq Let_def dev_ioctl_def d [simplified] i2c_def usic_i2c_ioctl_def)
  moreover have "codes (lcd_env l2) = codes (lcd_env l) @ open_codes"
    using o(2) l1(2) l2(2) by (simp add: open_codes_def)
  moreover have "strobes 0 open_codes = (False, 0) # tl (strobes 0 open_codes)" by code_simp
  moreover have "eight_lines ((False, 2) # tl (strobes 0 open_codes)) =
      (False, 0x20) # map (\<lambda>(dat, rs). (rs \<noteq> 0, dat)) lcd_text" by code_simp
  moreover have "display_bytes open_codes = [(False, 0x00), (False, 0x20), (False, 0x80), (False, 0xC0), (False, 0x64),
      (True, 0x86), (True, 0x56), (True, 0xC6), (True, 0xC6)]" by code_simp
  ultimately show ?thesis by (intro exI conjI) assumption+
qed

text \<open>A port that records the codes, with an I2C driver that does nothing.\<close>

definition demo_lcd_calls :: "u8 list lcd_calls" where
  "demo_lcd_calls = \<lparr>call_sleep = (\<lambda>n s. Some s), call_write = (\<lambda>c v s. Some (v, s @ [c]))\<rparr>"

definition demo_lcd_xmc :: "u8 list xmc" where
  "demo_lcd_xmc = \<lparr>xmc_do = (\<lambda>c h. h), xmc_get = (\<lambda>q h. (0, h)), xmc_value = (\<lambda>_. 0)\<rparr>"

definition demo_lcd_sys :: "u8 list lcd_sys" where
  "demo_lcd_sys = \<lparr>lcd_node = \<lparr>dev_type = LCD, dev_id = 0, endpt = 0, offset = 0, data = No_data\<rparr>, lcd_env = []\<rparr>"

theorem lcd_open_loses_mode_witness:
  "\<exists>l'. hd44780_open (driver_map DEV_I2C (i2c demo_lcd_xmc) no_devices) demo_lcd_calls (lcd_node demo_lcd_sys) demo_lcd_sys =
      Some (0, lcd_node demo_lcd_sys, l') \<and> length (display_bytes (lcd_env l')) = 9"
proof -
  have p: "lcd_port demo_lcd_calls id" by (simp add: lcd_port_def demo_lcd_calls_def)
  have q: "id (xmc_do demo_lcd_xmc c s) = id s" for c s by (simp add: demo_lcd_xmc_def)
  have d: "driver (driver_map DEV_I2C (i2c demo_lcd_xmc) no_devices) v = Some (i2c demo_lcd_xmc)"
    if "node_of DEV_I2C v" for v :: node
    using that by (intro driver_map_same) simp_all
  from lcd_open_loses_mode [OF p q d, of "lcd_node demo_lcd_sys" demo_lcd_sys]
  obtain l' cs where "hd44780_open (driver_map DEV_I2C (i2c demo_lcd_xmc) no_devices) demo_lcd_calls
      (lcd_node demo_lcd_sys) demo_lcd_sys = Some (0, lcd_node demo_lcd_sys, l')"
    "lcd_env l' = cs" "length (display_bytes cs) = 9"
    by (auto simp: demo_lcd_sys_def)
  then show ?thesis by blast
qed

text \<open>
  A byte sent in two halves arrives with both halves, but RS is back at 0 at the falling edge
  of the second one: a display that takes RS then sees an instruction.
\<close>

lemma send_4_arrives:
  assumes "lcd_port io codes" "rs = 0 \<or> of_char CHR '' '' \<le> dat \<and> dat \<le> of_char CHR ''z''"
  shows "\<exists>l' cs. hd44780_send_4 io dat rs l = Some l' \<and> codes (lcd_env l') = codes (lcd_env l) @ cs \<and>
    four_lines (strobes 0 cs) = [(bit rs 0, push_bit 4 (drop_bit 4 dat) OR (dat AND 0xF))] \<and>
    \<not> bit (last cs) 5"
proof -
  have "four_lines (strobes 0 (codes_4 dat rs)) = [(bit rs 0, push_bit 4 (drop_bit 4 dat) OR (dat AND 0xF))]"
    using strobes_codes_4 [of 0 dat rs "[]"] by simp
  moreover have "\<not> bit (last (codes_4 dat rs)) 5" by (simp add: codes_4_def lcd_code_def bit_simps)
  ultimately show ?thesis using send_4_codes [OF assms, of l] by blast
qed

text \<open>Other characters are dropped.\<close>

lemma send_4_unprintable:
  "rs \<noteq> 0 \<Longrightarrow> dat < of_char CHR '' '' \<or> of_char CHR ''z'' < dat \<Longrightarrow> hd44780_send_4 io dat rs l = Some l"
  by (auto simp: hd44780_send_4_def)

end
