(* ===== verification/Transfer_Safety.thy ===== *)
theory Transfer_Safety
  imports Uart_Usic Mmc_Spi Rtc_Ds1307 Mcu_Pwm
begin

text \<open>
  What a read may do to the buffer of its caller, for every driver behind the device switch
  (src/src/sys/dev.c and the drivers under src/src/dev).
\<close>

section \<open>The contract\<close>

text \<open>
  The descriptor after a call: the buffer keeps its length, only the bytes the descriptor
  designates may have changed, and at most as many as before are left to transfer.
\<close>

definition uio_kept :: "uio \<Rightarrow> uio \<Rightarrow> bool" where
  "uio_kept u u' \<longleftrightarrow>
     length (iov_obj (uio_iov u')) = length (iov_obj (uio_iov u)) \<and> iov_base (uio_iov u') = iov_base (uio_iov u) \<and>
     (\<forall>j < length (iov_obj (uio_iov u)).
        j < iov_base (uio_iov u) \<or> iov_base (uio_iov u) + unat (uio_resid u) \<le> j \<longrightarrow>
        iov_obj (uio_iov u') ! j = iov_obj (uio_iov u) ! j) \<and>
     (uio_resid u' = uio_resid u \<or> uio_resid u' = 0)"

lemma uio_kept_refl [simp, intro]: "uio_kept u u"
  by (simp add: uio_kept_def)

locale careful_reader =
  fixes rd :: "'d vnode \<Rightarrow> uio \<Rightarrow> 's \<Rightarrow> (cint \<times> 'd vnode \<times> uio \<times> 's) option"
  assumes rd_kept: "rd v u s = Some (r, v', u', s') \<Longrightarrow> uio_kept u u'"
begin

text \<open>The buffer of a whole read of \<open>count\<close> bytes, and what is left to read.\<close>

definition read_kept :: "u32 \<Rightarrow> uio \<Rightarrow> uio \<Rightarrow> bool" where
  "read_kept count u u' \<longleftrightarrow>
     length (iov_obj (uio_iov u')) = length (iov_obj (uio_iov u)) \<and>
     (\<forall>j < length (iov_obj (uio_iov u)). unat count \<le> j \<longrightarrow> iov_obj (uio_iov u') ! j = iov_obj (uio_iov u) ! j) \<and>
     uio_resid u' = (if cless 0 (uio_resid u) then 0 else uio_resid u)"

lemma dev_read_loop_kept:
  assumes "dev_read_loop ops count v u s = Some res"
  shows "d_read ops = rd \<longrightarrow> uio_resid u = count \<or> uio_resid u = 0 \<longrightarrow> read_kept count u (fst (snd res))"
proof (rule dev_read_loop.raw_induct [OF _ assms, where P = "\<lambda>ops count v u s res.
      d_read ops = rd \<longrightarrow> uio_resid u = count \<or> uio_resid u = 0 \<longrightarrow> read_kept count u (fst (snd res))"])
  fix f :: "('d, 's) dev_ops \<Rightarrow> u32 \<Rightarrow> 'd vnode \<Rightarrow> uio \<Rightarrow> 's \<Rightarrow> ('d vnode \<times> uio \<times> 's) option"
    and ops count v s res and u :: uio
  assume IH: "\<And>ops count v u s res. f ops count v u s = Some res \<Longrightarrow>
      d_read ops = rd \<longrightarrow> uio_resid u = count \<or> uio_resid u = 0 \<longrightarrow> read_kept count u (fst (snd res))"
  let ?u = "u\<lparr>uio_iov := (uio_iov u)\<lparr>iov_base := unat (count - uio_resid u)\<rparr>\<rparr>"
  assume r: "(if cless 0 (uio_resid u)
      then Option.bind (d_read ops v ?u s) (\<lambda>(_, v', u', s'). f ops count v' u' s')
      else Some (v, u, s)) = Some res"
  show "d_read ops = rd \<longrightarrow> uio_resid u = count \<or> uio_resid u = 0 \<longrightarrow> read_kept count u (fst (snd res))"
  proof (intro impI)
    assume rd: "d_read ops = rd" and c: "uio_resid u = count \<or> uio_resid u = 0"
    show "read_kept count u (fst (snd res))"
    proof (cases "cless 0 (uio_resid u)")
      case False
      with r show ?thesis by (auto simp: read_kept_def)
    next
      case True
      then have cnt: "uio_resid u = count" using c by (auto simp: cless_0)
      from True r rd obtain x v' u' s' where d: "rd v ?u s = Some (x, v', u', s')" "f ops count v' u' s' = Some res"
        by (auto simp: Option.bind_eq_Some_conv)
      have k: "uio_kept ?u u'" using rd_kept [OF d(1)] .
      then have "read_kept count u' (fst (snd res))"
        using IH [OF d(2)] rd cnt by (auto simp: uio_kept_def)
      then show ?thesis
        using k cnt True by (auto simp: read_kept_def uio_kept_def cless_0)
    qed
  qed
qed

lemma dev_read_kept:
  assumes "driver devices v = Some ops" "d_read ops = rd" "dev_read devices ptr count v s = Some (n, ptr', v', s')"
  shows "length ptr' = length ptr \<and> drop (unat count) ptr' = drop (unat count) ptr \<and>
    n = (if cless 0 count then count else 0)"
proof -
  let ?u = "\<lparr>uio_iov = \<lparr>iov_obj = ptr, iov_base = 0, iov_len = 0\<rparr>, uio_resid = count, uio_rw = UIO_READ\<rparr>"
  obtain u' where u': "dev_read_loop ops count v ?u s = Some (v', u', s')" "n = count - uio_resid u'"
    "ptr' = iov_obj (uio_iov u')"
    using assms by (auto simp: dev_read_def Option.bind_eq_Some_conv)
  have "read_kept count ?u u'" using dev_read_loop_kept [OF u'(1)] assms(2) by simp
  then show ?thesis
    using u'(2,3) by (auto simp: read_kept_def nth_drop intro!: nth_equalityI)
qed

end

section \<open>The drivers keep the contract\<close>

lemma read_loop_kept:
  assumes "read_loop recv p u s = Some (u', s')" "p = iov_base (uio_iov u)"
  shows "uio_kept u u'"
proof -
  have "length (iov_obj (uio_iov u')) = length (iov_obj (uio_iov u)) \<and> iov_base (uio_iov u') = iov_base (uio_iov u) \<and>
     (\<forall>j < length (iov_obj (uio_iov u)). j < p \<or> p + unat (uio_resid u) \<le> j \<longrightarrow>
        iov_obj (uio_iov u') ! j = iov_obj (uio_iov u) ! j) \<and>
     (uio_resid u' = (if cless 0 (uio_resid u) then 0 else uio_resid u))"
    using assms(1)
  proof (induction recv p u s rule: read_loop.induct)
    case (1 recv p u s)
    show ?case
    proof (cases "cless 0 (uio_resid u)")
      case False
      with 1(2) show ?thesis by (subst (asm) read_loop.simps) auto
    next
      case True
      with 1(2) obtain b s1 where b: "recv (uio_resid u) s = Some (b, s1)" "p < length (iov_obj (uio_iov u))"
        "read_loop recv (Suc p) (u\<lparr>uio_iov := (uio_iov u)\<lparr>iov_obj := (iov_obj (uio_iov u))[p := b]\<rparr>,
           uio_resid := uio_resid u - 1\<rparr>) s1 = Some (u', s')"
        by (subst (asm) read_loop.simps) (auto simp: Option.bind_eq_Some_conv split: if_splits)
      have n: "unat (uio_resid u) = Suc (unat (uio_resid u - 1))" using cless_0_step [OF True] by blast
      have z: "\<not> cless 0 (uio_resid u - 1) \<Longrightarrow> uio_resid u - 1 = 0"
        using cless_0_step [OF True] by (auto simp: cless_0 unat_eq_0)
      have ih: "length (iov_obj (uio_iov u')) = length (iov_obj (uio_iov u))"
        "iov_base (uio_iov u') = iov_base (uio_iov u)"
        "\<And>j. j < length (iov_obj (uio_iov u)) \<Longrightarrow> j < Suc p \<or> Suc p + unat (uio_resid u - 1) \<le> j \<Longrightarrow>
          iov_obj (uio_iov u') ! j = (iov_obj (uio_iov u))[p := b] ! j"
        "uio_resid u' = (if cless 0 (uio_resid u - 1) then 0 else uio_resid u - 1)"
        using 1(1) [OF True b(1) refl b(2,3)] by auto
      have "iov_obj (uio_iov u') ! j = iov_obj (uio_iov u) ! j"
        if "j < length (iov_obj (uio_iov u))" "j < p \<or> p + unat (uio_resid u) \<le> j" for j
        using ih(3) [of j] that n by auto
      then show ?thesis using ih(1,2,4) z True by auto
    qed
  qed
  then show ?thesis using assms(2) by (auto simp: uio_kept_def)
qed

interpretation uart_careful: careful_reader "usic_uart_read hw ch"
  by unfold_locales (auto simp: usic_uart_read_def Option.bind_eq_Some_conv intro: read_loop_kept)

interpretation spi_careful: careful_reader "usic_spi_read hw"
  by unfold_locales (auto simp: usic_spi_read_def Option.bind_eq_Some_conv intro: read_loop_kept)

interpretation i2c_careful: careful_reader "usic_i2c_read hw"
  by unfold_locales (auto simp: usic_i2c_read_def Option.bind_eq_Some_conv intro: read_loop_kept)

interpretation rtc_careful: careful_reader ds1307_rtc_read
  by unfold_locales (auto simp: ds1307_rtc_read_def)

interpretation pwm_careful: careful_reader ccu4_pwm_read
  by unfold_locales (auto simp: ccu4_pwm_read_def)

interpretation mmc_careful: careful_reader "mmc_spi_read devices l"
  by unfold_locales
    (auto simp: mmc_spi_read_def Option.bind_eq_Some_conv intro: read_loop_kept split: option.splits if_splits)

section \<open>Properties\<close>

text \<open>
  C11: no driver writes outside the buffer it is given. Whatever the hardware does, if \<open>dev_read\<close>
  returns on a node of the UART, SPI, I2C, clock, card or PWM driver, the buffer of the
  caller has kept its length and every byte from \<open>count\<close> on, and the result is the count
  asked for, or 0 for a count that is negative as an \<open>int\<close>.
\<close>

theorem reads_stay_in_buffer:
  assumes "driver devices v = Some ops" "dev_read devices ptr count v s = Some (n, ptr', v', s')"
    and "ops \<in> {uart hw ch baud, spi hw, i2c hw, rtc t buf0, mmc t l, pwm regs}"
  shows "length ptr' = length ptr \<and> drop (unat count) ptr' = drop (unat count) ptr \<and>
    n = (if cless 0 count then count else 0)"
proof -
  consider "d_read ops = usic_uart_read hw ch" | "d_read ops = usic_spi_read hw" | "d_read ops = usic_i2c_read hw"
    | "d_read ops = ds1307_rtc_read" | "d_read ops = mmc_spi_read t l" | "d_read ops = ccu4_pwm_read"
    using assms(3) by (auto simp: uart_def spi_def i2c_def rtc_def mmc_def pwm_def)
  then show ?thesis
  proof cases
    case 1
    show ?thesis by (rule uart_careful.dev_read_kept [OF assms(1) 1 assms(2)])
  next
    case 2
    show ?thesis by (rule spi_careful.dev_read_kept [OF assms(1) 2 assms(2)])
  next
    case 3
    show ?thesis by (rule i2c_careful.dev_read_kept [OF assms(1) 3 assms(2)])
  next
    case 4
    show ?thesis by (rule rtc_careful.dev_read_kept [OF assms(1) 4 assms(2)])
  next
    case 5
    show ?thesis by (rule mmc_careful.dev_read_kept [OF assms(1) 5 assms(2)])
  next
    case 6
    show ?thesis by (rule pwm_careful.dev_read_kept [OF assms(1) 6 assms(2)])
  qed
qed

text \<open>A read of two bytes from the UART into a buffer of three.\<close>

definition careful_sys :: "demo_channel sys" where
  "careful_sys = \<lparr>sys_hw = demo_quiet, uart_node = demo_uart_node, i2c_node = demo_uart_node,
     rtc_node = demo_uart_node, spi_node = demo_uart_node, sys_errno = EPERM\<rparr>"

definition careful_table :: "(node_data, demo_channel sys) dev_table" where
  "careful_table = driver_map DEV_UART (uart (sys_xmc demo_xmc) CH1 UART_19200) no_devices"

theorem reads_stay_in_buffer_witness:
  "\<exists>ptr' v' s'. dev_read careful_table [0, 0, 9] 2 demo_uart_node careful_sys = Some (2, ptr', v', s') \<and>
     length ptr' = 3 \<and> drop 2 ptr' = [9]"
proof -
  have d: "driver careful_table demo_uart_node = Some (uart (sys_xmc demo_xmc) CH1 UART_19200)"
    unfolding careful_table_def by (rule driver_map_same) (simp_all add: node_of_def demo_uart_node_def)
  have "map_option fst (dev_read careful_table [0, 0, 9] 2 demo_uart_node careful_sys) = Some 2" by code_simp
  then obtain ptr' v' s' where r: "dev_read careful_table [0, 0, 9] 2 demo_uart_node careful_sys = Some (2, ptr', v', s')"
    by auto
  from reads_stay_in_buffer [OF d r insertI1] r show ?thesis by (intro exI [of _ ptr'] exI [of _ v'] exI [of _ s']) simp
qed

end
