(* ===== verification/Main_Tasks.thy ===== *)
theory Main_Tasks
  imports Mutex_Protocol Rtc_Ds1307 System_Console
begin

text \<open>
  The application of src/src/main.c: its two tasks as the statements they go through, run by the
  kernel. A call of the kernel is an event of the event machine; the program counter of a task
  is where it goes on when the call returns to it. A statement on the devices is one step:
  only one of the tasks has such statements, and an interrupt inside one changes the kernel
  state only.
\<close>

section \<open>The tasks\<close>

record 'h app =
  ker :: kern
  pcs :: "nat \<Rightarrow> nat"
  dev :: "'h sys"
  myRTC :: tm

datatype stmt = Call kevent | Set_RTC | Update_RTC | Print_RTC

definition uart_task :: "stmt list" where
  "uart_task = [Set_RTC, Call (Sleep 100), Call Lock, Update_RTC, Print_RTC, Call Unlock, Call Yield]"

definition mutex_task :: "stmt list" where
  "mutex_task = [Call Lock, Call (Sleep (1000 * 2)), Call Unlock, Call Yield]"

text \<open>The loops \<open>for(;;)\<close>: of \<open>uart_task\<close> from its third statement on, of \<open>mutex_task\<close> all.\<close>

definition OS_Tasks :: "nat \<Rightarrow> stmt list" where
  "OS_Tasks t = (if t = 1 then uart_task else mutex_task)"

definition next_pc :: "nat \<Rightarrow> nat \<Rightarrow> nat" where
  "next_pc t pc = (if Suc pc = length (OS_Tasks t) then (if t = 1 then 2 else 0) else Suc pc)"

definition first_tm :: tm where
  "first_tm = \<lparr>tm_sec = 0, tm_min = 53, tm_hour = 14, tm_mday = 17, tm_mon = 6, tm_year = 16\<rparr>"

text \<open>\<open>dev_ioctl(&rtc_node, code, &myRTC)\<close>.\<close>

definition rtc_request :: "(node_data, 'h sys) dev_table \<Rightarrow> u8 \<Rightarrow> 'h app \<Rightarrow> 'h app option" where
  "rtc_request devices code a = do {
     (_, v, d, s) \<leftarrow> dev_ioctl devices (rtc_node (dev a)) code (Tm_data (myRTC a)) (dev a);
     Some (a\<lparr>dev := s\<lparr>rtc_node := v\<rparr>, myRTC := (case d of Tm_data t \<Rightarrow> t | _ \<Rightarrow> myRTC a)\<rparr>)
   }"

definition RTC_update :: "(node_data, 'h sys) dev_table \<Rightarrow> 'h app \<Rightarrow> 'h app option" where
  "RTC_update devices = rtc_request devices RTC_IOCTL_GET_TIME"

definition RTC_print :: "(node_data, 'h sys) dev_table \<Rightarrow> locals \<Rightarrow> 'h app \<Rightarrow> 'h app option" where
  "RTC_print devices l a = do {
     let t = myRTC a;
     s \<leftarrow> printf_sys devices l (line ''RTC reports : %d/%d/%d %d:%d:%d!'')
       (map Va_int [tm_mday t, tm_mon t, tm_year t, tm_hour t, tm_min t, tm_sec t]) (dev a);
     Some (a\<lparr>dev := s\<rparr>)
   }"

fun run_stmt :: "(node_data, 'h sys) dev_table \<Rightarrow> locals \<Rightarrow> stmt \<Rightarrow> 'h app \<Rightarrow> 'h app option" where
  "run_stmt devices l (Call e) a = map_option (\<lambda>k. a\<lparr>ker := k\<rparr>) (kstep e (ker a))"
| "run_stmt devices l Set_RTC a = rtc_request devices RTC_IOCTL_SET_TIME (a\<lparr>myRTC := first_tm\<rparr>)"
| "run_stmt devices l Update_RTC a = RTC_update devices a"
| "run_stmt devices l Print_RTC a = RTC_print devices l a"

text \<open>A step: an interrupt, or the next statement of the task that runs.\<close>

inductive app_step :: "(node_data, 'h sys) dev_table \<Rightarrow> locals \<Rightarrow> 'h app \<Rightarrow> 'h app \<Rightarrow> bool" for devices l where
  app_tick: "kstep Tick (ker a) = Some k \<Longrightarrow> app_step devices l a (a\<lparr>ker := k\<rparr>)"
| app_run: "t = current_tid (ker a) \<Longrightarrow> 1 \<le> t \<Longrightarrow>
    run_stmt devices l (OS_Tasks t ! pcs a t) a = Some a' \<Longrightarrow>
    app_step devices l a (a'\<lparr>pcs := (pcs a)(t := next_pc t (pcs a t))\<rparr>)"

definition app_init :: "'h app \<Rightarrow> bool" where
  "app_init a \<longleftrightarrow> kern_wf (ker a) \<and> registered_tasks (ker a) = 2 \<and> mutex (ker a) = 0 \<and>
     (\<forall>i \<le> 2. state_of (ker a) i \<noteq> TASK_MUTEX_BLOCKED) \<and> pcs a = (\<lambda>_. 0)"

section \<open>The critical sections\<close>

text \<open>The statements between \<open>mutex_lock\<close> and \<open>mutex_unlock\<close>, the latter included.\<close>

definition in_section :: "nat \<Rightarrow> nat \<Rightarrow> bool" where
  "in_section t pc \<longleftrightarrow> pc \<in> (if t = 1 then {3, 4, 5} else {1, 2})"

text \<open>The tasks in their sections: those whose call of \<open>mutex_lock\<close> has been granted.\<close>

definition holders :: "'h app \<Rightarrow> nat set" where
  "holders a = {t \<in> {1, 2}. in_section t (pcs a t) \<and> state_of (ker a) t \<noteq> TASK_MUTEX_BLOCKED}"

definition app_inv :: "'h app \<Rightarrow> bool" where
  "app_inv a \<longleftrightarrow> lock_inv (ker a, holders a) \<and> registered_tasks (ker a) = 2 \<and>
     (\<forall>t \<in> {1, 2}. pcs a t < length (OS_Tasks t) \<and>
        (state_of (ker a) t = TASK_MUTEX_BLOCKED \<longrightarrow> in_section t (pcs a t)))"

definition section_kept :: "nat \<Rightarrow> nat \<Rightarrow> bool" where
  "section_kept t pc \<longleftrightarrow> next_pc t pc < length (OS_Tasks t) \<and>
     (case OS_Tasks t ! pc of
        Call Lock \<Rightarrow> \<not> in_section t pc \<and> in_section t (next_pc t pc)
      | Call Unlock \<Rightarrow> in_section t pc \<and> \<not> in_section t (next_pc t pc)
      | Call e \<Rightarrow> in_section t (next_pc t pc) = in_section t pc
      | Set_RTC \<Rightarrow> \<not> in_section t pc \<and> \<not> in_section t (next_pc t pc)
      | _ \<Rightarrow> in_section t pc \<and> in_section t (next_pc t pc))"

lemma sections_kept:
  assumes "t \<in> {1, 2}" "pc < length (OS_Tasks t)"
  shows "section_kept t pc"
proof -
  have "list_all (section_kept 1) [0 ..< length (OS_Tasks 1)]" "list_all (section_kept 2) [0 ..< length (OS_Tasks 2)]"
    by code_simp+
  then show ?thesis using assms by (auto simp: list_all_iff)
qed

lemma stmt_sections:
  assumes "t \<in> {1, 2}" "pc < length (OS_Tasks t)"
  shows "next_pc t pc < length (OS_Tasks t)"
    "OS_Tasks t ! pc = Call Lock \<Longrightarrow> \<not> in_section t pc \<and> in_section t (next_pc t pc)"
    "OS_Tasks t ! pc = Call Unlock \<Longrightarrow> in_section t pc \<and> \<not> in_section t (next_pc t pc)"
    "OS_Tasks t ! pc \<noteq> Call Lock \<Longrightarrow> OS_Tasks t ! pc \<noteq> Call Unlock \<Longrightarrow> in_section t (next_pc t pc) = in_section t pc"
    "OS_Tasks t ! pc \<in> {Update_RTC, Print_RTC} \<Longrightarrow> in_section t pc"
  using sections_kept [OF assms] unfolding section_kept_def
  by (auto split: stmt.splits kevent.splits)

text \<open>A step that is no \<open>mutex_lock\<close> makes no task wait for the mutex.\<close>

lemma waits_before:
  assumes "kern_wf k" "kstep e k = Some k'" "e \<noteq> Lock" "1 \<le> i" "i \<le> registered_tasks k"
    and "state_of k' i = TASK_MUTEX_BLOCKED"
  shows "state_of k i = TASK_MUTEX_BLOCKED"
proof (cases "switching e k")
  case True
  then show ?thesis using switch_blocked [OF assms(1) True assms(2,4,5)] assms(3,6) by simp
next
  case False
  then show ?thesis using kstep_not_switching [OF False] assms(2,6) by (simp add: state_of_def)
qed

text \<open>
  A kernel step that keeps the sections: the holders after it are those of the mutex protocol.
\<close>

lemma holders_step:
  assumes "app_inv a" "lock_inv (k', holders a \<union> granted (ker a) k')" "registered_tasks k' = 2"
    and "kstep e (ker a) = Some k'" "e \<noteq> Lock"
    and "\<forall>t \<in> {1, 2}. pcs a' t < length (OS_Tasks t) \<and> in_section t (pcs a' t) = in_section t (pcs a t)" "ker a' = k'"
  shows "app_inv a'"
proof -
  have wf: "kern_wf (ker a)" "registered_tasks (ker a) = 2" using assms(1) by (simp_all add: app_inv_def lock_inv_def)
  have w: "state_of (ker a) t = TASK_MUTEX_BLOCKED" if "t \<in> {1, 2}" "state_of k' t = TASK_MUTEX_BLOCKED" for t
    by (rule waits_before [OF wf(1) assms(4,5)]) (use that wf(2) in auto)
  have "holders a' = holders a \<union> granted (ker a) k'"
  proof (rule set_eqI)
    fix t
    have "state_of k' t \<noteq> TASK_MUTEX_BLOCKED" if "t \<in> holders a \<union> granted (ker a) k'"
      using that assms(2) by (auto simp: lock_inv_def)
    moreover have "t \<in> {1, 2}" if "t \<in> granted (ker a) k'"
      using that wf(2) by (auto simp: granted_def)
    ultimately show "t \<in> holders a' \<longleftrightarrow> t \<in> holders a \<union> granted (ker a) k'"
      using assms(1,6,7) wf(2) by (auto simp: holders_def app_inv_def granted_def)
  qed
  then show ?thesis
    using assms w by (auto simp: app_inv_def)
qed

lemma lock_inv_step: "lock_inv c \<Longrightarrow> lock_step c c' \<Longrightarrow> lock_inv c'"
  by (rule mutex_protocol.invar_step)

lemma rtc_request_kernel: "rtc_request devices code a = Some a' \<Longrightarrow> ker a' = ker a \<and> pcs a' = pcs a"
  by (auto simp: rtc_request_def Option.bind_eq_Some_conv)

lemma run_stmt_device:
  "run_stmt devices l st a = Some a' \<Longrightarrow> (\<nexists>e. st = Call e) \<Longrightarrow> ker a' = ker a \<and> pcs a' = pcs a"
  by (cases st) (auto simp: RTC_update_def RTC_print_def Let_def Option.bind_eq_Some_conv dest!: rtc_request_kernel)

lemma app_invD:
  assumes "app_inv a"
  shows "kern_wf (ker a)" "registered_tasks (ker a) = 2" "lock_inv (ker a, holders a)"
    "t \<in> {1, 2} \<Longrightarrow> pcs a t < length (OS_Tasks t)"
  using assms unfolding app_inv_def by (simp add: lock_inv_def, simp, simp, blast)

lemma app_invD_wait:
  "app_inv a \<Longrightarrow> t \<in> {1, 2} \<Longrightarrow> state_of (ker a) t = TASK_MUTEX_BLOCKED \<Longrightarrow> in_section t (pcs a t)"
  unfolding app_inv_def by blast

lemma app_invI:
  assumes "lock_inv (ker a, holders a)" "registered_tasks (ker a) = 2"
    and "\<And>u. u \<in> {1, 2} \<Longrightarrow> pcs a u < length (OS_Tasks u)"
    and "\<And>u. u \<in> {1, 2} \<Longrightarrow> state_of (ker a) u = TASK_MUTEX_BLOCKED \<Longrightarrow> in_section u (pcs a u)"
  shows "app_inv a"
  using assms unfolding app_inv_def by blast

lemma app_call_inv:
  assumes inv: "app_inv a" and t: "t = current_tid (ker a)" "1 \<le> t"
    and st: "OS_Tasks t ! pcs a t = Call e" and k': "kstep e (ker a) = Some k'"
  shows "app_inv (a\<lparr>ker := k', pcs := (pcs a)(t := next_pc t (pcs a t))\<rparr>)"
proof -
  let ?k = "ker a" and ?a = "a\<lparr>ker := k', pcs := (pcs a)(t := next_pc t (pcs a t))\<rparr>"
  note wf = app_invD(1,2) [OF inv] and li = app_invD(3) [OF inv]
  have t': "t \<in> {1, 2}" "state_of ?k t = TASK_RUNNING"
    using t wf by (auto simp: kern_wf_def kern_bounds_def)
  have r': "registered_tasks k' = 2" using kstep_wf [OF wf(1), of e] k' wf(2) by auto
  note pc = app_invD(4) [OF inv t'(1)]
  note sec = stmt_sections [OF t'(1) pc]
  have run: "TASK_RUNNING \<noteq> TASK_MUTEX_BLOCKED" by (simp add: TASK_RUNNING_def TASK_MUTEX_BLOCKED_def)
  have pcs': "pcs ?a u < length (OS_Tasks u)" if "u \<in> {1, 2}" for u
    using app_invD(4) [OF inv that] sec(1) by simp
  have same: "state_of k' u = TASK_MUTEX_BLOCKED \<Longrightarrow> in_section u (pcs ?a u)"
    if "u \<in> {1, 2}" "u \<noteq> t" "state_of k' u = TASK_MUTEX_BLOCKED \<Longrightarrow> state_of ?k u = TASK_MUTEX_BLOCKED" for u
    using app_invD_wait [OF inv that(1)] that(2,3) by simp
  consider (free) "e = Lock" "mutex ?k = 0" | (wait) "e = Lock" "mutex ?k \<noteq> 0" | (unlock) "e = Unlock"
    | (rest) "e \<noteq> Lock" "e \<noteq> Unlock" by blast
  then show ?thesis
  proof cases
    case free
    then have k: "k' = ?k\<lparr>mutex := 1\<rparr>" using k' by (simp add: k_mutex_lock_def)
    have out: "\<not> in_section t (pcs a t) \<and> in_section t (next_pc t (pcs a t))" using sec(2) st free(1) by simp
    then have "holders ?a = insert t (holders a)"
      using t' run by (auto simp: holders_def k state_of_def)
    moreover have "lock_inv (k', insert t (holders a))"
      unfolding t(1)
      by (rule lock_inv_step [OF li lock_free]) (use t out free k' in \<open>simp_all add: holders_def\<close>)
    ultimately have li': "lock_inv (ker ?a, holders ?a)" by simp
    show ?thesis
    proof (rule app_invI [OF li' _ pcs'])
      fix u :: nat assume u: "u \<in> {1, 2}" "state_of (ker ?a) u = TASK_MUTEX_BLOCKED"
      show "in_section u (pcs ?a u)"
        using out same [OF u(1)] u(2) by (cases "u = t") (simp_all add: k state_of_def)
    qed (use r' in simp_all)
  next
    case wait
    then have sw: "switching e ?k" by simp
    have out: "\<not> in_section t (pcs a t) \<and> in_section t (next_pc t (pcs a t))" using sec(2) st wait(1) by simp
    have b: "state_of k' u = TASK_MUTEX_BLOCKED \<longleftrightarrow> state_of ?k u = TASK_MUTEX_BLOCKED \<or> u = t" if "u \<in> {1, 2}" for u
      using switch_blocked [OF wf(1) sw k', of u] that wf(2) wait t(1) by auto
    have "u \<notin> granted ?k k'" for u
    proof
      assume g: "u \<in> granted ?k k'"
      then have "u \<in> {1, 2}" using wf(2) by (auto simp: granted_def)
      from b [OF this] g show False by (auto simp: granted_def)
    qed
    moreover have "u \<in> holders ?a \<longleftrightarrow> u \<in> holders a" for u
    proof (cases "u \<in> {1, 2}")
      case True
      show ?thesis using out b [OF True] t'(1) by (cases "u = t") (simp_all add: holders_def)
    qed (simp add: holders_def)
    ultimately have "holders ?a = holders a \<union> granted ?k k'" by blast
    moreover have "lock_inv (k', holders a \<union> granted ?k k')"
      by (rule lock_inv_step [OF li lock_wait]) (use t out wait k' in \<open>simp_all add: holders_def\<close>)
    ultimately have li': "lock_inv (ker ?a, holders ?a)" by simp
    show ?thesis
    proof (rule app_invI [OF li' _ pcs'])
      fix u :: nat assume u: "u \<in> {1, 2}" "state_of (ker ?a) u = TASK_MUTEX_BLOCKED"
      show "in_section u (pcs ?a u)"
        using out same [OF u(1)] b [OF u(1)] u(2) by (cases "u = t") simp_all
    qed (use r' in simp_all)
  next
    case unlock
    then have k: "k' = ?k\<lparr>mutex := 0\<rparr>" using k' by (simp add: k_mutex_unlock_def)
    have out: "in_section t (pcs a t) \<and> \<not> in_section t (next_pc t (pcs a t))" using sec(3) st unlock by simp
    then have "holders ?a = holders a - {t}"
      using t' run by (auto simp: holders_def k state_of_def)
    moreover have "t \<in> holders a" using out t' run by (simp add: holders_def)
    then have "lock_inv (k', holders a - {t})"
      unfolding t(1)
      by (intro lock_inv_step [OF li] lock_step.unlock) (use unlock k' in simp_all)
    ultimately have li': "lock_inv (ker ?a, holders ?a)" by simp
    show ?thesis
    proof (rule app_invI [OF li' _ pcs'])
      fix u :: nat assume u: "u \<in> {1, 2}" "state_of (ker ?a) u = TASK_MUTEX_BLOCKED"
      then have u': "state_of ?k u = TASK_MUTEX_BLOCKED" by (simp add: k state_of_def)
      then have "u \<noteq> t" using t'(2) run by auto
      with same [OF u(1)] u' u(2) show "in_section u (pcs ?a u)" by simp
    qed (use r' in simp_all)
  next
    case rest
    have "lock_inv (k', holders a \<union> granted ?k k')"
      by (rule lock_inv_step [OF li other [OF rest k']])
    then show ?thesis
      by (rule holders_step [OF inv _ r' k' rest(1)])
        (use inv sec(1,4) rest st t'(1) in \<open>auto simp: app_inv_def\<close>)
  qed
qed

lemma app_device_inv:
  assumes inv: "app_inv a" and t: "t = current_tid (ker a)" "1 \<le> t"
    and st: "\<nexists>e. OS_Tasks t ! pcs a t = Call e" and b: "ker b = ker a" "pcs b = pcs a"
  shows "app_inv (b\<lparr>pcs := (pcs a)(t := next_pc t (pcs a t))\<rparr>)"
proof -
  have "t \<in> {1, 2}"
    using t app_invD(1,2) [OF inv] by (auto simp: kern_wf_def kern_bounds_def)
  then have sec: "next_pc t (pcs a t) < length (OS_Tasks t)"
    "in_section t (next_pc t (pcs a t)) = in_section t (pcs a t)"
    using app_invD(4) [OF inv] st stmt_sections [of t "pcs a t"] by auto
  then have "holders (b\<lparr>pcs := (pcs a)(t := next_pc t (pcs a t))\<rparr>) = holders a"
    by (auto simp: holders_def b)
  then show ?thesis using inv sec by (auto simp: app_inv_def b)
qed

interpretation application: inductive_invariant app_init "app_step devices l" app_inv
proof unfold_locales
  fix a :: "'a app"
  assume "app_init a"
  moreover from this have "holders a = {}" by (auto simp: app_init_def holders_def in_section_def)
  ultimately show "app_inv a"
    by (auto simp: app_inv_def app_init_def lock_inv_def OS_Tasks_def uart_task_def mutex_task_def)
next
  fix a a' :: "'a app"
  assume inv: "app_inv a" and step: "app_step devices l a a'"
  from step show "app_inv a'"
  proof (cases rule: app_step.cases)
    case (app_tick k')
    note wf = app_invD(1,2) [OF inv] and li = app_invD(3) [OF inv]
    have "lock_inv (k', holders a \<union> granted (ker a) k')"
      by (rule lock_inv_step [OF li other [of Tick]]) (use app_tick in simp_all)
    moreover have "registered_tasks k' = 2" using kstep_wf [OF wf(1), of Tick] app_tick(2) wf(2) by auto
    ultimately show ?thesis
      by (rule holders_step [OF inv _ _ app_tick(2)]) (use inv app_tick in \<open>simp_all add: app_inv_def\<close>)
  next
    case (app_run t b)
    show ?thesis
    proof (cases "\<exists>e. OS_Tasks t ! pcs a t = Call e")
      case True
      then obtain e where e: "OS_Tasks t ! pcs a t = Call e" by blast
      then obtain k' where "kstep e (ker a) = Some k'" "b = a\<lparr>ker := k'\<rparr>" using app_run(4) by auto
      then show ?thesis using app_call_inv [OF inv app_run(2,3) e] app_run(1) by simp
    next
      case False
      have "ker b = ker a \<and> pcs b = pcs a" using run_stmt_device [OF app_run(4)] False by simp
      then show ?thesis
        unfolding app_run(1) by (intro app_device_inv [OF inv app_run(2,3) False]) simp_all
    qed
  qed
qed

section \<open>Properties\<close>

text \<open>
  C9: the application of main.c. Under every interleaving of interrupts and statements of the two
  tasks, at most one of them is between its \<open>mutex_lock\<close> and its \<open>mutex_unlock\<close>; the mutex is taken
  exactly when one is; and the clock is read and its time printed only with the mutex held
  by the task that does it.
\<close>

theorem clock_used_under_mutex:
  assumes "reachable app_init (app_step devices l) a"
  shows "card (holders a) = (if mutex (ker a) = 0 then 0 else 1) \<and>
    (\<forall>t. 1 \<le> t \<and> t = current_tid (ker a) \<and> OS_Tasks t ! pcs a t \<in> {Update_RTC, Print_RTC} \<longrightarrow> holders a = {t})"
proof -
  have inv: "app_inv a" by (rule application.reachable_invar [OF assms])
  then have li: "if mutex (ker a) = 0 then holders a = {} else (\<exists>h. holders a = {h})"
    by (simp add: app_inv_def lock_inv_def split: if_splits)
  then have "card (holders a) = (if mutex (ker a) = 0 then 0 else 1)" by (auto split: if_splits)
  moreover have "holders a = {t}"
    if t: "1 \<le> t" "t = current_tid (ker a)" "OS_Tasks t ! pcs a t \<in> {Update_RTC, Print_RTC}" for t
  proof -
    have "t \<in> {1, 2}" "state_of (ker a) t = TASK_RUNNING"
      using t(1,2) app_invD(1,2) [OF inv] by (auto simp: kern_wf_def kern_bounds_def)
    moreover from this(1) have "in_section t (pcs a t)"
      using stmt_sections(5) [of t "pcs a t"] app_invD(4) [OF inv] t(3) by blast
    ultimately have "t \<in> holders a" by (simp add: holders_def TASK_RUNNING_def TASK_MUTEX_BLOCKED_def)
    with li show ?thesis by (auto split: if_splits)
  qed
  ultimately show ?thesis by blast
qed

text \<open>Two tasks from their start; an interrupt, by which task 2 runs and takes the mutex.\<close>

definition app_kern :: kern where
  "app_kern = demo_kern\<lparr>current_tid := 2, registered_tasks := 2, mutex := 0,
     tasks := map demo_task [2, 2, 4, 0, 0, 0, 0, 0]\<rparr>"

definition demo_app :: "demo_chip app" where
  "demo_app = \<lparr>ker = app_kern, pcs = (\<lambda>_. 0), dev = demo_rtc_sys, myRTC = first_tm\<rparr>"

theorem clock_used_under_mutex_witness:
  "\<forall>l. \<exists>a. reachable app_init (app_step demo_rtc_table l) a \<and> holders (a :: demo_chip app) = {2} \<and> mutex (ker a) \<noteq> 0 \<and>
    card (holders a) = (if mutex (ker a) = 0 then 0 else 1)"
  (is "\<forall>l. ?P l")
proof
  fix l
  let ?a = "demo_app\<lparr>ker := app_kern\<lparr>mutex := 1\<rparr>, pcs := (pcs demo_app)(2 := next_pc 2 (pcs demo_app 2))\<rparr>"
  have "kern_wf app_kern" by code_simp
  moreover have "\<forall>i \<le> 2. state_of app_kern i \<noteq> TASK_MUTEX_BLOCKED"
  proof (intro allI impI)
    fix i :: nat assume "i \<le> 2"
    then have "i \<in> {0, 1, 2}" by auto
    then show "state_of app_kern i \<noteq> TASK_MUTEX_BLOCKED"
      by (auto simp: state_of_def app_kern_def demo_kern_def demo_task_def TASK_MUTEX_BLOCKED_def)
  qed
  ultimately have "app_init demo_app"
    by (simp add: app_init_def demo_app_def) (simp add: app_kern_def)
  then have "reachable app_init (app_step demo_rtc_table l) demo_app" by (rule reachable_init)
  moreover have "app_step demo_rtc_table l demo_app ?a"
    using app_run [of 2 demo_app demo_rtc_table l "demo_app\<lparr>ker := app_kern\<lparr>mutex := 1\<rparr>\<rparr>"]
    by (simp add: demo_app_def app_kern_def OS_Tasks_def mutex_task_def k_mutex_lock_def)
  ultimately have r: "reachable app_init (app_step demo_rtc_table l) ?a" by (rule reachable_step)
  have h: "holders ?a = {2}"
    by (auto simp: holders_def demo_app_def next_pc_def OS_Tasks_def mutex_task_def in_section_def
        app_kern_def demo_kern_def demo_task_def state_of_def TASK_MUTEX_BLOCKED_def)
  show "?P l"
    using clock_used_under_mutex [OF r] r h by (intro exI [of _ ?a]) simp
qed

end
