(* ===== verification/Power_Up.thy ===== *)
theory Power_Up
  imports Kernel_Entry Main_Tasks
begin

text \<open>
  From power-up to the running application: \<open>_kernel_entry\<close> (src/src/kernel.c) with the task list of
  src/src/main.c, and then every interleaving of its tasks with the timer interrupt. The theory
  joins the start-up, the scheduler, the mutex, the device switch, the drivers of the bus, the clock
  and the line, and the formatted output.
\<close>

section \<open>The mutex after the start\<close>

lemma register_keeps_mutex: "mutex (snd (k_task_register dbg stack_top f k)) = mutex k"
  by (simp add: k_task_register_def Let_def split: prod.splits)

lemma register_tasks_mutex:
  "register_tasks dbg stack_top fs k = Some (Idle k') \<Longrightarrow> mutex k' = mutex k"
proof (induction fs arbitrary: k)
  case (Cons f fs)
  obtain r k1 where k1: "k_task_register dbg stack_top f k = (r, k1)" by fastforce
  show ?case
    using Cons register_keeps_mutex [of dbg stack_top f k] k1 by (auto split: if_splits)
qed simp

lemma start_scheduler_mutex:
  assumes "systick_config_ok cfg" "0 < unat (clk div 1000)" "unat (clk div 1000) \<le> 2 ^ 24"
    and "start_scheduler cfg clk dbg stack_top fs k = Some (Idle k')"
  shows "mutex k' = mutex k"
proof -
  have cfg: "cfg (clk div 1000) k1 = k1\<lparr>SysTick_LOAD := clk div 1000 - 1, SysTick_VAL := 0\<rparr>" for k1
    using assms(1-3) unfolding systick_config_ok_def by blast
  have "mutex (snd (scheduler_init cfg clk k)) = mutex k"
    unfolding scheduler_init_def Let_def cfg by (simp add: set_state_def)
  then show ?thesis
    using assms(4) by (auto simp: start_scheduler_def split: prod.splits if_splits dest: register_tasks_mutex)
qed

section \<open>Transfers on the system state\<close>

text \<open>Only the hardware has changed.\<close>

definition hw_only :: "'h sys \<Rightarrow> 'h sys \<Rightarrow> bool" where
  "hw_only s s' \<longleftrightarrow> s' = s\<lparr>sys_hw := sys_hw s'\<rparr>"

lemma hw_only_refl [simp]: "hw_only s s"
  by (simp add: hw_only_def)

lemma hw_only_trans: "hw_only s t \<Longrightarrow> hw_only t u \<Longrightarrow> hw_only s u"
  unfolding hw_only_def by (metis sys.surjective sys.update_convs(1))

lemma hw_only_update [simp]: "hw_only s (s\<lparr>sys_hw := h\<rparr>)"
  by (simp add: hw_only_def)

lemma hw_only_nodes: "hw_only s s' \<Longrightarrow> i2c_node s' = i2c_node s \<and> rtc_node s' = rtc_node s"
  unfolding hw_only_def by (metis sys.select_convs(3,4) sys.surjective sys.update_convs(1))

lemma hw_only_do: "hw_only s t \<Longrightarrow> hw_only s (xmc_do (sys_xmc hw) c t)"
  by (erule hw_only_trans) (simp add: sys_xmc_def)

lemma hw_only_get: "xmc_get (sys_xmc hw) q t = (r, t') \<Longrightarrow> hw_only t t'"
  by (auto simp: sys_xmc_def split: prod.splits)

lemma spin_hw_only:
  assumes "\<exists>s'. settles busy s s'" "\<And>t. hw_only t (snd (busy t))"
  shows "\<exists>s'. spin busy s = Some s' \<and> hw_only s s'"
proof -
  obtain s' where s': "spin busy s = Some s'" using assms(1) by (auto simp: spin_settles)
  moreover have "hw_only s s'"
    using spin_keeps [OF s', of "hw_only s"] hw_only_trans [OF _ assms(2)] by auto
  ultimately show ?thesis by blast
qed

lemma i2c_polls_hw_only:
  "hw_only t (snd (i2c_tx_full (sys_xmc hw) t))" "hw_only t (snd (i2c_receiving (sys_xmc hw) t))"
  by (auto simp: i2c_tx_full_def i2c_receiving_def dest: hw_only_get split: prod.splits)

lemma i2c_send_hw_only:
  assumes "i2c_live (sys_xmc hw)"
  shows "\<exists>s'. usic_i2c_send (sys_xmc hw) w s = Some s' \<and> hw_only s s'"
proof -
  have "\<exists>s'. settles (i2c_tx_full (sys_xmc hw)) s s'" using assms by (simp add: i2c_live_def)
  from spin_hw_only [OF this i2c_polls_hw_only(1)] show ?thesis
    by (auto simp: usic_i2c_send_def hw_only_do)
qed

lemma i2c_send_all_hw_only:
  assumes "i2c_live (sys_xmc hw)"
  shows "\<exists>s'. send_all (\<lambda>b. usic_i2c_send (sys_xmc hw) (ucast b)) bs s = Some s' \<and> hw_only s s'"
proof (induction bs arbitrary: s)
  case (Cons b bs)
  obtain s1 where "usic_i2c_send (sys_xmc hw) (ucast b) s = Some s1" "hw_only s s1"
    using i2c_send_hw_only [OF assms] by blast
  with Cons.IH [of s1] show ?case by (auto intro: hw_only_trans)
qed simp

lemma i2c_wait_ack_hw_only: "hw_only s (i2c_wait_ack (sys_xmc hw) f t s)"
proof (induction "sys_xmc hw" f t s rule: i2c_wait_ack.induct)
  case (1 f t s)
  obtain f' s' where q: "xmc_get (sys_xmc hw) (XMC_I2C_CH_GetStatusFlag I2C_CHANNEL) s = (f', s')" by fastforce
  show ?case
    using 1 [OF _ q [symmetric] refl] hw_only_get [OF q] q
    by (subst i2c_wait_ack.simps) (auto intro: hw_only_trans)
qed

lemma i2c_emit_hw_only:
  assumes "i2c_live (sys_xmc hw)"
  shows "\<exists>s'. i2c_emit (sys_xmc hw) v bs s = Some s' \<and> hw_only s s'"
proof -
  have "hw_only s (i2c_address (sys_xmc hw) (endpt v) s)"
    unfolding i2c_address_def
    by (intro hw_only_do hw_only_trans [OF _ i2c_wait_ack_hw_only]) simp
  moreover obtain s' where "send_all (\<lambda>b. usic_i2c_send (sys_xmc hw) (ucast b)) bs
      (i2c_address (sys_xmc hw) (endpt v) s) = Some s'" "hw_only (i2c_address (sys_xmc hw) (endpt v) s) s'"
    using i2c_send_all_hw_only [OF assms] by blast
  ultimately show ?thesis by (auto simp: i2c_emit_def intro: hw_only_do hw_only_trans)
qed

lemma i2c_recv_hw_only:
  assumes "i2c_live (sys_xmc hw)"
  shows "\<exists>b s'. i2c_recv_step (sys_xmc hw) r s = Some (b, s') \<and> hw_only s s'"
proof -
  let ?s = "if cless 1 r then xmc_do (sys_xmc hw) (XMC_I2C_CH_MasterReceiveAck I2C_CHANNEL) s
             else xmc_do (sys_xmc hw) (XMC_I2C_CH_MasterReceiveNack I2C_CHANNEL) s"
  have s: "hw_only s ?s" by (simp add: hw_only_do)
  have "\<exists>s'. settles (i2c_receiving (sys_xmc hw)) ?s s'" using assms unfolding i2c_live_def by blast
  from spin_hw_only [OF this i2c_polls_hw_only(2)] obtain s1 where
    s1: "spin (i2c_receiving (sys_xmc hw)) ?s = Some s1" "hw_only s s1"
    using hw_only_trans [OF s] by blast
  let ?s2 = "xmc_do (sys_xmc hw) (XMC_I2C_CH_ClearStatusFlag I2C_CHANNEL (i2c_rx_flags (sys_xmc hw))) s1"
  obtain b s3 where q: "xmc_get (sys_xmc hw) (XMC_USIC_CH_RXFIFO_GetData I2C_CHANNEL) ?s2 = (b, s3)" by fastforce
  have "hw_only s s3" using hw_only_trans [OF hw_only_do [OF s1(2)] hw_only_get [OF q]] .
  then show ?thesis unfolding i2c_recv_step_def s1(1) by (simp add: usic_i2c_recv_def q)
qed

lemma i2c_recv_all_hw_only:
  assumes "i2c_live (sys_xmc hw)"
  shows "\<exists>bs s'. recv_all (i2c_recv_step (sys_xmc hw)) n s = Some (bs, s') \<and> hw_only s s'"
proof (induction n arbitrary: s)
  case (Suc n)
  obtain b s1 where "i2c_recv_step (sys_xmc hw) (of_nat (Suc n)) s = Some (b, s1)" "hw_only s s1"
    using i2c_recv_hw_only [OF assms] by blast
  with Suc [of s1] show ?case by (auto intro: hw_only_trans)
qed simp

lemma i2c_fetch_hw_only:
  assumes "i2c_live (sys_xmc hw)"
  shows "\<exists>bs s'. i2c_fetch (sys_xmc hw) v n s = Some (bs, s') \<and> hw_only s s'"
proof -
  let ?s = "xmc_do (sys_xmc hw) (XMC_I2C_CH_MasterStart I2C_CHANNEL (endpt v) XMC_I2C_CH_CMD_READ) s"
  have "hw_only s ?s" by (simp add: hw_only_do)
  moreover obtain bs s' where "recv_all (i2c_recv_step (sys_xmc hw)) n ?s = Some (bs, s')" "hw_only ?s s'"
    using i2c_recv_all_hw_only [OF assms] by blast
  ultimately show ?thesis by (auto simp: i2c_fetch_def intro: hw_only_do hw_only_trans)
qed

section \<open>The devices the application uses\<close>

text \<open>The line, and the clock over the bus.\<close>

definition devices_ok :: "'h xmc \<Rightarrow> (node_data, 'h sys) dev_table \<Rightarrow> u8 list \<Rightarrow> 'h sys \<Rightarrow> bool" where
  "devices_ok hw t buf0 s \<longleftrightarrow> has_uart t (sys_xmc hw) CH1 UART_19200 \<and>
     (\<exists>t2. driver t (rtc_node s) = Some (rtc t2 buf0) \<and> driver t2 (i2c_node s) = Some (i2c (sys_xmc hw)))"

lemma driver_rtc_peer [simp]: "driver t (rtc_peer v) = driver t v"
  by (simp add: rtc_peer_def)

lemma rtc_ioctl_runs:
  assumes "i2c_live (sys_xmc hw)" "length buf0 = 8" "driver t2 (i2c_node s) = Some (i2c (sys_xmc hw))"
    and "code \<in> {RTC_IOCTL_SET_TIME, RTC_IOCTL_GET_TIME}"
  shows "\<exists>tm' s'. ds1307_rtc_ioctl t2 buf0 v code (Tm_data tm) s = Some (0, v, Tm_data tm', s') \<and>
    rtc_node s' = rtc_node s \<and> i2c_node s' = rtc_peer (i2c_node s)"
proof -
  let ?n = "rtc_peer (i2c_node s)"
  consider "code = RTC_IOCTL_SET_TIME" | "code = RTC_IOCTL_GET_TIME" using assms(4) by blast
  then show ?thesis
  proof cases
    case 1
    obtain s3 where "i2c_emit (sys_xmc hw) ?n (rtc_time_bytes tm buf0) (s\<lparr>i2c_node := ?n\<rparr>) = Some s3"
      "hw_only (s\<lparr>i2c_node := ?n\<rparr>) s3"
      using i2c_emit_hw_only [OF assms(1)] by blast
    then show ?thesis
      using rtc_set_time_eq [OF assms(3,2), of v tm] hw_only_nodes [of "s\<lparr>i2c_node := ?n\<rparr>" s3]
      unfolding 1 by simp
  next
    case 2
    obtain s3 where s3: "i2c_emit (sys_xmc hw) ?n [0] (s\<lparr>i2c_node := ?n\<rparr>) = Some s3"
      "hw_only (s\<lparr>i2c_node := ?n\<rparr>) s3"
      using i2c_emit_hw_only [OF assms(1)] by blast
    obtain bs s5 where s5: "i2c_fetch (sys_xmc hw) ?n 7 (s3\<lparr>i2c_node := ?n\<rparr>) = Some (bs, s5)"
      "hw_only (s3\<lparr>i2c_node := ?n\<rparr>) s5"
      using i2c_fetch_hw_only [OF assms(1)] by blast
    show ?thesis
      using rtc_get_time_eq [OF assms(3,2), of v tm] s3(1) s5(1) hw_only_nodes [OF s3(2)] hw_only_nodes [OF s5(2)]
      unfolding 2 by simp
  qed
qed

lemma rtc_request_runs:
  assumes "i2c_live (sys_xmc hw)" "length buf0 = 8" "devices_ok hw t buf0 (dev a)"
    and "code \<in> {RTC_IOCTL_SET_TIME, RTC_IOCTL_GET_TIME}"
  shows "\<exists>a'. rtc_request t code a = Some a' \<and> devices_ok hw t buf0 (dev a')"
proof -
  obtain t2 where t2: "driver t (rtc_node (dev a)) = Some (rtc t2 buf0)"
    "driver t2 (i2c_node (dev a)) = Some (i2c (sys_xmc hw))" "has_uart t (sys_xmc hw) CH1 UART_19200"
    using assms(3) unfolding devices_ok_def by blast
  obtain tm' s' where "ds1307_rtc_ioctl t2 buf0 (rtc_node (dev a)) code (Tm_data (myRTC a)) (dev a) =
      Some (0, rtc_node (dev a), Tm_data tm', s')"
    "rtc_node s' = rtc_node (dev a)" "i2c_node s' = rtc_peer (i2c_node (dev a))"
    using rtc_ioctl_runs [OF assms(1,2) t2(2) assms(4)] by blast
  then show ?thesis
    using t2 by (auto simp: rtc_request_def dev_ioctl_def rtc_def devices_ok_def)
qed

section \<open>The report\<close>

definition report :: "tm \<Rightarrow> u8 list" where
  "report t =
     (let num = (\<lambda>x. int_text 10 (sint x))
      in map of_char ''RTC reports : '' @ num (tm_mday t) @ [of_char CHR ''/''] @ num (tm_mon t)
         @ [of_char CHR ''/''] @ num (tm_year t) @ [of_char CHR '' ''] @ num (tm_hour t)
         @ [of_char CHR '':''] @ num (tm_min t) @ [of_char CHR '':''] @ num (tm_sec t)
         @ [of_char CHR ''!'', 0x0A])"

lemma RTC_print_report:
  assumes "has_uart t (sys_xmc hw) ch baud" "uart_line hw ch wire" "length (l_bf l) = 12"
  shows "\<exists>h. RTC_print t l a = Some (a\<lparr>dev := (dev a)\<lparr>sys_hw := h\<rparr>\<rparr>) \<and>
    wire h = wire (sys_hw (dev a)) @ map ucast (report (myRTC a))"
proof -
  let ?t = "myRTC a"
  let ?d = "\<lambda>x. Conv None [] [] (Dec x)" and ?c = "\<lambda>c. Lit (of_char c)"
  let ?ps = "lits ''RTC reports : '' @ [?d (tm_mday ?t), ?c CHR ''/'', ?d (tm_mon ?t), ?c CHR ''/'', ?d (tm_year ?t),
      ?c CHR '' '', ?d (tm_hour ?t), ?c CHR '':'', ?d (tm_min ?t), ?c CHR '':'', ?d (tm_sec ?t), ?c CHR ''!'', Lit 0x0A]"
  note defs = lits_def line_def pieces_fmt_def pieces_args_def
  obtain h where "printf_sys t l (line ''RTC reports : %d/%d/%d %d:%d:%d!'')
      (map Va_int [tm_mday ?t, tm_mon ?t, tm_year ?t, tm_hour ?t, tm_min ?t, tm_sec ?t]) (dev a) =
      Some ((dev a)\<lparr>sys_hw := h\<rparr>)" "wire h = wire (sys_hw (dev a)) @ map ucast (pieces_text ?ps)"
    using printf_sys_line [OF assms, of ?ps "line ''RTC reports : %d/%d/%d %d:%d:%d!''"
        "map Va_int [tm_mday ?t, tm_mon ?t, tm_year ?t, tm_hour ?t, tm_min ?t, tm_sec ?t]" "dev a"]
    by (auto simp: defs shown_all)
  moreover have "pieces_text ?ps = report ?t"
    by (simp add: pieces_text_def lits_def report_def Let_def)
  ultimately show ?thesis by (intro exI [of _ h]) (simp add: RTC_print_def Let_def)
qed

section \<open>Every statement has a result\<close>

lemma devices_ok_hw [simp]: "devices_ok hw t buf0 (s\<lparr>sys_hw := h\<rparr>) = devices_ok hw t buf0 s"
  by (simp add: devices_ok_def)

lemma run_stmt_runs:
  assumes "i2c_live (sys_xmc hw)" "uart_line hw CH1 wire" "length (l_bf l) = 12" "length buf0 = 8"
    and "devices_ok hw t buf0 (dev a)" "kern_wf (ker a)"
  shows "\<exists>a'. run_stmt t l st a = Some a' \<and> devices_ok hw t buf0 (dev a')"
proof (cases st)
  case (Call e)
  then show ?thesis using kstep_wf [OF assms(6), of e] assms(5) by auto
next
  case Set_RTC
  have "devices_ok hw t buf0 (dev (a\<lparr>myRTC := first_tm\<rparr>))" using assms(5) by simp
  from rtc_request_runs [OF assms(1,4) this, of RTC_IOCTL_SET_TIME] Set_RTC show ?thesis by simp
next
  case Update_RTC
  then show ?thesis
    using rtc_request_runs [OF assms(1,4,5), of RTC_IOCTL_GET_TIME] by (simp add: RTC_update_def)
next
  case Print_RTC
  have "has_uart t (sys_xmc hw) CH1 UART_19200" using assms(5) by (simp add: devices_ok_def)
  from RTC_print_report [OF this assms(2,3), of a] Print_RTC assms(5) show ?thesis by auto
qed

lemma app_step_devices:
  assumes "i2c_live (sys_xmc hw)" "uart_line hw CH1 wire" "length (l_bf l) = 12" "length buf0 = 8"
    and "devices_ok hw t buf0 (dev a)" "app_inv a" "app_step t l a a'"
  shows "devices_ok hw t buf0 (dev a')"
  using assms(7)
proof (cases rule: app_step.cases)
  case (app_run u b)
  then show ?thesis
    using run_stmt_runs [OF assms(1-5) app_invD(1) [OF assms(6)], of "OS_Tasks u ! pcs a u"] by auto
qed (use assms(5) in auto)

lemma reachable_from:
  assumes "reachable (\<lambda>a. a = a0) step a" "init a0"
  shows "reachable init step a"
  using assms by (induction rule: reachable.induct) (auto intro: reachable.intros)

lemma reachable_devices:
  assumes "i2c_live (sys_xmc hw)" "uart_line hw CH1 wire" "length (l_bf l) = 12" "length buf0 = 8"
    and "devices_ok hw t buf0 (dev a0)" "app_init a0" "reachable (\<lambda>a. a = a0) (app_step t l) a"
  shows "app_inv a \<and> devices_ok hw t buf0 (dev a)"
  using assms(7)
proof (induction rule: reachable.induct)
  case (reachable_init a)
  then show ?case using assms(5,6) application.invar_init by blast
next
  case (reachable_step a b)
  then show ?case
    using application.invar_step app_step_devices [OF assms(1-4)] by blast
qed

lemma app_inv_mutex:
  assumes "app_inv a"
  shows "card (holders a) = (if mutex (ker a) = 0 then 0 else 1)"
  using assms by (auto simp: app_inv_def lock_inv_def split: if_splits)

section \<open>Properties\<close>

text \<open>
  C7: from power-up, the system runs for ever. With a UART that sends what is put into its transmit
  FIFO, an I2C bus whose polls come to an end, and the mutex free as the start-up code leaves
  it, \<open>_kernel_entry\<close> gets to its idle loop; and in every state that the two tasks of main.c reach from
  there, under any interleaving of interrupts and statements, the timer interrupt is handled,
  the next statement of the running task has a result (no fault, no unmapped driver, no wait
  that never ends), and the mutex is taken exactly when one task is in its critical section.
\<close>

theorem power_up_runs:
  assumes "uart_line hw CH1 wire" "only_fifo_sends hw wire" "i2c_live (sys_xmc hw)"
    and "length (l_bf l) = 12" "length buf0 = 8"
    and "systick_config_ok cfg" "0 < unat (clk div 1000)" "unat (clk div 1000) \<le> 2 ^ 24"
    and "length (tasks k) = MAX_TASKS" "mutex k = 0" "f1 \<noteq> 0" "f2 \<noteq> 0"
  shows "\<exists>k' t s'. kernel_entry hw cfg clk dbg stack_top [f1, f2, 0] ids l buf0 cu ci k s = Some (Idle k', t, s') \<and>
    (\<forall>a. reachable (\<lambda>a. a = \<lparr>ker = k', pcs = (\<lambda>_. 0), dev = s', myRTC = m\<rparr>) (app_step t l) a \<longrightarrow>
       (\<exists>k2. kstep Tick (ker a) = Some k2) \<and>
       (\<forall>u. u = current_tid (ker a) \<and> 1 \<le> u \<longrightarrow> (\<exists>a2. run_stmt t l (OS_Tasks u ! pcs a u) a = Some a2)) \<and>
       card (holders a) = (if mutex (ker a) = 0 then 0 else 1))"
proof -
  have fs: "0 \<notin> set [f1, f2]" "length [f1, f2] \<le> 7" using assms(11,12) by auto
  obtain k' t s' where r: "kernel_entry hw cfg clk dbg stack_top ([f1, f2] @ 0 # []) ids l buf0 cu ci k s = Some (Idle k', t, s')"
    "start_scheduler cfg clk dbg stack_top ([f1, f2] @ 0 # []) k = Some (Idle k')" "kern_wf k'"
    "registered_tasks k' = length [f1, f2]" "\<forall>i < length [f1, f2]. starts_at dbg stack_top k' (Suc i) ([f1, f2] ! i)"
    "has_uart t (sys_xmc hw) CH1 UART_19200"
    "\<exists>t2. driver t (rtc_node s') = Some (rtc t2 buf0) \<and> driver t2 (i2c_node s') = Some (i2c (sys_xmc hw))"
    "current_tid k' = 0"
    using kernel_entry_spec [OF assms(1,2,4,6-9) fs, of dbg stack_top "[]" ids buf0 cu ci s] by blast
  let ?a0 = "\<lparr>ker = k', pcs = (\<lambda>_. 0), dev = s', myRTC = m\<rparr>"
  have mx: "mutex k' = 0" using start_scheduler_mutex [OF assms(6-8) r(2)] assms(10) by simp
  have "state_of k' i \<noteq> TASK_MUTEX_BLOCKED" if "i \<le> 2" for i
  proof -
    have "i = 0 \<or> i = 1 \<or> i = 2" using that by auto
    moreover have "state_of k' 1 = TASK_READY" "state_of k' 2 = TASK_READY"
      using r(5) [rule_format, of 0] r(5) [rule_format, of 1] by (simp_all add: starts_at_def numeral_2_eq_2)
    moreover have "state_of k' 0 = TASK_RUNNING"
      using r(3,8) by (auto simp: kern_wf_def)
    ultimately show ?thesis by auto
  qed
  then have init: "app_init ?a0" using mx r(3,4) by (simp add: app_init_def)
  have d: "devices_ok hw t buf0 (dev ?a0)" using r(6,7) by (simp add: devices_ok_def)
  have "(\<exists>k2. kstep Tick (ker a) = Some k2) \<and>
      (\<forall>u. u = current_tid (ker a) \<and> 1 \<le> u \<longrightarrow> (\<exists>a2. run_stmt t l (OS_Tasks u ! pcs a u) a = Some a2)) \<and>
      card (holders a) = (if mutex (ker a) = 0 then 0 else 1)"
    if "reachable (\<lambda>a. a = ?a0) (app_step t l) a" for a
  proof -
    from reachable_devices [OF assms(3,1,4,5) d init that]
    have a: "app_inv a" "devices_ok hw t buf0 (dev a)" by simp_all
    note wf = app_invD(1) [OF a(1)]
    show ?thesis
      using kstep_wf [OF wf, of Tick] run_stmt_runs [OF assms(3,1,4,5) a(2) wf] app_inv_mutex [OF a(1)] by blast
  qed
  with r(1) show ?thesis by (intro exI [of _ k'] exI [of _ t] exI [of _ s']) simp
qed

text \<open>Hardware that is always ready, and records the line; the state after the first interrupt.\<close>

definition ready_xmc :: "u16 list xmc" where
  "ready_xmc = \<lparr>xmc_do = (\<lambda>c h. case c of
       XMC_USIC_CH_TXFIFO_PutData ch w \<Rightarrow> if ch = XMC_UART0_CH1 then h @ [w] else h | _ \<Rightarrow> h),
     xmc_get = (\<lambda>q h. (case q of XMC_I2C_CH_GetStatusFlag ch \<Rightarrow> 1 | _ \<Rightarrow> 0, h)), xmc_value = (\<lambda>_. 1)\<rparr>"

lemma ready_line: "uart_line ready_xmc CH1 id"
proof -
  have full: "uart_tx_full ready_xmc CH1 h = (False, h)" for h
    by (simp add: uart_tx_full_def ready_xmc_def)
  have "settles (uart_tx_full ready_xmc CH1) h h" for h by (rule settles_now) (rule full)
  then show ?thesis
    unfolding uart_line_def by (auto simp: full) (simp add: ready_xmc_def)
qed

lemma ready_quiet: "only_fifo_sends ready_xmc id"
  unfolding only_fifo_sends_def
proof (intro allI impI)
  fix c h assume "\<forall>w. c \<noteq> XMC_USIC_CH_TXFIFO_PutData (UART_CHANNEL CH1) w"
  then show "id (xmc_do ready_xmc c h) = id h" by (cases c) (auto simp: ready_xmc_def)
qed

lemma ready_live: "i2c_live (sys_xmc ready_xmc)"
proof -
  have "i2c_tx_full (sys_xmc ready_xmc) s = (False, s)" for s
    by (simp add: i2c_tx_full_def ready_xmc_def sys_xmc_def)
  moreover have "i2c_receiving (sys_xmc ready_xmc) s = (False, s)" for s
    by (simp add: i2c_receiving_def i2c_rx_flags_def ready_xmc_def sys_xmc_def)
  ultimately show ?thesis unfolding i2c_live_def by (blast intro: settles_now)
qed

definition ready_locals :: locals where
  "ready_locals = \<lparr>l_bytes = (\<lambda>_. 0xEE), l_bf = replicate 12 0xEE, l_vnode = demo_node 9\<rparr>"

theorem power_up_runs_witness:
  "\<exists>k' t s' a. kernel_entry ready_xmc demo_systick 32000000 True 0x20003D00 [0x10001200, 0x10001300, 0]
      \<lparr>DBGROMID = 0, FLSIZE = 0x11000, RAM0SIZE = 0x1000\<rparr> ready_locals (replicate 8 0xEE)
      \<lparr>uart_baudrate = 0, uart_data_bits = 0, uart_parity_mode = XMC_USIC_CH_PARITY_MODE_NONE, uart_stop_bits = 0\<rparr>
      \<lparr>i2c_baudrate = 0\<rparr> app_kern boot_sys = Some (Idle k', t, s') \<and>
    app_step t ready_locals \<lparr>ker = k', pcs = (\<lambda>_. 0), dev = s', myRTC = first_tm\<rparr> a \<and>
    (\<exists>k2. kstep Tick (ker a) = Some k2) \<and> card (holders a) = (if mutex (ker a) = 0 then 0 else 1)"
proof -
  have clk: "unat (32000000 div 1000 :: u32) = 32000" by (simp add: unat_div_distrib)
  have pre: "length (l_bf ready_locals) = 12" "length (replicate 8 (0xEE :: u8)) = 8" "systick_config_ok demo_systick"
    "0 < unat (32000000 div 1000 :: u32)" "unat (32000000 div 1000 :: u32) \<le> 2 ^ 24"
    "length (tasks app_kern) = MAX_TASKS" "mutex app_kern = 0" "0x10001200 \<noteq> (0 :: u32)" "0x10001300 \<noteq> (0 :: u32)"
    unfolding clk by (simp_all add: ready_locals_def systick_config_ok_def demo_systick_def app_kern_def demo_kern_def MAX_TASKS_def)
  from power_up_runs [OF ready_line ready_quiet ready_live pre, of True "0x20003D00"
      "\<lparr>DBGROMID = 0, FLSIZE = 0x11000, RAM0SIZE = 0x1000\<rparr>"
      "\<lparr>uart_baudrate = 0, uart_data_bits = 0, uart_parity_mode = XMC_USIC_CH_PARITY_MODE_NONE, uart_stop_bits = 0\<rparr>"
      "\<lparr>i2c_baudrate = 0\<rparr>" boot_sys first_tm]
  obtain k' t s' where r: "kernel_entry ready_xmc demo_systick 32000000 True 0x20003D00 [0x10001200, 0x10001300, 0]
      \<lparr>DBGROMID = 0, FLSIZE = 0x11000, RAM0SIZE = 0x1000\<rparr> ready_locals (replicate 8 0xEE)
      \<lparr>uart_baudrate = 0, uart_data_bits = 0, uart_parity_mode = XMC_USIC_CH_PARITY_MODE_NONE, uart_stop_bits = 0\<rparr>
      \<lparr>i2c_baudrate = 0\<rparr> app_kern boot_sys = Some (Idle k', t, s')"
    and all: "\<forall>a. reachable (\<lambda>a. a = \<lparr>ker = k', pcs = (\<lambda>_. 0), dev = s', myRTC = first_tm\<rparr>) (app_step t ready_locals) a \<longrightarrow>
       (\<exists>k2. kstep Tick (ker a) = Some k2) \<and>
       (\<forall>u. u = current_tid (ker a) \<and> 1 \<le> u \<longrightarrow> (\<exists>a2. run_stmt t ready_locals (OS_Tasks u ! pcs a u) a = Some a2)) \<and>
       card (holders a) = (if mutex (ker a) = 0 then 0 else 1)"
    by blast
  let ?a0 = "\<lparr>ker = k', pcs = (\<lambda>_. 0), dev = s', myRTC = first_tm\<rparr>"
  have r0: "reachable (\<lambda>a. a = ?a0) (app_step t ready_locals) ?a0" by (rule reachable_init) simp
  then obtain k2 where k2: "kstep Tick (ker ?a0) = Some k2" using all by blast
  have st: "app_step t ready_locals ?a0 (?a0\<lparr>ker := k2\<rparr>)" by (rule app_tick [OF k2])
  from all reachable_step [OF r0 st] r st show ?thesis by blast
qed

text \<open>
  C10: what the application reports. On a working line and bus, with a clock that keeps its registers as
  documented and stands still, and with the devices mapped as \<open>_kernel_entry\<close> maps them: setting
  the clock, as the first statement of \<open>uart_task\<close> does, reading it back and printing it
  all have results, the time read is the time set, and what the last one puts on the line is
  RTC reports : 17/6/16 14:53:0! and a line feed.
\<close>

theorem report_of_set_time:
  assumes "rtc_chip (sys_xmc hw) (ptr \<circ> sys_hw) (regs \<circ> sys_hw)" "i2c_live (sys_xmc hw)"
    and "uart_line hw CH1 wire" "length (l_bf l) = 12" "length buf0 = 8" "devices_ok hw t buf0 (dev a)"
  shows "\<exists>a1 a2 a3. run_stmt t l Set_RTC a = Some a1 \<and> run_stmt t l Update_RTC a1 = Some a2 \<and>
    myRTC a2 = first_tm \<and> run_stmt t l Print_RTC a2 = Some a3 \<and>
    wire (sys_hw (dev a3)) = wire (sys_hw (dev a2)) @
      map ucast (map of_char ''RTC reports : 17/6/16 14:53:0!'' @ [0x0A :: u8])"
proof -
  let ?s = "dev a" and ?v = "rtc_node (dev a)"
  obtain t2 where t2: "driver t ?v = Some (rtc t2 buf0)" "driver t2 (i2c_node ?s) = Some (i2c (sys_xmc hw))"
    "has_uart t (sys_xmc hw) CH1 UART_19200"
    using assms(6) unfolding devices_ok_def by blast
  have plain: "tm_plain first_tm" by (simp add: tm_plain_def first_tm_def)
  obtain s1 s2 where s12: "ds1307_rtc_ioctl t2 buf0 ?v RTC_IOCTL_SET_TIME (Tm_data first_tm) ?s = Some (0, ?v, Tm_data first_tm, s1)"
    "ds1307_rtc_ioctl t2 buf0 ?v RTC_IOCTL_GET_TIME (Tm_data first_tm) s1 = Some (0, ?v, Tm_data first_tm, s2)"
    using rtc_set_then_get [OF assms(1) t2(2) assms(5,5) plain, of ?v first_tm] by blast
  obtain s1' tm1 where "ds1307_rtc_ioctl t2 buf0 ?v RTC_IOCTL_SET_TIME (Tm_data first_tm) ?s = Some (0, ?v, Tm_data tm1, s1')"
    "rtc_node s1' = ?v"
    using rtc_ioctl_runs [OF assms(2,5) t2(2), of RTC_IOCTL_SET_TIME ?v first_tm] by auto
  then have n1: "rtc_node s1 = ?v" using s12(1) by simp
  let ?a1 = "a\<lparr>myRTC := first_tm, dev := s1\<lparr>rtc_node := ?v\<rparr>\<rparr>"
  let ?a2 = "a\<lparr>myRTC := first_tm, dev := s2\<lparr>rtc_node := ?v\<rparr>\<rparr>"
  have keep: "s1\<lparr>rtc_node := ?v\<rparr> = s1" using n1 by (metis sys.surjective sys.update_convs(4) sys.select_convs(4))
  have 1: "run_stmt t l Set_RTC a = Some ?a1"
    using s12(1) t2(1) by (simp add: rtc_request_def dev_ioctl_def rtc_def)
  have 2: "run_stmt t l Update_RTC ?a1 = Some ?a2"
    using s12(2) t2(1) unfolding keep by (simp add: RTC_update_def rtc_request_def dev_ioctl_def rtc_def n1)
  obtain h where h: "RTC_print t l ?a2 = Some (?a2\<lparr>dev := (dev ?a2)\<lparr>sys_hw := h\<rparr>\<rparr>)"
    "wire h = wire (sys_hw (dev ?a2)) @ map ucast (report (myRTC ?a2))"
    using RTC_print_report [OF t2(3) assms(3,4), of ?a2] by blast
  have "report first_tm = map of_char ''RTC reports : 17/6/16 14:53:0!'' @ [0x0A]" by code_simp
  then show ?thesis
    using 1 2 h by (intro exI [of _ ?a1] exI [of _ ?a2] exI [of _ "?a2\<lparr>dev := (dev ?a2)\<lparr>sys_hw := h\<rparr>\<rparr>"]) simp
qed

text \<open>The chip of the clock's examples, with its line.\<close>

definition demo_board :: "(node_data, demo_chip sys) dev_table" where
  "demo_board = driver_map DEV_RTC (rtc demo_rtc_table (replicate 8 0xAB))
     (driver_map DEV_UART (uart (sys_xmc chip_xmc) CH1 UART_19200) no_devices)"

lemma chip_line: "uart_line chip_xmc CH1 ch_wire"
proof -
  have full: "uart_tx_full chip_xmc CH1 h = (False, h)" for h
    by (simp add: uart_tx_full_def chip_xmc_def chip_get_def)
  have "settles (uart_tx_full chip_xmc CH1) h h" for h by (rule settles_now) (rule full)
  then show ?thesis
    unfolding uart_line_def by (auto simp: full) (simp add: chip_xmc_def chip_do_def)
qed

lemma chip_live: "i2c_live (sys_xmc chip_xmc)"
proof -
  have "i2c_tx_full (sys_xmc chip_xmc) s = (False, s)" for s
    by (simp add: i2c_tx_full_def chip_xmc_def chip_get_def sys_xmc_def)
  moreover have "i2c_receiving (sys_xmc chip_xmc) s = (False, s)" for s
    by (simp add: i2c_receiving_def i2c_rx_flags_def chip_xmc_def chip_get_def sys_xmc_def)
  ultimately show ?thesis unfolding i2c_live_def by (blast intro: settles_now)
qed

lemma demo_board_ok: "devices_ok chip_xmc demo_board (replicate 8 0xAB) (dev demo_app)"
  unfolding devices_ok_def
proof (intro conjI exI)
  show "has_uart demo_board (sys_xmc chip_xmc) CH1 UART_19200"
    unfolding demo_board_def by (intro has_uart_other has_uart_mapped) simp_all
  show "driver demo_board (rtc_node (dev demo_app)) = Some (rtc demo_rtc_table (replicate 8 0xAB))"
    unfolding demo_board_def
    by (rule driver_map_same) (simp_all add: node_of_def demo_app_def demo_rtc_sys_def demo_node_def)
  show "driver demo_rtc_table (i2c_node (dev demo_app)) = Some (i2c (sys_xmc chip_xmc))"
    using demo_rtc_driver by (simp add: demo_app_def)
qed

theorem report_of_set_time_witness:
  "\<exists>a1 a2 a3. run_stmt demo_board ready_locals Set_RTC demo_app = Some a1 \<and>
    run_stmt demo_board ready_locals Update_RTC a1 = Some a2 \<and>
    run_stmt demo_board ready_locals Print_RTC a2 = Some a3 \<and> tm_mday (myRTC a2) = 17"
proof -
  have "length (l_bf ready_locals) = 12" "length (replicate 8 (0xAB :: u8)) = 8" by (simp_all add: ready_locals_def)
  from report_of_set_time [OF chip_is_rtc chip_live chip_line this demo_board_ok]
  obtain a1 a2 a3 where "run_stmt demo_board ready_locals Set_RTC demo_app = Some a1"
    "run_stmt demo_board ready_locals Update_RTC a1 = Some a2" "myRTC a2 = first_tm"
    "run_stmt demo_board ready_locals Print_RTC a2 = Some a3" by blast
  then show ?thesis by (intro exI [of _ a1] exI [of _ a2] exI [of _ a3]) (simp add: first_tm_def)
qed

end
