(* ===== verification/Spec2Isabelle.thy ===== *)
theory Spec2Isabelle
  imports Circular_Buffer Scheduler_Properties Mutex_Protocol Memory_Layout Console_Calls
    Mmc_Open Reset_Vectors Task_Machine Lcd_Hd44780 Transfer_Safety
    Power_Up
begin

text \<open>
  PascalScheduler: a round-robin scheduler for the XMC1100 (ARM Cortex-M0), with its system
  calls, device drivers and a small C library.

  The program. After a reset, \<open>_start\<close> (src/src/arch/arm/cortex-m0/init.s) fills the RAM and calls
  \<open>c_init\<close> (src/src/c_init.c) and \<open>_kernel_entry\<close> (src/src/kernel.c), which starts the drivers, prints a
  banner, registers the tasks of src/src/main.c and becomes the idle task. The SysTick interrupt and
  the SVC exception save the context of the running task (scheduler_s.s, isr_s.s), run the scheduler
  (src/src/scheduler.c, src/src/isr.c) and restore the context of the task it has chosen. Tasks call
  the kernel through src/src/syscall.c, src/src/mutex.c and src/src/signals.c, and devices through the
  table of src/src/sys/dev.c: UART, SPI, I2C, a DS1307 clock over I2C, a memory card over SPI, a PWM
  unit, a character display. printf (src/src/lib/libc) writes to the UART.

  Machine integers are words: \<open>cint\<close> is a 32-bit word read as signed by \<open>sint\<close> and compared by
  \<open>cless\<close>; the build has -fwrapv, so signed overflow wraps. A read outside an object, a NULL driver or a
  wait that never ends has no result: the functions return options. State is passed explicitly;
  the vendor's XMC library, which is not in the repository, is the parameter \<open>hw :: 's xmc\<close>, a
  function from its calls and queries to the state of the hardware, about which a theorem states what
  it needs (\<open>uart_line\<close>, \<open>i2c_live\<close>, \<open>rtc_chip\<close>, \<open>card_on\<close>, \<open>sd_card\<close>, \<open>bus_and_line\<close>,
  \<open>systick_config_ok\<close>). Arrays on the stack that the code does not initialise are arguments.

  Theories, and the source they model.
  \<^item> \<open>Pascal_Prelude\<close>: types, arithmetic on words and ring indices, shared lemmas.
  \<^item> \<open>Heap_Sbrk\<close> (syscall.c, errno.h), \<open>Circular_Buffer\<close> (circular_buffer.c), \<open>Memory_Layout\<close>
    (linker_script.ld against the stacks of scheduler.c).
  \<^item> \<open>Task_Scheduler\<close> (scheduler.c: the record \<open>kern\<close> of its variables and one definition per function),
    \<open>Scheduler_Reference\<close> (what the scans and the wake-up loop compute, without loops),
    \<open>Scheduler_Invariant\<close> (\<open>kern_wf\<close> and its preservation), \<open>Signal_Flags\<close> (signals.c), \<open>Kernel_Machine\<close>
    (the handlers as events), \<open>Sleep_Timing\<close>, \<open>Demo_Kernel\<close> (states for the witnesses),
    \<open>Scheduler_Properties\<close>, \<open>Scheduler_Abstract\<close> (a scheduler without words and loops that
    scheduler.c implements), \<open>Task_Machine\<close> (tasks with processors of their own, which the exception
    handlers implement), \<open>Mutex_Protocol\<close> (clients with paired calls as a step relation).
  \<^item> \<open>Event_Machine\<close>, \<open>Round_Robin\<close>: runs of events, reachable states, and the interfaces
    \<open>simulation\<close>, \<open>inductive_invariant\<close> and \<open>round_robin\<close> with what follows from them.
  \<^item> \<open>Supervisor\<close> (isr.c, scheduler_s.s, isr_s.s, the wrappers of syscall.c and mutex.c),
    \<open>Kernel_Boot\<close> (start of the scheduler), \<open>Reset_Startup\<close>, \<open>Reset_Vectors\<close> (init.s, c_init.c),
    \<open>Kernel_Entry\<close> (the whole of \<open>_kernel_entry\<close>), \<open>Main_Tasks\<close> (main.c), \<open>Power_Up\<close> (the system from power-up).
  \<^item> \<open>Device_Switch\<close> (sys/dev.h, sys/dev.c; the interface \<open>stream_device\<close>), \<open>Byte_Transfer\<close> (the
    transfer loops the drivers share), \<open>Device_Data\<close> (the XMC library's calls), \<open>Uart_Usic\<close>, \<open>Spi_Usic\<close>,
    \<open>I2c_Usic\<close>, \<open>Rtc_Ds1307\<close>, \<open>Mcu_Pwm\<close>, \<open>Lcd_Hd44780\<close> (the drivers under src/src/dev), \<open>System_State\<close> (the
    global nodes), \<open>Transfer_Safety\<close> (the interface \<open>careful_reader\<close>).
  \<^item> \<open>Mmc_Codec\<close>, \<open>Mmc_Registers\<close> (CRC, bit fields and card registers), \<open>Mmc_Spi\<close> (the driver),
    \<open>Mmc_Card\<close> (the documented behaviour of a card), \<open>Mmc_Properties\<close>, \<open>Mmc_Steps\<close> and
    \<open>Mmc_Open\<close> (opening a card, with its reports on the console).
  \<^item> \<open>Libc_String\<close>, \<open>Libc_Digits\<close>, \<open>Libc_Printf\<close> (src/src/lib/libc), \<open>Console_Calls\<close>, \<open>System_Console\<close>
    (file calls of syscall.c, printf and getchar on the UART).

  What the lemmas show. Scheduler: the exception handlers implement tasks with processors of their
  own under an abstract scheduler; every history of interrupts and calls runs to its end with one
  task running; ring order, fairness and the bounds of sleeping; mutual exclusion and hand-over;
  contexts of tasks do not leak; and where the code departs from its documentation (starvation at
  the mutex, the clock that yields stop, the wrap of the tick counter, the deadline that never
  passes, signals that are not waited for). Data: up to its first overflow the circular buffer refines
  a bounded queue (\<open>cb_invar\<close>), and what a write to a full buffer does is given for every state that
  writes and reads reach (\<open>cb_ring\<close>); the allocator's blocks are disjoint; where the stacks of the
  tasks lie. Drivers: what goes over the line and the buses, that reads stay in their buffer, that
  a card is opened and its blocks are read and written (blocks of up to 512 bytes, the size of the
  driver's buffer, that do not begin with 0xFF). printf: the text of every format of the known
  directives, on the line. System: what a reset leaves, boot, and every statement of the
  application has a result in every state reached from power-up.

  Interfaces. \<open>bounded_queue\<close> is interpreted by the circular buffer, \<open>round_robin\<close> by the
  kernel, \<open>simulation\<close> by its events and by the exception handlers, \<open>inductive_invariant\<close> by the
  mutex protocol and the application, \<open>stream_device\<close> by the UART, SPI and I2C drivers,
  \<open>careful_reader\<close> by all drivers that read.

  Bounds. No definition has fuel. Loops that end have measures; loops that may not (the ring
  scan, busy waiting, \<open>dev_read\<close>, waits for the card) are partial functions into options, and the
  theorems prove that they have results under the stated behaviour of the hardware. The constants
  are the code's: 8 tasks, 128 characters of a format, 200 polls of the bus, 128 of the card.

  Not modelled. The encoding of the instructions of init.s; the bodies of the
  XMC library and of CMSIS (a submodule without its files); enumerators and declarations nothing
  uses (isr.h, types.h, platform.h, the unused flags of mmc.h and signals.h); the build files, of
  which the configuration (UART on channel 1 at 19200 baud, I2C on channel 0, the clock) is fixed in the
  definitions. \<open>Lcd_Hd44780\<close> models a file that does not compile as it is; what it calls and
  nothing declares is a parameter. Interrupts inside a statement on a device, and during
  \<open>_kernel_entry\<close>, change the kernel state only and are not interleaved with it.
\<close>

end
